(* ===== verification/Rust_Prelude.thy ===== *)
theory Rust_Prelude
  imports
    Main
    "HOL-Library.Word"
    "HOL-Library.Char_ord"
    "HOL-Library.List_Lexorder"
begin

text \<open>
  The part of Rust and of its standard library that the neolaas sources use, together with the
  generic lemmas the component theories share.

  Strings are \<^verbatim>\<open>String\<close>/\<^verbatim>\<open>&str\<close> as lists of bytes (\<^typ>\<open>char\<close> has 256 values), so \<^const>\<open>length\<close> is
  \<^verbatim>\<open>str::len\<close> and the order on strings is the bytewise order of \<^verbatim>\<open>str::cmp\<close>. A
  \<^verbatim>\<open>Duration\<close> is a number of nanoseconds; an \<^verbatim>\<open>Instant\<close> is an integer number of nanoseconds on
  the monotonic clock (on Linux an \<^verbatim>\<open>Instant\<close> holds signed seconds, so \<^verbatim>\<open>now - window\<close> may lie
  before boot). Unsigned integers are words, whose \<open>+\<close>, \<open>*\<close> and \<open>^\<close> wrap around as they do in the
  workspace's release profile, which leaves overflow checks off. A panic is the left component of a
  sum. The clock is read where the code reads it: each operation takes its readings as arguments.
\<close>

section \<open>Collections of the development\<close>

named_theorems inv_intros \<open>preservation of component invariants by single operations\<close>

section \<open>Types\<close>

type_synonym u16 = "16 word"
type_synonym u32 = "32 word"
type_synonym u64 = "64 word"
type_synonym byte = "8 word"
type_synonym duration = nat
type_synonym instant = int
type_synonym timestamp = int

datatype rust_panic = Slice_Panic | Expect_Panic string

type_synonym 'a may_panic = "rust_panic + 'a"

section \<open>Results\<close>

text \<open>\<^verbatim>\<open>Result::and_then\<close>, and the propagation of an error by \<open>?\<close> and of a panic by unwinding.\<close>

definition and_then :: "'e + 'a \<Rightarrow> ('a \<Rightarrow> 'e + 'b) \<Rightarrow> 'e + 'b" where
  "and_then r f = (case r of Inl e \<Rightarrow> Inl e | Inr a \<Rightarrow> f a)"

lemma and_then_simps [simp]:
  "and_then (Inl e) f = Inl e"
  "and_then (Inr a) f = f a"
  by (simp_all add: and_then_def)

lemma and_then_eq_Inr: "and_then r f = Inr b \<longleftrightarrow> (\<exists>a. r = Inr a \<and> f a = Inr b)"
  by (cases r) auto

lemma and_then_eq_Inl: "and_then r f = Inl e \<longleftrightarrow> r = Inl e \<or> (\<exists>a. r = Inr a \<and> f a = Inl e)"
  by (cases r) auto

section \<open>Durations and instants\<close>

definition from_secs :: "nat \<Rightarrow> duration" where
  "from_secs s = s * 1000000000"

definition from_millis :: "nat \<Rightarrow> duration" where
  "from_millis ms = ms * 1000000"

definition as_millis :: "duration \<Rightarrow> nat" where
  "as_millis d = d div 1000000"

text \<open>\<^verbatim>\<open>Instant::elapsed\<close> saturates at zero when the instant lies in the future.\<close>

definition elapsed :: "instant \<Rightarrow> instant \<Rightarrow> duration" where
  "elapsed now t = nat (now - t)"

lemma as_millis_from_millis [simp]: "as_millis (from_millis n) = n"
  by (simp add: as_millis_def from_millis_def)

lemma from_secs_mono [simp]: "from_secs a \<le> from_secs b \<longleftrightarrow> a \<le> b"
  by (simp add: from_secs_def)

lemma elapsed_0 [simp]: "elapsed t t = 0"
  by (simp add: elapsed_def)

lemma elapsed_less_iff: "t \<le> now \<Longrightarrow> elapsed now t < d \<longleftrightarrow> now < t + int d"
  by (auto simp: elapsed_def)

lemma elapsed_gr_iff: "d < elapsed now t \<longleftrightarrow> t + int d < now"
  by (auto simp: elapsed_def)

section \<open>Strings\<close>

text \<open>\<^verbatim>\<open>&s[n..]\<close> panics past the end and inside a UTF-8 encoded code point.\<close>

definition is_char_boundary :: "string \<Rightarrow> nat \<Rightarrow> bool" where
  "is_char_boundary s n \<longleftrightarrow>
     n = 0 \<or> n = length s \<or>
     (n < length s \<and> \<not> (128 \<le> (of_char (s ! n) :: nat) \<and> (of_char (s ! n) :: nat) < 192))"

definition slice_from :: "string \<Rightarrow> nat \<Rightarrow> string may_panic" where
  "slice_from s n = (if is_char_boundary s n then Inr (drop n s) else Inl Slice_Panic)"

lemma slice_from_short: "length s < n \<Longrightarrow> slice_from s n = Inl Slice_Panic"
  by (auto simp: slice_from_def is_char_boundary_def)

definition strip_prefix :: "string \<Rightarrow> string \<Rightarrow> string option" where
  "strip_prefix s p = (if take (length p) s = p then Some (drop (length p) s) else None)"

lemma strip_prefix_append [simp]: "strip_prefix (p @ s) p = Some s"
  by (simp add: strip_prefix_def)

lemma strip_prefix_eq_Some: "strip_prefix s p = Some r \<longleftrightarrow> s = p @ r"
  by (metis append_eq_conv_conj strip_prefix_def option.sel option.distinct(1))

text \<open>\<^verbatim>\<open>str::split(c)\<close>: the pieces between the separators, at least one.\<close>

fun split_on :: "char \<Rightarrow> string \<Rightarrow> string list" where
  "split_on c [] = [[]]"
| "split_on c (x # xs) =
     (if x = c then [] # split_on c xs
      else (case split_on c xs of [] \<Rightarrow> [[x]] | w # ws \<Rightarrow> (x # w) # ws))"

lemma split_on_nonempty [simp]: "split_on c s \<noteq> []"
  by (induction s) (auto split: list.splits)

text \<open>Decimal \<^verbatim>\<open>Display\<close> of unsigned integers, and \<^verbatim>\<open>str::parse\<close> into them.\<close>

definition digit_char :: "nat \<Rightarrow> char" where
  "digit_char d = char_of (48 + d)"

function show_nat :: "nat \<Rightarrow> string" where
  "show_nat n = (if n < 10 then [digit_char n] else show_nat (n div 10) @ [digit_char (n mod 10)])"
  by pat_completeness auto
termination
  by (relation "measure id") auto

declare show_nat.simps [simp del]

definition digit_value :: "char \<Rightarrow> nat option" where
  "digit_value c =
     (let n = (of_char c :: nat) in if 48 \<le> n \<and> n \<le> 57 then Some (n - 48) else None)"

text \<open>
  \<^verbatim>\<open>u16::from_str\<close> and its kin: an optional plus sign, then one or more digits, with an error on
  overflow past \<open>limit\<close>. The accumulator is checked at every digit, as the library does.
\<close>

fun parse_digits :: "nat \<Rightarrow> nat \<Rightarrow> string \<Rightarrow> nat option" where
  "parse_digits limit acc [] = Some acc"
| "parse_digits limit acc (c # cs) =
     (case digit_value c of
        None \<Rightarrow> None
      | Some d \<Rightarrow>
          if 10 * acc + d \<le> limit then parse_digits limit (10 * acc + d) cs else None)"

definition parse_unsigned :: "nat \<Rightarrow> string \<Rightarrow> nat option" where
  "parse_unsigned limit s =
     (case s of
        [] \<Rightarrow> None
      | c # cs \<Rightarrow>
          if c = CHR ''+'' then (if cs = [] then None else parse_digits limit 0 cs)
          else parse_digits limit 0 s)"

definition parse_u16 :: "string \<Rightarrow> u16 option" where
  "parse_u16 s = map_option of_nat (parse_unsigned 65535 s)"

lemma digit_value_digit_char [simp]: "d < 10 \<Longrightarrow> digit_value (digit_char d) = Some d"
  by (simp add: digit_value_def digit_char_def Let_def of_char_of)

lemma digit_char_not_plus: "d < 10 \<Longrightarrow> digit_char d \<noteq> CHR ''+''"
  using digit_value_digit_char [of d] by (auto simp: digit_value_def Let_def)

lemma show_nat_nonempty [simp]: "show_nat n \<noteq> []"
  by (subst show_nat.simps) simp

lemma parse_digits_append:
  "parse_digits l acc (xs @ ys) =
     (case parse_digits l acc xs of None \<Rightarrow> None | Some acc' \<Rightarrow> parse_digits l acc' ys)"
  by (induction xs arbitrary: acc) (auto split: option.splits)

lemma parse_digits_show_nat: "n \<le> l \<Longrightarrow> parse_digits l 0 (show_nat n) = Some n"
proof (induction n rule: show_nat.induct)
  case (1 n)
  show ?case
  proof (cases "n < 10")
    case True
    with "1.prems" show ?thesis by (simp add: show_nat.simps [of n])
  next
    case False
    with 1 have "parse_digits l 0 (show_nat (n div 10)) = Some (n div 10)" by simp
    moreover have "n mod 10 < 10" and "10 * (n div 10) + n mod 10 = n" by simp_all
    ultimately show ?thesis
      using False "1.prems" by (simp add: show_nat.simps [of n] parse_digits_append)
  qed
qed

lemma hd_show_nat_not_plus: "hd (show_nat n) \<noteq> CHR ''+''"
proof (induction n rule: show_nat.induct)
  case (1 n)
  then show ?case
    by (cases "n < 10") (simp_all add: show_nat.simps [of n] digit_char_not_plus)
qed

lemma parse_unsigned_show_nat: "n \<le> l \<Longrightarrow> parse_unsigned l (show_nat n) = Some n"
  using hd_show_nat_not_plus [of n] parse_digits_show_nat [of n l]
  by (cases "show_nat n") (auto simp: parse_unsigned_def)

lemma parse_digits_bound: "parse_digits l acc s = Some n \<Longrightarrow> acc \<le> l \<Longrightarrow> n \<le> l"
  by (induction s arbitrary: acc) (auto split: option.splits if_splits)

lemma parse_unsigned_bound: "parse_unsigned l s = Some n \<Longrightarrow> n \<le> l"
  by (auto simp: parse_unsigned_def simp del: parse_digits.simps split: list.splits if_splits
      dest: parse_digits_bound)

section \<open>Iterators\<close>

text \<open>
  \<^verbatim>\<open>Iterator::max_by_key\<close> reduces from the left and keeps the later of two elements with equal
  keys.
\<close>

fun max_by_key :: "('a \<Rightarrow> 'k::linorder) \<Rightarrow> 'a list \<Rightarrow> 'a option" where
  "max_by_key f [] = None"
| "max_by_key f (x # xs) = Some (foldl (\<lambda>b y. if f b \<le> f y then y else b) x xs)"

lemma max_by_key_snoc:
  "max_by_key f (xs @ [y]) =
     (case max_by_key f xs of None \<Rightarrow> Some y | Some b \<Rightarrow> Some (if f b \<le> f y then y else b))"
  by (cases xs) auto

lemma max_by_key_None [simp]: "max_by_key f xs = None \<longleftrightarrow> xs = []"
  by (cases xs) auto

lemma max_by_key_in: "max_by_key f xs = Some p \<Longrightarrow> p \<in> set xs"
proof (induction xs arbitrary: p rule: rev_induct)
  case Nil
  then show ?case by simp
next
  case (snoc y xs)
  then show ?case
    by (cases "max_by_key f xs") (auto simp: max_by_key_snoc split: if_splits)
qed

lemma max_by_key_greatest: "max_by_key f xs = Some p \<Longrightarrow> q \<in> set xs \<Longrightarrow> f q \<le> f p"
proof (induction xs arbitrary: p rule: rev_induct)
  case Nil
  then show ?case by simp
next
  case (snoc y xs)
  show ?case
  proof (cases "max_by_key f xs")
    case None
    with snoc.prems show ?thesis by (auto simp: max_by_key_snoc)
  next
    case (Some b)
    have "f q \<le> f b" if "q \<in> set xs" using snoc.IH [OF Some that] .
    with Some snoc.prems show ?thesis
      by (auto simp: max_by_key_snoc split: if_splits)
  qed
qed

text \<open>On a list sorted by \<open>g\<close> a tie on the key goes to the greatest \<open>g\<close>.\<close>

lemma max_by_key_tie:
  assumes "sorted (map g xs)" and "max_by_key f xs = Some p" and "q \<in> set xs" and "f q = f p"
  shows "g q \<le> g p"
  using assms
proof (induction xs arbitrary: p rule: rev_induct)
  case Nil
  then show ?case by simp
next
  case (snoc y xs)
  have sorted_xs: "sorted (map g xs)" and below_y: "\<And>z. z \<in> set xs \<Longrightarrow> g z \<le> g y"
    using snoc.prems(1) by (auto simp: sorted_append)
  show ?case
  proof (cases "max_by_key f xs")
    case None
    with snoc.prems show ?thesis by (auto simp: max_by_key_snoc)
  next
    case (Some b)
    show ?thesis
    proof (cases "f b \<le> f y")
      case True
      with Some snoc.prems have "p = y" by (simp add: max_by_key_snoc)
      with snoc.prems(3) below_y show ?thesis by auto
    next
      case False
      with Some snoc.prems have "p = b" by (simp add: max_by_key_snoc)
      with False snoc.prems have "q \<in> set xs" by auto
      with snoc.IH [OF sorted_xs Some] \<open>p = b\<close> snoc.prems(4) show ?thesis by simp
    qed
  qed
qed

lemma length_filter_weaken:
  "(\<And>x. P x \<Longrightarrow> Q x) \<Longrightarrow> length (filter P xs) \<le> length (filter Q xs)"
  by (induction xs) auto

section \<open>Integers\<close>

text \<open>\<^verbatim>\<open>u32::saturating_pow\<close> and \<^verbatim>\<open>u32::saturating_sub\<close>.\<close>

definition saturating_pow :: "u32 \<Rightarrow> u32 \<Rightarrow> u32" where
  "saturating_pow b e =
     (if unat b ^ unat e < 2 ^ 32 then b ^ unat e else 4294967295)"

definition saturating_sub :: "u32 \<Rightarrow> u32 \<Rightarrow> u32" where
  "saturating_sub a b = (if a < b then 0 else a - b)"

lemma unat_u32_less: "unat (w :: u32) < 4294967296"
  using unsigned_less [of w] by simp

lemma unat_u64_less: "unat (w :: u64) < 18446744073709551616"
  using unsigned_less [of w] by simp

lemma unat_power_small:
  fixes b :: "'a::len word"
  shows "unat b ^ n < 2 ^ LENGTH('a) \<Longrightarrow> unat (b ^ n) = unat b ^ n"
proof (induction n)
  case 0
  then show ?case by simp
next
  case (Suc n)
  show ?case
  proof (cases "unat b = 0")
    case True
    then show ?thesis by (simp add: unat_eq_zero)
  next
    case False
    then have "unat b ^ n \<le> unat b ^ Suc n"
      by (intro power_increasing) auto
    with Suc.prems have small: "unat b ^ n < 2 ^ LENGTH('a)"
      by linarith
    with Suc.IH Suc.prems have "unat b * unat (b ^ n) < 2 ^ LENGTH('a)"
      by simp
    with small Suc.IH show ?thesis
      by (simp add: unat_mult_lem [THEN iffD1])
  qed
qed

lemma unat_saturating_pow: "unat (saturating_pow b e) = min (unat b ^ unat e) (2 ^ 32 - 1)"
  using unat_power_small [of b "unat e"] by (auto simp: saturating_pow_def)

lemma unat_saturating_sub [simp]: "unat (saturating_sub a b) = unat a - unat b"
  by (auto simp: saturating_sub_def word_less_nat_alt unat_sub_if')

lemma unat_Suc_no_wrap: "unat (w :: u32) < 4294967295 \<Longrightarrow> unat (w + 1) = Suc (unat w)"
  by (simp add: unat_word_ariths)

section \<open>Maps\<close>

text \<open>
  A \<^verbatim>\<open>HashMap\<close> is a map with finite domain. \<^verbatim>\<open>HashMap::remove\<close> is \<open>m(k := None)\<close>,
  \<^verbatim>\<open>contains_key\<close> is \<open>k \<in> dom m\<close> and \<^verbatim>\<open>len\<close> is \<open>card (dom m)\<close>. The order in which it yields its
  keys is unspecified: an operation that iterates over one takes the order as an argument, a function
  from the set of keys to the list of them.
\<close>

definition iteration_order :: "('k set \<Rightarrow> 'k list) \<Rightarrow> bool" where
  "iteration_order ord \<longleftrightarrow> (\<forall>S. finite S \<longrightarrow> distinct (ord S) \<and> set (ord S) = S)"

lemma iteration_orderD:
  "iteration_order ord \<Longrightarrow> finite S \<Longrightarrow> distinct (ord S)"
  "iteration_order ord \<Longrightarrow> finite S \<Longrightarrow> set (ord S) = S"
  by (simp_all add: iteration_order_def)

lemma iteration_order_sorted: "iteration_order (sorted_list_of_set :: 'k::linorder set \<Rightarrow> 'k list)"
  by (simp add: iteration_order_def)

definition map_len :: "('k \<rightharpoonup> 'v) \<Rightarrow> nat" where
  "map_len m = card (dom m)"

lemma map_len_insert_new:
  "finite (dom m) \<Longrightarrow> k \<notin> dom m \<Longrightarrow> map_len (m(k \<mapsto> v)) = Suc (map_len m)"
  by (simp add: map_len_def)

lemma map_len_insert_old: "k \<in> dom m \<Longrightarrow> map_len (m(k \<mapsto> v)) = map_len m"
  by (simp add: map_len_def insert_absorb)

lemma map_len_remove:
  "finite (dom m) \<Longrightarrow> k \<in> dom m \<Longrightarrow> map_len (m(k := None)) = map_len m - 1"
  by (simp add: map_len_def)

lemma map_len_pos: "finite (dom m) \<Longrightarrow> k \<in> dom m \<Longrightarrow> 0 < map_len m"
  by (auto simp: map_len_def card_gt_0_iff)

section \<open>Invariants along runs\<close>

text \<open>
  The contract shared by every component that is driven by a sequence of messages: an admissible step
  keeps the invariant. A run of admissible steps then keeps it as well.
\<close>

locale invariant_step =
  fixes step :: "'e \<Rightarrow> 's \<Rightarrow> 's"
    and admissible :: "'e \<Rightarrow> bool"
    and inv :: "'s \<Rightarrow> bool"
  assumes step_inv: "admissible e \<Longrightarrow> inv s \<Longrightarrow> inv (step e s)"
begin

lemma run_inv: "list_all admissible es \<Longrightarrow> inv s \<Longrightarrow> inv (fold step es s)"
  by (induction es arbitrary: s) (auto intro: step_inv)

end

text \<open>
  A component that implements an abstract one: under the invariant every admissible step commutes with
  the abstraction, and so does every run.
\<close>

locale simulation = invariant_step step admissible inv
  for step :: "'e \<Rightarrow> 's \<Rightarrow> 's" and admissible :: "'e \<Rightarrow> bool" and inv :: "'s \<Rightarrow> bool" +
  fixes astep :: "'e \<Rightarrow> 'a \<Rightarrow> 'a"
    and abs :: "'s \<Rightarrow> 'a"
  assumes step_sim: "admissible e \<Longrightarrow> inv s \<Longrightarrow> abs (step e s) = astep e (abs s)"
begin

lemma run_sim: "list_all admissible es \<Longrightarrow> inv s \<Longrightarrow> abs (fold step es s) = fold astep es (abs s)"
  by (induction es arbitrary: s) (simp_all add: step_sim step_inv)

end

end
