(* ===== verification/Network_Config.thy ===== *)
theory Network_Config
  imports Rust_Prelude Complex_Main
begin

text \<open>
  Network configuration: \<^verbatim>\<open>crates/neolaas-server/src/network/config.rs\<close>.

  The process environment is a map from variable names to values; a variable that is unset or not
  valid Unicode is undefined in it, as \<^verbatim>\<open>std::env::var\<close> reports both as an error.
\<close>

section \<open>Model\<close>

record network_config =
  cf_connection_idle_timeout :: duration
  cf_p2p_port :: u16
  cf_cluster_id :: string
  cf_etcd_endpoints :: "string list"
  cf_pod_ip :: string
  cf_initialization_delay :: duration
  cf_cleanup_interval :: duration
  cf_stale_peer_max_age :: duration
  cf_ping_interval :: duration
  cf_ping_initial_delay :: duration
  cf_failure_threshold :: u32
  cf_max_failures :: u32
  cf_backoff_base :: u64
  cf_max_backoff_power :: u32
  cf_lease_ttl :: int
  cf_keepalive_interval :: duration
  cf_delete_propagation_wait :: duration
  cf_reconnect_delay :: duration
  cf_etcd_backoff_initial :: duration
  cf_etcd_backoff_max :: duration
  cf_etcd_backoff_max_elapsed :: duration
  cf_etcd_backoff_multiplier :: real
  cf_kameo_request_timeout :: duration
  cf_kameo_max_streams :: u32
  cf_kademlia_query_timeout :: duration
  cf_kademlia_parallelism :: nat
  cf_kademlia_publication_interval :: duration
  cf_kademlia_provider_ttl :: duration

definition network_config_default :: network_config where
  "network_config_default =
     \<lparr>cf_connection_idle_timeout = from_secs 300,
      cf_p2p_port = 9000,
      cf_cluster_id = ''default'',
      cf_etcd_endpoints = [''http://etcd.infra.svc.cluster.local:2379''],
      cf_pod_ip = ''127.0.0.1'',
      cf_initialization_delay = from_millis 500,
      cf_cleanup_interval = from_secs 60,
      cf_stale_peer_max_age = from_secs 300,
      cf_ping_interval = from_secs 5,
      cf_ping_initial_delay = from_secs 2,
      cf_failure_threshold = 3,
      cf_max_failures = 10,
      cf_backoff_base = 2,
      cf_max_backoff_power = 6,
      cf_lease_ttl = 15,
      cf_keepalive_interval = from_secs 5,
      cf_delete_propagation_wait = from_secs 5,
      cf_reconnect_delay = from_secs 5,
      cf_etcd_backoff_initial = from_secs 1,
      cf_etcd_backoff_max = from_secs 10,
      cf_etcd_backoff_max_elapsed = from_secs 60,
      cf_etcd_backoff_multiplier = 2,
      cf_kameo_request_timeout = from_secs 30,
      cf_kameo_max_streams = 100,
      cf_kademlia_query_timeout = from_secs 3,
      cf_kademlia_parallelism = 10,
      cf_kademlia_publication_interval = from_secs (30 * 60),
      cf_kademlia_provider_ttl = from_secs (60 * 60)\<rparr>"

type_synonym process_env = "string \<rightharpoonup> string"

definition from_env :: "process_env \<Rightarrow> network_config" where
  "from_env env =
     (let config = network_config_default;
          config =
            (case env ''P2P_PORT'' of
               Some port \<Rightarrow>
                 (case parse_u16 port of
                    Some parsed \<Rightarrow> config\<lparr>cf_p2p_port := parsed\<rparr>
                  | None \<Rightarrow> config)
             | None \<Rightarrow> config);
          config =
            (case env ''CLUSTER_ID'' of
               Some cluster_id \<Rightarrow> config\<lparr>cf_cluster_id := cluster_id\<rparr>
             | None \<Rightarrow> config);
          config =
            (case env ''ETCD_ENDPOINTS'' of
               Some endpoints \<Rightarrow> config\<lparr>cf_etcd_endpoints := split_on CHR '','' endpoints\<rparr>
             | None \<Rightarrow> config);
          config =
            (case env ''POD_IP'' of
               Some pod_ip \<Rightarrow> config\<lparr>cf_pod_ip := pod_ip\<rparr>
             | None \<Rightarrow> config)
      in config)"

section \<open>Lemmas\<close>

text \<open>The environment a deployment would write for the four variables.\<close>

fun join_with :: "char \<Rightarrow> string list \<Rightarrow> string" where
  "join_with c [] = []"
| "join_with c [w] = w"
| "join_with c (w # ws) = w @ c # join_with c ws"

lemma split_on_no_sep: "c \<notin> set w \<Longrightarrow> split_on c w = [w]"
  by (induction w) auto

lemma split_on_append: "c \<notin> set w \<Longrightarrow> split_on c (w @ c # s) = w # split_on c s"
  by (induction w) auto

lemma split_on_join_with:
  "ws \<noteq> [] \<Longrightarrow> (\<And>w. w \<in> set ws \<Longrightarrow> c \<notin> set w) \<Longrightarrow> split_on c (join_with c ws) = ws"
  by (induction c ws rule: join_with.induct) (simp_all add: split_on_no_sep split_on_append)

lemma parse_u16_show: "parse_u16 (show_nat (unat p)) = Some p"
proof -
  have "unat p < 2 ^ LENGTH(16)" by (rule unsigned_less)
  then have "unat p \<le> 65535" by simp
  then show ?thesis by (simp add: parse_u16_def parse_unsigned_show_nat)
qed

definition deployment_env :: "u16 \<Rightarrow> string \<Rightarrow> string list \<Rightarrow> string \<Rightarrow> process_env" where
  "deployment_env port cluster_id endpoints pod_ip =
     [''P2P_PORT'' \<mapsto> show_nat (unat port), ''CLUSTER_ID'' \<mapsto> cluster_id,
      ''ETCD_ENDPOINTS'' \<mapsto> join_with CHR '','' endpoints, ''POD_IP'' \<mapsto> pod_ip]"

section \<open>Properties\<close>

text \<open>
  C31. Configuration round trip: writing a port, a cluster name, a non-empty list of endpoints without
  commas and a pod address into the environment and reading the configuration back gives the default
  configuration with exactly these four values.
\<close>

theorem from_env_roundtrip:
  assumes "endpoints \<noteq> []" and "\<And>e. e \<in> set endpoints \<Longrightarrow> CHR '','' \<notin> set e"
  shows "from_env (deployment_env port cluster_id endpoints pod_ip) =
    network_config_default\<lparr>cf_p2p_port := port, cf_cluster_id := cluster_id,
      cf_etcd_endpoints := endpoints, cf_pod_ip := pod_ip\<rparr>"
  using split_on_join_with [OF assms]
  by (simp add: from_env_def deployment_env_def parse_u16_show)

theorem from_env_roundtrip_witness:
  "from_env (deployment_env 9100 ''lab'' [''http://a:2379'', ''http://b:2379''] ''10.0.0.7'') =
     network_config_default\<lparr>cf_p2p_port := 9100, cf_cluster_id := ''lab'',
       cf_etcd_endpoints := [''http://a:2379'', ''http://b:2379''], cf_pod_ip := ''10.0.0.7''\<rparr>"
  by (rule from_env_roundtrip) auto

text \<open>
  What no environment can break: the timing and threshold settings are those of the default
  configuration for every environment, so three keep-alive intervals fit the lease, backoff starts
  before a peer is given up, the largest backoff does not overflow 64 bits, and the list of endpoints
  is never empty; an unparsable port leaves the default port.
\<close>

lemma from_env_sound:
  "3 * cf_keepalive_interval (from_env env) \<le> from_secs (nat (cf_lease_ttl (from_env env))) \<and>
   cf_failure_threshold (from_env env) < cf_max_failures (from_env env) \<and>
   unat (cf_backoff_base (from_env env)) ^ unat (cf_max_backoff_power (from_env env)) < 2 ^ 64 \<and>
   cf_etcd_endpoints (from_env env) \<noteq> [] \<and>
   cf_p2p_port (from_env env) =
     (case Option.bind (env ''P2P_PORT'') parse_u16 of Some p \<Rightarrow> p | None \<Rightarrow> 9000)"
  by (auto simp: from_env_def network_config_default_def from_secs_def Let_def split: option.splits)

end
