(* ===== verification/Network_State.thy ===== *)
theory Network_State
  imports Network_Config
begin

text \<open>
  Connection state of the peers: \<^verbatim>\<open>crates/neolaas-server/src/network/types/state.rs\<close> and
  \<^verbatim>\<open>types/peer.rs\<close>.

  Every operation of \<^verbatim>\<open>NetworkState\<close> runs under one acquisition of its lock, so it is atomic. An
  operation that reads the monotonic clock takes the readings as arguments, one for each reading the
  code makes, in that order. Log lines are not modelled.
\<close>

section \<open>Model\<close>

datatype ip_addr = V4 u32 | V6 "128 word"

record peer_info =
  pi_pod_name :: string
  pi_address :: ip_addr
  pi_port :: u16

datatype connection_status = Connected | Disconnected | Failed

record 'p peer_connection_state =
  pc_peer_id :: 'p
  pc_peer_info :: peer_info
  pc_status :: connection_status
  pc_consecutive_failures :: u32
  pc_last_seen :: instant
  pc_last_failure :: "instant option"
  pc_connected_at :: "instant option"

definition peer_connection_state_new ::
  "instant \<Rightarrow> 'p \<Rightarrow> peer_info \<Rightarrow> 'p peer_connection_state" where
  "peer_connection_state_new now peer_id peer_info =
     \<lparr>pc_peer_id = peer_id, pc_peer_info = peer_info, pc_status = Disconnected,
      pc_consecutive_failures = 0, pc_last_seen = now, pc_last_failure = None,
      pc_connected_at = None\<rparr>"

definition peer_should_skip_ping ::
  "instant \<Rightarrow> network_config \<Rightarrow> 'p peer_connection_state \<Rightarrow> bool" where
  "peer_should_skip_ping now config p =
     (case pc_status p of
        Connected \<Rightarrow> False
      | Disconnected \<Rightarrow>
          if cf_failure_threshold config < pc_consecutive_failures p then
            (case pc_last_failure p of
               Some last_failure \<Rightarrow>
                 (let backoff_duration = from_secs (unat
                        (cf_backoff_base config ^
                          unat (min (pc_consecutive_failures p) (cf_max_backoff_power config))))
                  in elapsed now last_failure < backoff_duration)
             | None \<Rightarrow> True)
          else False
      | Failed \<Rightarrow> True)"

definition peer_mark_connected ::
  "instant \<times> instant \<Rightarrow> 'p peer_connection_state \<Rightarrow> 'p peer_connection_state" where
  "peer_mark_connected t p =
     p\<lparr>pc_status := Connected, pc_consecutive_failures := 0, pc_last_seen := fst t,
       pc_connected_at := Some (snd t), pc_last_failure := None\<rparr>"

definition peer_mark_disconnected ::
  "instant \<Rightarrow> 'p peer_connection_state \<Rightarrow> 'p peer_connection_state" where
  "peer_mark_disconnected now p =
     p\<lparr>pc_status := Disconnected, pc_last_seen := now, pc_connected_at := None\<rparr>"

definition peer_mark_failure ::
  "instant \<times> instant \<Rightarrow> network_config \<Rightarrow> 'p peer_connection_state \<Rightarrow> 'p peer_connection_state" where
  "peer_mark_failure t config p =
     (let p = p\<lparr>pc_consecutive_failures := pc_consecutive_failures p + 1,
                pc_last_failure := Some (fst t), pc_last_seen := snd t\<rparr>
      in if cf_max_failures config \<le> pc_consecutive_failures p then p\<lparr>pc_status := Failed\<rparr>
         else p\<lparr>pc_status := Disconnected\<rparr>)"

definition peer_mark_success ::
  "instant \<Rightarrow> 'p peer_connection_state \<Rightarrow> 'p peer_connection_state" where
  "peer_mark_success now p =
     (let p = p\<lparr>pc_consecutive_failures := 0, pc_last_seen := now, pc_last_failure := None\<rparr>
      in if pc_status p = Disconnected then p\<lparr>pc_status := Connected\<rparr> else p)"

record 'p network_state =
  ns_local_peer_id :: 'p
  ns_peers :: "'p \<rightharpoonup> 'p peer_connection_state"
  ns_config :: network_config

definition network_state_new :: "'p \<Rightarrow> network_config \<Rightarrow> 'p network_state" where
  "network_state_new local_peer_id config =
     \<lparr>ns_local_peer_id = local_peer_id, ns_peers = Map.empty, ns_config = config\<rparr>"

text \<open>\<^verbatim>\<open>peers.get_mut(peer_id)\<close> followed by an update of the entry, if there is one.\<close>

definition update_peer ::
  "'p \<Rightarrow> ('p peer_connection_state \<Rightarrow> 'p peer_connection_state) \<Rightarrow>
     'p network_state \<Rightarrow> 'p network_state" where
  "update_peer peer_id f ns =
     (case ns_peers ns peer_id of
        Some p \<Rightarrow> ns\<lparr>ns_peers := (ns_peers ns)(peer_id \<mapsto> f p)\<rparr>
      | None \<Rightarrow> ns)"

definition add_peer :: "instant \<Rightarrow> 'p \<Rightarrow> peer_info \<Rightarrow> 'p network_state \<Rightarrow> 'p network_state" where
  "add_peer now peer_id peer_info ns =
     (case ns_peers ns peer_id of
        None \<Rightarrow> ns\<lparr>ns_peers := (ns_peers ns)
                   (peer_id \<mapsto> peer_connection_state_new now peer_id peer_info)\<rparr>
      | Some _ \<Rightarrow> ns)"

definition mark_connected :: "instant \<times> instant \<Rightarrow> 'p \<Rightarrow> 'p network_state \<Rightarrow> 'p network_state" where
  "mark_connected t peer_id ns = update_peer peer_id (peer_mark_connected t) ns"

definition mark_disconnected :: "instant \<Rightarrow> 'p \<Rightarrow> 'p network_state \<Rightarrow> 'p network_state" where
  "mark_disconnected now peer_id ns = update_peer peer_id (peer_mark_disconnected now) ns"

definition mark_failure :: "instant \<times> instant \<Rightarrow> 'p \<Rightarrow> 'p network_state \<Rightarrow> 'p network_state" where
  "mark_failure t peer_id ns = update_peer peer_id (peer_mark_failure t (ns_config ns)) ns"

definition mark_success :: "instant \<Rightarrow> 'p \<Rightarrow> 'p network_state \<Rightarrow> 'p network_state" where
  "mark_success now peer_id ns = update_peer peer_id (peer_mark_success now) ns"

text \<open>\<open>ids\<close> is the order in which the map of peers is traversed.\<close>

definition get_peers :: "('p set \<Rightarrow> 'p list) \<Rightarrow> 'p network_state \<Rightarrow> peer_info list" where
  "get_peers keys ns =
     map (\<lambda>i. pc_peer_info (the (ns_peers ns i))) (keys (dom (ns_peers ns)))"

definition get_connected_peers :: "('p set \<Rightarrow> 'p list) \<Rightarrow> 'p network_state \<Rightarrow> 'p list" where
  "get_connected_peers keys ns =
     filter (\<lambda>i. pc_status (the (ns_peers ns i)) = Connected) (keys (dom (ns_peers ns)))"

definition should_skip_ping :: "instant \<Rightarrow> 'p \<Rightarrow> 'p network_state \<Rightarrow> bool" where
  "should_skip_ping now peer_id ns =
     (case ns_peers ns peer_id of
        Some state \<Rightarrow> peer_should_skip_ping now (ns_config ns) state
      | None \<Rightarrow> True)"

definition has_peer :: "'p \<Rightarrow> 'p network_state \<Rightarrow> bool" where
  "has_peer peer_id ns \<longleftrightarrow> ns_peers ns peer_id \<noteq> None"

definition remove_peer :: "'p \<Rightarrow> 'p network_state \<Rightarrow> 'p network_state" where
  "remove_peer peer_id ns = ns\<lparr>ns_peers := (ns_peers ns)(peer_id := None)\<rparr>"

text \<open>The clock is read once per visited entry; \<open>clock\<close> gives the reading made for each peer.\<close>

definition cleanup_stale_peers ::
  "('p \<Rightarrow> instant) \<Rightarrow> ('p set \<Rightarrow> 'p list) \<Rightarrow> duration \<Rightarrow> 'p network_state \<Rightarrow> 'p network_state" where
  "cleanup_stale_peers clock keys max_age ns =
     (let stale_peers =
            filter (\<lambda>i. let state = the (ns_peers ns i)
                       in pc_status state = Failed \<and> max_age < elapsed (clock i) (pc_last_seen state))
              (keys (dom (ns_peers ns)))
      in fold remove_peer stale_peers ns)"

text \<open>The operations that other tasks perform on the shared state, in the order of the lock.\<close>

datatype 'p net_op =
    Add_Peer instant 'p peer_info
  | Mark_Connected "instant \<times> instant" 'p
  | Mark_Disconnected instant 'p
  | Mark_Failure "instant \<times> instant" 'p
  | Mark_Success instant 'p
  | Remove_Peer 'p
  | Cleanup "'p \<Rightarrow> instant" "'p set \<Rightarrow> 'p list" duration

fun net_step :: "'p net_op \<Rightarrow> 'p network_state \<Rightarrow> 'p network_state" where
  "net_step (Add_Peer now i info) = add_peer now i info"
| "net_step (Mark_Connected t i) = mark_connected t i"
| "net_step (Mark_Disconnected now i) = mark_disconnected now i"
| "net_step (Mark_Failure t i) = mark_failure t i"
| "net_step (Mark_Success now i) = mark_success now i"
| "net_step (Remove_Peer i) = remove_peer i"
| "net_step (Cleanup clock keys max_age) = cleanup_stale_peers clock keys max_age"

section \<open>Lemmas\<close>

text \<open>
  A peer's entry is filed under its own identifier, remembers its last failure whenever it counts any,
  and counts none while connected.
\<close>

definition peer_ok :: "'p \<Rightarrow> 'p peer_connection_state \<Rightarrow> bool" where
  "peer_ok i p \<longleftrightarrow>
     pc_peer_id p = i \<and>
     (pc_consecutive_failures p \<noteq> 0 \<longrightarrow> pc_last_failure p \<noteq> None) \<and>
     (pc_status p = Connected \<longrightarrow> pc_consecutive_failures p = 0)"

definition net_ok :: "'p network_state \<Rightarrow> bool" where
  "net_ok ns \<longleftrightarrow>
     finite (dom (ns_peers ns)) \<and> (\<forall>i p. ns_peers ns i = Some p \<longrightarrow> peer_ok i p)"

lemmas peer_op_defs =
  peer_mark_connected_def peer_mark_disconnected_def peer_mark_failure_def peer_mark_success_def
  peer_connection_state_new_def Let_def

lemma peer_ok_ops [inv_intros]:
  "peer_ok i (peer_connection_state_new now i info)"
  "peer_ok i p \<Longrightarrow> peer_ok i (peer_mark_connected t p)"
  "peer_ok i p \<Longrightarrow> peer_ok i (peer_mark_disconnected now p)"
  "peer_ok i p \<Longrightarrow> peer_ok i (peer_mark_failure t cfg p)"
  "peer_ok i p \<Longrightarrow> peer_ok i (peer_mark_success now p)"
  by (auto simp: peer_ok_def peer_op_defs)

lemma net_ok_update_peer [inv_intros]:
  "net_ok ns \<Longrightarrow> (\<And>p. peer_ok i p \<Longrightarrow> peer_ok i (f p)) \<Longrightarrow> net_ok (update_peer i f ns)"
  by (auto simp: net_ok_def update_peer_def split: option.split)

lemma net_ok_add_peer [inv_intros]: "net_ok ns \<Longrightarrow> net_ok (add_peer now i info ns)"
  by (auto simp: net_ok_def add_peer_def peer_ok_ops split: option.split)

lemma net_ok_remove_peer [inv_intros]: "net_ok ns \<Longrightarrow> net_ok (remove_peer i ns)"
  by (auto simp: net_ok_def remove_peer_def)

lemma fold_remove_peer:
  "fold remove_peer is ns = ns\<lparr>ns_peers := (\<lambda>i. if i \<in> set is then None else ns_peers ns i)\<rparr>"
  by (induction "is" arbitrary: ns) (auto simp: remove_peer_def fun_eq_iff)

lemma cleanup_dom: "dom (ns_peers (cleanup_stale_peers clock keys max_age ns)) \<subseteq> dom (ns_peers ns)"
  by (auto simp: cleanup_stale_peers_def fold_remove_peer Let_def dom_def split: if_splits)

lemma net_ok_cleanup [inv_intros]: "net_ok ns \<Longrightarrow> net_ok (cleanup_stale_peers clock keys max_age ns)"
  by (auto simp: net_ok_def cleanup_stale_peers_def fold_remove_peer Let_def dom_def
      split: if_splits intro: rev_finite_subset)

lemma net_ok_step: "net_ok ns \<Longrightarrow> net_ok (net_step e ns)"
  by (cases e)
    (auto simp: mark_connected_def mark_disconnected_def mark_failure_def mark_success_def
      intro!: inv_intros)

interpretation network: invariant_step net_step "\<lambda>_. True" net_ok
  by unfold_locales (rule net_ok_step)

lemma net_ok_new: "net_ok (network_state_new i cfg)"
  by (simp add: net_ok_def network_state_new_def)


lemma mark_failures:
  "ts \<noteq> [] \<Longrightarrow> unat (pc_consecutive_failures p) + length ts < 4294967296 \<Longrightarrow>
   p' = fold (\<lambda>t. peer_mark_failure t cfg) ts p \<Longrightarrow>
   unat (pc_consecutive_failures p') = unat (pc_consecutive_failures p) + length ts \<and>
   pc_last_failure p' = Some (fst (last ts)) \<and>
   pc_status p' = (if unat (cf_max_failures cfg) \<le> unat (pc_consecutive_failures p')
                   then Failed else Disconnected)"
proof (induction ts arbitrary: p)
  case Nil
  then show ?case by simp
next
  case (Cons t ts)
  let ?p = "peer_mark_failure t cfg p"
  have one: "unat (pc_consecutive_failures ?p) = Suc (unat (pc_consecutive_failures p))"
    using Cons.prems(2) unat_Suc_no_wrap [of "pc_consecutive_failures p"]
    by (simp add: peer_mark_failure_def Let_def)
  show ?case
  proof (cases "ts = []")
    case True
    then show ?thesis
      using Cons.prems(3) one
      by (auto simp: peer_mark_failure_def Let_def word_le_nat_alt split: if_splits)
  next
    case False
    with Cons.IH [of ?p] Cons.prems one show ?thesis by simp
  qed
qed

lemma backoff_no_wrap:
  fixes b :: u64
  assumes "0 < b" and "unat b ^ n < 2 ^ 64" and "k \<le> n"
  shows "unat (b ^ k) = unat b ^ k"
proof -
  have "1 \<le> unat b" using assms(1) by (simp add: word_gt_0 Suc_leI unat_gt_0)
  then have "unat b ^ k \<le> unat b ^ n" using assms(3) by (rule power_increasing [rotated])
  with assms(2) show ?thesis by (intro unat_power_small) simp
qed

definition sample_info :: peer_info where
  "sample_info = \<lparr>pi_pod_name = ''peer-a'', pi_address = V4 167772161, pi_port = 9000\<rparr>"

section \<open>Properties\<close>

text \<open>
  C24. Invariant of the shared network state: whatever operations the event loop, the ping loop and the
  cleanup task perform on it, in any order and at any times, each entry is filed under its own peer, a
  peer with counted failures has a recorded last failure (so the fallback of \<^verbatim>\<open>should_skip_ping\<close> for a
  missing one is never taken), and a connected peer has no counted failures.
\<close>

theorem network_state_invariant: "net_ok (fold net_step es (network_state_new i cfg))"
  by (rule network.run_inv) (simp_all add: list.pred_True net_ok_new)

text \<open>
  Giving up on a peer: after a series of failures without a success in between (fewer than
  \<open>2 ^ 32\<close>, counting those before), the counter has counted all of them without wrapping, the last
  failure is recorded, and the peer is failed exactly when the count has reached \<^verbatim>\<open>max_failures\<close>,
  otherwise disconnected.
\<close>

lemma failed_after_max_failures:
  assumes "ts \<noteq> []" and "unat (pc_consecutive_failures p) + length ts < 2 ^ 32"
    and "p' = fold (\<lambda>t. peer_mark_failure t cfg) ts p"
  shows "unat (pc_consecutive_failures p') = unat (pc_consecutive_failures p) + length ts \<and>
    pc_last_failure p' = Some (fst (last ts)) \<and>
    pc_status p' = (if unat (cf_max_failures cfg) \<le> unat (pc_consecutive_failures p) + length ts
                    then Failed else Disconnected)"
  using mark_failures [of ts p p' cfg] assms by simp

text \<open>
  C25. Exponential backoff of pings: a disconnected peer with more failures than the threshold is
  skipped exactly while less than \<^verbatim>\<open>backoff_base\<close> to the power of its failures (at most
  \<^verbatim>\<open>max_backoff_power\<close>) seconds have passed since its last failure; so at the latest
  \<^verbatim>\<open>backoff_base ^ max_backoff_power\<close> seconds after it the peer is pinged again. No wrap-around
  occurs as long as the largest power fits 64 bits.
\<close>

theorem ping_backoff_window:
  assumes "pc_status p = Disconnected" and "cf_failure_threshold cfg < pc_consecutive_failures p"
    and "pc_last_failure p = Some t" and "t \<le> now" and "0 < cf_backoff_base cfg"
    and "unat (cf_backoff_base cfg) ^ unat (cf_max_backoff_power cfg) < 2 ^ 64"
  shows "(peer_should_skip_ping now cfg p \<longleftrightarrow>
      now < t + int (from_secs (unat (cf_backoff_base cfg) ^
              min (unat (pc_consecutive_failures p)) (unat (cf_max_backoff_power cfg))))) \<and>
    (t + int (from_secs (unat (cf_backoff_base cfg) ^ unat (cf_max_backoff_power cfg))) \<le> now \<longrightarrow>
      \<not> peer_should_skip_ping now cfg p)"
proof -
  let ?b = "unat (cf_backoff_base cfg)" and ?n = "unat (cf_max_backoff_power cfg)"
  let ?k = "min (unat (pc_consecutive_failures p)) ?n"
  have k: "unat (min (pc_consecutive_failures p) (cf_max_backoff_power cfg)) = ?k"
    by (simp add: min_def word_le_nat_alt)
  have pow: "unat (cf_backoff_base cfg ^ ?k) = ?b ^ ?k"
    by (rule backoff_no_wrap [OF assms(5,6)]) simp
  have skip: "peer_should_skip_ping now cfg p \<longleftrightarrow> now < t + int (from_secs (?b ^ ?k))"
    using assms(1-4) by (simp add: peer_should_skip_ping_def Let_def k pow elapsed_less_iff)
  have "1 \<le> ?b" using assms(5) by (simp add: word_gt_0 Suc_leI unat_gt_0)
  then have "?b ^ ?k \<le> ?b ^ ?n" by (intro power_increasing) auto
  then have "int (from_secs (?b ^ ?k)) \<le> int (from_secs (?b ^ ?n))" by simp
  with skip show ?thesis by linarith
qed

definition sample_down :: "string peer_connection_state" where
  "sample_down =
     (peer_connection_state_new 0 ''a'' sample_info)
       \<lparr>pc_consecutive_failures := 5, pc_last_failure := Some 0\<rparr>"

theorem ping_backoff_window_witness:
  "peer_should_skip_ping 31999999999 network_config_default sample_down \<and>
   \<not> peer_should_skip_ping 32000000000 network_config_default sample_down"
proof -
  have "pc_status sample_down = Disconnected" "pc_last_failure sample_down = Some 0"
    "pc_consecutive_failures sample_down = 5"
    by (simp_all add: sample_down_def peer_connection_state_new_def)
  then show ?thesis
    using ping_backoff_window [of sample_down network_config_default 0 31999999999]
      ping_backoff_window [of sample_down network_config_default 0 32000000000]
    by (simp add: network_config_default_def from_secs_def)
qed

text \<open>
  C26. Cleanup removes exactly the peers that are failed and were last seen longer ago than the maximal
  age; every other entry is unchanged, whatever the order of the traversal.
\<close>

theorem cleanup_removes_exactly_stale:
  assumes "net_ok ns" and "iteration_order keys"
  shows "ns_peers (cleanup_stale_peers clock keys max_age ns) i =
    (case ns_peers ns i of
       Some p \<Rightarrow> if pc_status p = Failed \<and> pc_last_seen p + int max_age < clock i then None else Some p
     | None \<Rightarrow> None)"
proof -
  have "finite (dom (ns_peers ns))" using assms(1) by (simp add: net_ok_def)
  then show ?thesis
    using iteration_orderD(2) [OF assms(2), of "dom (ns_peers ns)"]
    by (auto simp: cleanup_stale_peers_def fold_remove_peer Let_def elapsed_gr_iff split: option.split)
qed

theorem cleanup_removes_exactly_stale_witness:
  "ns_peers (cleanup_stale_peers (\<lambda>_. 100) sorted_list_of_set 10
      (add_peer 0 ''a'' sample_info (network_state_new ''l'' network_config_default))) ''a''
   = Some (peer_connection_state_new 0 ''a'' sample_info)"
  using cleanup_removes_exactly_stale [OF net_ok_add_peer [OF net_ok_new, of 0 "''a''" sample_info
        "''l''" network_config_default] iteration_order_sorted, of "\<lambda>_. 100" 10 "''a''"]
  by (simp add: add_peer_def network_state_new_def peer_connection_state_new_def)

text \<open>
  A failed peer is not revived by a success but by the failure after it: a success resets the
  counter of a failed peer and leaves it failed, hence skipped, although the peer has just answered;
  the next failure then makes it disconnected with one counted failure, hence no longer skipped.
\<close>

lemma success_does_not_revive_failed:
  assumes "pc_status p = Failed" and "1 < cf_max_failures cfg" and "1 \<le> cf_failure_threshold cfg"
  shows "peer_should_skip_ping now cfg (peer_mark_success t p) \<and>
    \<not> peer_should_skip_ping now cfg (peer_mark_failure t' cfg (peer_mark_success t p))"
proof -
  have "\<not> cf_max_failures cfg \<le> 1" and "\<not> cf_failure_threshold cfg < 1"
    using assms(2,3) by (simp_all only: not_le not_less)
  with assms(1) show ?thesis
    by (simp add: peer_should_skip_ping_def peer_mark_success_def peer_mark_failure_def Let_def)
qed

end
