(* ===== verification/Observability.thy ===== *)
theory Observability
  imports Rust_Prelude
begin

text \<open>
  Structured events and Prometheus metrics:
  \<^verbatim>\<open>crates/neolaas-server/src/observability/events.rs\<close> and \<^verbatim>\<open>observability/metrics.rs\<close>.

  An event function writes one log record; the model keeps the event as a value of \<open>event\<close> and
  \<open>event_record\<close> gives the record that is written. The recorder of the \<^verbatim>\<open>metrics\<close> crate is a store of
  counters, gauges and histograms indexed by a name and its labels. Gauges hold 64-bit floats in the
  crate; every value the code stores is a whole number, so they are integers here. The pair of log and
  store, \<open>obs\<close>, is the process-wide state the handlers write to.
\<close>

section \<open>Events\<close>

datatype event =
    Machine_State_Changed string string string string string
  | Topology_Change nat nat string
  | Actor_Spawned string string string
  | Actor_Stopped string string string string
  | Actor_Panicked string string string string bool
  | Booking_Started string string string
  | Booking_Ended string string string nat
  | Peer_Joined string string string
  | Peer_Departed string string
  | Ownership_Transferred string string string

datatype log_level = Info | Warn | Error

record log_record =
  lr_level :: log_level
  lr_fields :: "(string \<times> string) list"
  lr_message :: string

definition show_bool :: "bool \<Rightarrow> string" where
  "show_bool b = (if b then ''true'' else ''false'')"

fun event_record :: "event \<Rightarrow> log_record" where
  "event_record (Machine_State_Changed machine_id previous_state new_state admin_state cluster) =
     \<lparr>lr_level = Info,
      lr_fields = [(''event_type'', ''machine_state_changed''), (''machine_id'', machine_id),
                   (''previous_state'', previous_state), (''new_state'', new_state),
                   (''admin_state'', admin_state), (''cluster'', cluster)],
      lr_message = ''Machine state changed''\<rparr>"
| "event_record (Topology_Change previous_peer_count new_peer_count local_peer_id) =
     \<lparr>lr_level = Info,
      lr_fields = [(''event_type'', ''topology_changed''),
                   (''previous_peer_count'', show_nat previous_peer_count),
                   (''new_peer_count'', show_nat new_peer_count),
                   (''local_peer_id'', local_peer_id)],
      lr_message = ''Topology changed''\<rparr>"
| "event_record (Actor_Spawned actor_type actor_id node_id) =
     \<lparr>lr_level = Info,
      lr_fields = [(''event_type'', ''actor_spawned''), (''actor_type'', actor_type),
                   (''actor_id'', actor_id), (''node_id'', node_id)],
      lr_message = ''Actor spawned''\<rparr>"
| "event_record (Actor_Stopped actor_type actor_id reason node_id) =
     \<lparr>lr_level = Info,
      lr_fields = [(''event_type'', ''actor_stopped''), (''actor_type'', actor_type),
                   (''actor_id'', actor_id), (''reason'', reason), (''node_id'', node_id)],
      lr_message = ''Actor stopped''\<rparr>"
| "event_record (Actor_Panicked actor_type actor_id err node_id will_restart) =
     \<lparr>lr_level = Error,
      lr_fields = [(''event_type'', ''actor_panicked''), (''actor_type'', actor_type),
                   (''actor_id'', actor_id), (''error'', err), (''node_id'', node_id),
                   (''will_restart'', show_bool will_restart)],
      lr_message = ''Actor panicked''\<rparr>"
| "event_record (Booking_Started machine_id booking_id cluster) =
     \<lparr>lr_level = Info,
      lr_fields = [(''event_type'', ''booking_started''), (''machine_id'', machine_id),
                   (''booking_id'', booking_id), (''cluster'', cluster)],
      lr_message = ''Booking started''\<rparr>"
| "event_record (Booking_Ended machine_id booking_id cluster duration_secs) =
     \<lparr>lr_level = Info,
      lr_fields = [(''event_type'', ''booking_ended''), (''machine_id'', machine_id),
                   (''booking_id'', booking_id), (''cluster'', cluster),
                   (''duration_secs'', show_nat duration_secs)],
      lr_message = ''Booking ended''\<rparr>"
| "event_record (Peer_Joined peer_id address cluster_id) =
     \<lparr>lr_level = Info,
      lr_fields = [(''event_type'', ''peer_joined''), (''peer_id'', peer_id),
                   (''address'', address), (''cluster_id'', cluster_id)],
      lr_message = ''Peer joined''\<rparr>"
| "event_record (Peer_Departed peer_id cluster_id) =
     \<lparr>lr_level = Warn,
      lr_fields = [(''event_type'', ''peer_departed''), (''peer_id'', peer_id),
                   (''cluster_id'', cluster_id)],
      lr_message = ''Peer departed''\<rparr>"
| "event_record (Ownership_Transferred machine_id previous_owner new_owner) =
     \<lparr>lr_level = Info,
      lr_fields = [(''event_type'', ''ownership_transferred''), (''machine_id'', machine_id),
                   (''previous_owner'', previous_owner), (''new_owner'', new_owner)],
      lr_message = ''Ownership transferred''\<rparr>"

section \<open>Metrics\<close>

datatype metric_kind = Counter | Gauge | Histogram

type_synonym metric_key = "string \<times> (string \<times> string) list"

record metrics =
  mt_counters :: "metric_key \<Rightarrow> u64"
  mt_gauges :: "metric_key \<Rightarrow> int"
  mt_histograms :: "metric_key \<Rightarrow> duration list"

definition metrics_empty :: metrics where
  "metrics_empty = \<lparr>mt_counters = (\<lambda>_. 0), mt_gauges = (\<lambda>_. 0), mt_histograms = (\<lambda>_. [])\<rparr>"

definition counter_increment :: "metric_key \<Rightarrow> metrics \<Rightarrow> metrics" where
  "counter_increment k m = m\<lparr>mt_counters := (mt_counters m)(k := mt_counters m k + 1)\<rparr>"

definition gauge_add :: "metric_key \<Rightarrow> int \<Rightarrow> metrics \<Rightarrow> metrics" where
  "gauge_add k d m = m\<lparr>mt_gauges := (mt_gauges m)(k := mt_gauges m k + d)\<rparr>"

definition gauge_set :: "metric_key \<Rightarrow> int \<Rightarrow> metrics \<Rightarrow> metrics" where
  "gauge_set k d m = m\<lparr>mt_gauges := (mt_gauges m)(k := d)\<rparr>"

definition histogram_record :: "metric_key \<Rightarrow> duration \<Rightarrow> metrics \<Rightarrow> metrics" where
  "histogram_record k d m = m\<lparr>mt_histograms := (mt_histograms m)(k := mt_histograms m k @ [d])\<rparr>"

definition register_metric_descriptions :: "(metric_kind \<times> string \<times> string) list" where
  "register_metric_descriptions =
     [(Gauge, ''neolaas_actor_count'', ''Number of active actors by type''),
      (Counter, ''neolaas_actor_spawned_total'', ''Total number of actors spawned''),
      (Counter, ''neolaas_actor_stopped_total'', ''Total number of actors stopped''),
      (Histogram, ''neolaas_message_processing_duration_seconds'',
        ''Duration of message processing in seconds''),
      (Counter, ''neolaas_topology_changes_total'', ''Total number of topology changes''),
      (Gauge, ''neolaas_peer_count'', ''Number of connected peers''),
      (Histogram, ''neolaas_peer_ping_duration_seconds'',
        ''Duration of peer ping round-trips in seconds''),
      (Gauge, ''neolaas_machines_by_state'', ''Number of machines by operational state'')]"

definition actor_count_key :: "string \<Rightarrow> metric_key" where
  "actor_count_key actor_type = (''neolaas_actor_count'', [(''actor_type'', actor_type)])"

definition record_actor_spawned :: "string \<Rightarrow> metrics \<Rightarrow> metrics" where
  "record_actor_spawned actor_type m =
     gauge_add (actor_count_key actor_type) 1
       (counter_increment (''neolaas_actor_spawned_total'', [(''actor_type'', actor_type)]) m)"

definition record_actor_stopped :: "string \<Rightarrow> string \<Rightarrow> metrics \<Rightarrow> metrics" where
  "record_actor_stopped actor_type reason m =
     gauge_add (actor_count_key actor_type) (- 1)
       (counter_increment
         (''neolaas_actor_stopped_total'', [(''actor_type'', actor_type), (''reason'', reason)]) m)"

definition record_message_duration :: "string \<Rightarrow> string \<Rightarrow> duration \<Rightarrow> metrics \<Rightarrow> metrics" where
  "record_message_duration actor_type message_type d =
     histogram_record (''neolaas_message_processing_duration_seconds'',
       [(''actor_type'', actor_type), (''message_type'', message_type)]) d"

definition record_topology_change :: "metrics \<Rightarrow> metrics" where
  "record_topology_change = counter_increment (''neolaas_topology_changes_total'', [])"

definition set_peer_count :: "nat \<Rightarrow> metrics \<Rightarrow> metrics" where
  "set_peer_count count = gauge_set (''neolaas_peer_count'', []) (int count)"

definition record_ping_duration :: "string \<Rightarrow> duration \<Rightarrow> metrics \<Rightarrow> metrics" where
  "record_ping_duration peer_id d =
     histogram_record (''neolaas_peer_ping_duration_seconds'', [(''peer_id'', peer_id)]) d"

definition set_machines_by_state :: "string \<Rightarrow> nat \<Rightarrow> metrics \<Rightarrow> metrics" where
  "set_machines_by_state state count =
     gauge_set (''neolaas_machines_by_state'', [(''state'', state)]) (int count)"

section \<open>The process-wide log and recorder\<close>

record obs =
  obs_events :: "event list"
  obs_metrics :: metrics

definition emit :: "event \<Rightarrow> obs \<Rightarrow> obs" where
  "emit e o' = o'\<lparr>obs_events := obs_events o' @ [e]\<rparr>"

definition measure_obs :: "(metrics \<Rightarrow> metrics) \<Rightarrow> obs \<Rightarrow> obs" where
  "measure_obs f o' = o'\<lparr>obs_metrics := f (obs_metrics o')\<rparr>"

definition obs_empty :: obs where
  "obs_empty = \<lparr>obs_events = [], obs_metrics = metrics_empty\<rparr>"

definition actor_gauge :: "string \<Rightarrow> obs \<Rightarrow> int" where
  "actor_gauge actor_type o' = mt_gauges (obs_metrics o') (actor_count_key actor_type)"

lemma emit_simps [simp]:
  "obs_events (emit e o') = obs_events o' @ [e]"
  "obs_metrics (emit e o') = obs_metrics o'"
  "actor_gauge a (emit e o') = actor_gauge a o'"
  by (simp_all add: emit_def actor_gauge_def)

lemma measure_obs_simps [simp]:
  "obs_events (measure_obs f o') = obs_events o'"
  "obs_metrics (measure_obs f o') = f (obs_metrics o')"
  by (simp_all add: measure_obs_def)

lemma actor_gauge_spawned [simp]:
  "actor_gauge a (measure_obs (record_actor_spawned b) o') =
     actor_gauge a o' + (if a = b then 1 else 0)"
  by (simp add: actor_gauge_def record_actor_spawned_def gauge_add_def counter_increment_def
      actor_count_key_def)

lemma actor_gauge_stopped [simp]:
  "actor_gauge a (measure_obs (record_actor_stopped b r) o') =
     actor_gauge a o' - (if a = b then 1 else 0)"
  by (simp add: actor_gauge_def record_actor_stopped_def gauge_add_def counter_increment_def
      actor_count_key_def)

lemma actor_gauge_empty [simp]: "actor_gauge a obs_empty = 0"
  by (simp add: actor_gauge_def obs_empty_def metrics_empty_def)

end
