(* ===== verification/Machine_Actor.thy ===== *)
theory Machine_Actor
  imports Observability
begin

text \<open>
  The actor of one physical machine: \<^verbatim>\<open>crates/neolaas-server/src/network/machines/actor.rs\<close> and the
  message types of \<^verbatim>\<open>machines/messages.rs\<close>.

  A handler takes the readings of the wall clock it makes (\<open>t0\<close>, \<open>t1\<close>, \<open>t2\<close>, in the order in which
  the code may make them), the message and the actor, and gives the actor, the events emitted and the
  reply. \<^verbatim>\<open>serde_json::from_str::<MachineSpec>\<close> is the parameter \<open>from_str\<close>: the parsed spec, or the
  error's text; \<open>dbg\<close> is the \<^verbatim>\<open>{:?}\<close> rendering of an \<^verbatim>\<open>Option<String>\<close>.
\<close>

section \<open>Messages and data\<close>

datatype machine_state =
    Initializing | Idle | Booked | Provisioning | Deprovisioning | Machine_Error

fun show_machine_state :: "machine_state \<Rightarrow> string" where
  "show_machine_state Initializing = ''initializing''"
| "show_machine_state Idle = ''idle''"
| "show_machine_state Booked = ''booked''"
| "show_machine_state Provisioning = ''provisioning''"
| "show_machine_state Deprovisioning = ''deprovisioning''"
| "show_machine_state Machine_Error = ''error''"

record machine_spec =
  ms_admin_state :: string
  ms_cluster :: string
  ms_reserved_for :: "string option"
  ms_labels :: "string \<rightharpoonup> string"

record machine_status =
  st_machine_id :: string
  st_state :: machine_state
  st_admin_state :: string
  st_cluster :: string
  st_current_booking :: "string option"
  st_last_activity :: "timestamp option"

record update_ack =
  ua_success :: bool
  ua_error :: "string option"

record provision_config =
  pc_image :: string
  pc_vlan_id :: "u16 option"
  pc_metadata :: "string \<rightharpoonup> string"

record provision_result =
  pr_success :: bool
  pr_error :: "string option"

record deprovision_result =
  dr_success :: bool
  dr_error :: "string option"

record ownership_check_result =
  oc_should_shutdown :: bool

datatype actor_msg =
    Get_Machine_Status
  | Update_Machine_Spec string
  | Provision_Machine string provision_config
  | Deprovision_Machine string
  | Check_Ownership bool

section \<open>The actor\<close>

record machine_actor =
  ma_machine_id :: string
  ma_spec :: machine_spec
  ma_state :: machine_state
  ma_previous_state :: machine_state
  ma_current_booking :: "string option"
  ma_last_activity :: timestamp
  ma_node_id :: string

type_synonym spec_parser = "string \<Rightarrow> string + machine_spec"

definition with_spec_and_node_id ::
  "timestamp \<Rightarrow> string \<Rightarrow> machine_spec \<Rightarrow> string \<Rightarrow> machine_actor" where
  "with_spec_and_node_id now machine_id spec node_id =
     \<lparr>ma_machine_id = machine_id, ma_spec = spec, ma_state = Initializing,
      ma_previous_state = Initializing, ma_current_booking = None,
      ma_last_activity = now, ma_node_id = node_id\<rparr>"

definition with_spec :: "timestamp \<Rightarrow> string \<Rightarrow> machine_spec \<Rightarrow> machine_actor" where
  "with_spec now machine_id spec = with_spec_and_node_id now machine_id spec ''unknown''"

definition with_node_id ::
  "spec_parser \<Rightarrow> timestamp \<Rightarrow> string \<Rightarrow> string \<Rightarrow> string \<Rightarrow> string + machine_actor" where
  "with_node_id from_str now machine_id spec_json node_id =
     and_then (from_str spec_json) (\<lambda>spec.
       Inr \<lparr>ma_machine_id = machine_id, ma_spec = spec, ma_state = Initializing,
            ma_previous_state = Initializing, ma_current_booking = None,
            ma_last_activity = now, ma_node_id = node_id\<rparr>)"

definition machine_actor_new ::
  "spec_parser \<Rightarrow> timestamp \<Rightarrow> string \<Rightarrow> string \<Rightarrow> string + machine_actor" where
  "machine_actor_new from_str now machine_id spec_json =
     with_node_id from_str now machine_id spec_json ''unknown''"

definition update_activity :: "timestamp \<Rightarrow> machine_actor \<Rightarrow> machine_actor" where
  "update_activity now a = a\<lparr>ma_last_activity := now\<rparr>"

definition transition_to ::
  "timestamp \<Rightarrow> machine_state \<Rightarrow> machine_actor \<Rightarrow> machine_actor \<times> event list" where
  "transition_to now new_state a =
     (if ma_state a \<noteq> new_state then
        (let a = a\<lparr>ma_previous_state := ma_state a, ma_state := new_state\<rparr>;
             a = update_activity now a
         in (a, [Machine_State_Changed (ma_machine_id a)
                   (show_machine_state (ma_previous_state a)) (show_machine_state (ma_state a))
                   (ms_admin_state (ma_spec a)) (ms_cluster (ma_spec a))]))
      else (a, []))"

definition initialize :: "timestamp \<Rightarrow> machine_actor \<Rightarrow> machine_actor \<times> event list" where
  "initialize now a = (if ma_state a = Initializing then transition_to now Idle a else (a, []))"

section \<open>Handlers\<close>

type_synonym clock3 = "timestamp \<times> timestamp \<times> timestamp"

definition handle_get_machine_status ::
  "timestamp \<Rightarrow> machine_actor \<Rightarrow> machine_actor \<times> event list \<times> machine_status" where
  "handle_get_machine_status t0 a =
     (let (a, ev) = initialize t0 a
      in (a, ev, \<lparr>st_machine_id = ma_machine_id a, st_state = ma_state a,
                  st_admin_state = ms_admin_state (ma_spec a), st_cluster = ms_cluster (ma_spec a),
                  st_current_booking = ma_current_booking a,
                  st_last_activity = Some (ma_last_activity a)\<rparr>))"

definition handle_update_machine_spec ::
  "spec_parser \<Rightarrow> string \<Rightarrow> machine_actor \<Rightarrow> machine_actor \<times> update_ack" where
  "handle_update_machine_spec from_str spec_json a =
     (case from_str spec_json of
        Inr new_spec \<Rightarrow> (a\<lparr>ma_spec := new_spec\<rparr>, \<lparr>ua_success = True, ua_error = None\<rparr>)
      | Inl e \<Rightarrow> (a, \<lparr>ua_success = False, ua_error = Some e\<rparr>))"

definition handle_provision_machine ::
  "clock3 \<Rightarrow> string \<Rightarrow> provision_config \<Rightarrow> machine_actor \<Rightarrow>
     machine_actor \<times> event list \<times> provision_result" where
  "handle_provision_machine t booking_id config a =
     (let (t0, t1, t2) = t;
          (a, ev0) = initialize t0 a
      in if ma_state a \<noteq> Idle then
           (a, ev0, \<lparr>pr_success = False, pr_error = Some
              (''Machine is not idle (current state: '' @ show_machine_state (ma_state a) @ '')'')\<rparr>)
         else if ms_admin_state (ma_spec a) \<noteq> ''available'' \<and> ms_admin_state (ma_spec a) \<noteq> ''reserved''
         then
           (a, ev0, \<lparr>pr_success = False, pr_error = Some
              (''Machine admin state '' @ [CHR 0x27] @ ms_admin_state (ma_spec a) @ [CHR 0x27] @
               '' does not allow booking'')\<rparr>)
         else
           (let a = a\<lparr>ma_current_booking := Some booking_id\<rparr>;
                (a, ev1) = transition_to t1 Provisioning a;
                ev2 = [Booking_Started (ma_machine_id a) booking_id (ms_cluster (ma_spec a))];
                (a, ev3) = transition_to t2 Booked a
            in (a, ev0 @ ev1 @ ev2 @ ev3, \<lparr>pr_success = True, pr_error = None\<rparr>)))"

definition handle_deprovision_machine ::
  "(string option \<Rightarrow> string) \<Rightarrow> clock3 \<Rightarrow> string \<Rightarrow> machine_actor \<Rightarrow>
     machine_actor \<times> event list \<times> deprovision_result" where
  "handle_deprovision_machine dbg t booking_id a =
     (let (t0, t1, t2) = t;
          (a, ev0) = initialize t0 a
      in if ma_current_booking a \<noteq> Some booking_id then
           (a, ev0, \<lparr>dr_success = False, dr_error = Some
              (''Booking ID mismatch: expected '' @ dbg (ma_current_booking a) @ '', got '' @ booking_id)\<rparr>)
         else if ma_state a \<noteq> Booked then
           (a, ev0, \<lparr>dr_success = False, dr_error = Some
              (''Machine is not booked (current state: '' @ show_machine_state (ma_state a) @ '')'')\<rparr>)
         else
           (let (a, ev1) = transition_to t1 Deprovisioning a;
                (a, ev2) = transition_to t2 Idle a;
                ev3 = [Booking_Ended (ma_machine_id a) booking_id (ms_cluster (ma_spec a)) 0];
                a = a\<lparr>ma_current_booking := None\<rparr>
            in (a, ev0 @ ev1 @ ev2 @ ev3, \<lparr>dr_success = True, dr_error = None\<rparr>)))"

definition handle_check_ownership :: "bool \<Rightarrow> machine_actor \<Rightarrow> ownership_check_result" where
  "handle_check_ownership is_still_local a =
     (if \<not> is_still_local then \<lparr>oc_should_shutdown = True\<rparr> else \<lparr>oc_should_shutdown = False\<rparr>)"

text \<open>
  One message delivered to the actor, with the readings of the clock; the state is the actor and the
  events emitted so far.
\<close>

fun actor_step ::
  "spec_parser \<Rightarrow> (string option \<Rightarrow> string) \<Rightarrow> actor_msg \<times> clock3 \<Rightarrow>
     machine_actor \<times> event list \<Rightarrow> machine_actor \<times> event list" where
  "actor_step from_str dbg (Get_Machine_Status, t) (a, log) =
     (case handle_get_machine_status (fst t) a of (a', ev, _) \<Rightarrow> (a', log @ ev))"
| "actor_step from_str dbg (Update_Machine_Spec spec_json, t) (a, log) =
     (case handle_update_machine_spec from_str spec_json a of (a', _) \<Rightarrow> (a', log))"
| "actor_step from_str dbg (Provision_Machine booking_id config, t) (a, log) =
     (case handle_provision_machine t booking_id config a of (a', ev, _) \<Rightarrow> (a', log @ ev))"
| "actor_step from_str dbg (Deprovision_Machine booking_id, t) (a, log) =
     (case handle_deprovision_machine dbg t booking_id a of (a', ev, _) \<Rightarrow> (a', log @ ev))"
| "actor_step from_str dbg (Check_Ownership is_still_local, t) (a, log) = (a, log)"

section \<open>Invariant\<close>

text \<open>
  Between two messages the actor is initializing, idle or booked, never in a transient state; it holds
  a booking exactly when it is booked; and the previous state is the one the last transition left.
\<close>

definition actor_ok :: "machine_actor \<Rightarrow> bool" where
  "actor_ok a \<longleftrightarrow>
     (case ma_state a of
        Initializing \<Rightarrow> ma_previous_state a = Initializing \<and> ma_current_booking a = None
      | Idle \<Rightarrow> ma_previous_state a \<in> {Initializing, Deprovisioning} \<and> ma_current_booking a = None
      | Booked \<Rightarrow> ma_previous_state a = Provisioning \<and> ma_current_booking a \<noteq> None
      | _ \<Rightarrow> False)"

text \<open>
  The log of an actor replayed: \<open>replay_state\<close> follows the chain of state changes and fails when an
  event does not start in the state the previous one ended in; \<open>replay_booking\<close> follows the bookings
  and fails when one starts while another is active or when a booking ends that is not the active one.
\<close>

fun replay_state :: "event list \<Rightarrow> string \<Rightarrow> string option" where
  "replay_state [] s = Some s"
| "replay_state (Machine_State_Changed m p n ad cl # es) s =
     (if p = s then replay_state es n else None)"
| "replay_state (_ # es) s = replay_state es s"

fun replay_booking :: "event list \<Rightarrow> string option \<Rightarrow> string option option" where
  "replay_booking [] b = Some b"
| "replay_booking (Booking_Started m i cl # es) b =
     (if b = None then replay_booking es (Some i) else None)"
| "replay_booking (Booking_Ended m i cl d # es) b =
     (if b = Some i then replay_booking es None else None)"
| "replay_booking (_ # es) b = replay_booking es b"

lemma replay_state_append:
  "replay_state (xs @ ys) s =
     (case replay_state xs s of None \<Rightarrow> None | Some s' \<Rightarrow> replay_state ys s')"
  by (induction xs s rule: replay_state.induct) auto

lemma replay_booking_append:
  "replay_booking (xs @ ys) b =
     (case replay_booking xs b of None \<Rightarrow> None | Some b' \<Rightarrow> replay_booking ys b')"
  by (induction xs b rule: replay_booking.induct) auto

definition actor_log_ok :: "machine_actor \<times> event list \<Rightarrow> bool" where
  "actor_log_ok s \<longleftrightarrow>
     actor_ok (fst s) \<and>
     replay_state (snd s) ''initializing'' = Some (show_machine_state (ma_state (fst s))) \<and>
     replay_booking (snd s) None = Some (ma_current_booking (fst s))"

lemmas actor_handler_defs =
  handle_get_machine_status_def handle_update_machine_spec_def handle_provision_machine_def
  handle_deprovision_machine_def initialize_def transition_to_def update_activity_def Let_def

lemma actor_ok_new: "actor_ok (with_spec_and_node_id now i s n)"
  by (simp add: actor_ok_def with_spec_and_node_id_def)

lemma actor_ok_cases:
  assumes "actor_ok a"
  obtains "ma_state a = Initializing" "ma_previous_state a = Initializing" "ma_current_booking a = None"
  | "ma_state a = Idle" "ma_current_booking a = None"
  | b where "ma_state a = Booked" "ma_previous_state a = Provisioning" "ma_current_booking a = Some b"
  using assms by (auto simp: actor_ok_def split: machine_state.splits)

lemma actor_step_log_ok: "actor_log_ok s \<Longrightarrow> actor_log_ok (actor_step from_str dbg e s)"
proof -
  assume ok: "actor_log_ok s"
  obtain a log where s: "s = (a, log)" by (cases s)
  obtain m t where e: "e = (m, t)" by (cases e)
  obtain t0 t1 t2 where t: "t = (t0, t1, t2)" by (cases t)
  have "actor_ok a" using ok s by (simp add: actor_log_ok_def)
  then show ?thesis
    using ok unfolding s e t
    by (cases rule: actor_ok_cases; cases m)
      (auto simp: actor_log_ok_def actor_ok_def actor_handler_defs replay_state_append
        replay_booking_append split: sum.splits)
qed

section \<open>The booking register\<close>

text \<open>
  What the actor promises about bookings, abstractly: a register that holds the admin state and the
  active booking. A booking is accepted when none is active and the admin state allows it, and ended
  only by its own identifier.
\<close>

definition bookable :: "string \<Rightarrow> bool" where
  "bookable admin_state \<longleftrightarrow> admin_state = ''available'' \<or> admin_state = ''reserved''"

fun register_step ::
  "spec_parser \<Rightarrow> actor_msg \<times> clock3 \<Rightarrow> string \<times> string option \<Rightarrow> string \<times> string option" where
  "register_step from_str (Update_Machine_Spec j, t) (ad, b) =
     (case from_str j of Inr s \<Rightarrow> (ms_admin_state s, b) | Inl _ \<Rightarrow> (ad, b))"
| "register_step from_str (Provision_Machine i c, t) (ad, b) =
     (if b = None \<and> bookable ad then (ad, Some i) else (ad, b))"
| "register_step from_str (Deprovision_Machine i, t) (ad, b) =
     (if b = Some i then (ad, None) else (ad, b))"
| "register_step from_str (m, t) (ad, b) = (ad, b)"

definition register_of :: "machine_actor \<times> event list \<Rightarrow> string \<times> string option" where
  "register_of s = (ms_admin_state (ma_spec (fst s)), ma_current_booking (fst s))"

lemma actor_step_register:
  assumes "actor_log_ok s"
  shows "register_of (actor_step from_str dbg e s) = register_step from_str e (register_of s)"
proof -
  obtain a log where s: "s = (a, log)" by (cases s)
  obtain m t where e: "e = (m, t)" by (cases e)
  obtain t0 t1 t2 where t: "t = (t0, t1, t2)" by (cases t)
  have "actor_ok a" using assms s by (simp add: actor_log_ok_def)
  then show ?thesis
    unfolding s e t
    by (cases rule: actor_ok_cases; cases m)
      (auto simp: register_of_def bookable_def actor_handler_defs split: sum.splits)
qed

interpretation actor: simulation "actor_step from_str dbg" "\<lambda>_. True" actor_log_ok
    "register_step from_str" register_of
  for from_str dbg
  by unfold_locales (auto intro: actor_step_log_ok actor_step_register)

lemma actor_log_ok_new: "actor_log_ok (with_spec_and_node_id now i s n, [])"
  by (simp add: actor_log_ok_def actor_ok_def with_spec_and_node_id_def)

definition sample_spec :: machine_spec where
  "sample_spec =
     \<lparr>ms_admin_state = ''available'', ms_cluster = ''default'', ms_reserved_for = None,
      ms_labels = Map.empty\<rparr>"

definition sample_config :: provision_config where
  "sample_config = \<lparr>pc_image = ''debian'', pc_vlan_id = None, pc_metadata = Map.empty\<rparr>"

section \<open>Properties\<close>

text \<open>
  C6. The machine actor implements the booking register: after any sequence of messages, from a newly
  created actor, admin state and active booking are those of the abstract register run on the same
  messages. In particular a second booking is never accepted while one is active, and a booking is
  ended only by its own identifier.
\<close>

theorem actor_refines_booking_register:
  "register_of (fold (actor_step from_str dbg) ms (with_spec_and_node_id now i s n, [])) =
     fold (register_step from_str) ms (ms_admin_state s, None)"
  using actor.run_sim [OF _ actor_log_ok_new, of ms from_str dbg now i s n]
  by (simp add: register_of_def with_spec_and_node_id_def list.pred_True)

text \<open>
  C16. Message-level invariant of the machine actor: after any sequence of messages to a new actor, it
  is initializing, idle or booked (never provisioning, deprovisioning or in error), it holds a booking
  exactly when it is booked, the emitted state changes form one unbroken chain from
  \<^verbatim>\<open>initializing\<close> to the current state, and the emitted booking events alternate and match, ending
  in the current booking.
\<close>

theorem actor_run_invariant:
  "actor_log_ok (fold (actor_step from_str dbg) ms (with_spec_and_node_id now i s n, []))"
  by (rule actor.run_inv) (simp_all add: list.pred_True actor_log_ok_new)

text \<open>
  C17. Booking and release, on every branch: for an actor between messages, a provision request succeeds
  exactly when no booking is active and the admin state is \<^verbatim>\<open>available\<close> or \<^verbatim>\<open>reserved\<close>, and then the actor
  is booked under the requested identifier; a deprovision request succeeds exactly when the given
  identifier is the active booking, and then the actor is idle without a booking. The activity is the
  time of the last transition. Otherwise the booking is unchanged and an error is reported. Spec and
  identity are never touched.
\<close>

theorem booking_behaviour:
  assumes "actor_ok a" and "handle_provision_machine (t0, t1, t2) b c a = (a', ev, r)"
    and "handle_deprovision_machine dbg (t0, t1, t2) b a = (a'', ev', q)"
  shows "((pr_success r \<longleftrightarrow> ma_current_booking a = None \<and> bookable (ms_admin_state (ma_spec a))) \<and>
    (if pr_success r
     then ma_state a' = Booked \<and> ma_current_booking a' = Some b \<and> ma_last_activity a' = t2 \<and> pr_error r = None
     else ma_current_booking a' = ma_current_booking a \<and> pr_error r \<noteq> None) \<and>
    ma_spec a' = ma_spec a \<and> ma_machine_id a' = ma_machine_id a \<and> ma_node_id a' = ma_node_id a) \<and>
   ((dr_success q \<longleftrightarrow> ma_current_booking a = Some b) \<and>
    (if dr_success q
     then ma_state a'' = Idle \<and> ma_current_booking a'' = None \<and> ma_last_activity a'' = t2 \<and> dr_error q = None
     else ma_current_booking a'' = ma_current_booking a \<and> dr_error q \<noteq> None) \<and>
    ma_spec a'' = ma_spec a \<and> ma_machine_id a'' = ma_machine_id a \<and> ma_node_id a'' = ma_node_id a)"
proof
  show "(pr_success r \<longleftrightarrow> ma_current_booking a = None \<and> bookable (ms_admin_state (ma_spec a))) \<and>
    (if pr_success r
     then ma_state a' = Booked \<and> ma_current_booking a' = Some b \<and> ma_last_activity a' = t2 \<and> pr_error r = None
     else ma_current_booking a' = ma_current_booking a \<and> pr_error r \<noteq> None) \<and>
    ma_spec a' = ma_spec a \<and> ma_machine_id a' = ma_machine_id a \<and> ma_node_id a' = ma_node_id a"
    using assms(1,2)
    by (cases rule: actor_ok_cases) (auto simp: bookable_def actor_handler_defs split: if_splits)
  show "(dr_success q \<longleftrightarrow> ma_current_booking a = Some b) \<and>
    (if dr_success q
     then ma_state a'' = Idle \<and> ma_current_booking a'' = None \<and> ma_last_activity a'' = t2 \<and> dr_error q = None
     else ma_current_booking a'' = ma_current_booking a \<and> dr_error q \<noteq> None) \<and>
    ma_spec a'' = ma_spec a \<and> ma_machine_id a'' = ma_machine_id a \<and> ma_node_id a'' = ma_node_id a"
    using assms(1,3)
    by (cases rule: actor_ok_cases) (auto simp: actor_handler_defs split: if_splits)
qed

theorem booking_behaviour_witness:
  "pr_success (snd (snd (handle_provision_machine (1, 2, 3) ''b1'' sample_config
      (with_spec_and_node_id 0 ''m1'' sample_spec ''n'')))) \<and>
   \<not> dr_success (snd (snd (handle_deprovision_machine (\<lambda>_. ''None'') (1, 2, 3) ''b1''
      (with_spec_and_node_id 0 ''m1'' sample_spec ''n''))))"
proof -
  let ?a = "with_spec_and_node_id 0 ''m1'' sample_spec ''n''"
  obtain a' ev r where h: "handle_provision_machine (1, 2, 3) ''b1'' sample_config ?a = (a', ev, r)"
    by (cases "handle_provision_machine (1, 2, 3) ''b1'' sample_config ?a") auto
  obtain a'' ev' q where d: "handle_deprovision_machine (\<lambda>_. ''None'') (1, 2, 3) ''b1'' ?a = (a'', ev', q)"
    by (cases "handle_deprovision_machine (\<lambda>_. ''None'') (1, 2, 3) ''b1'' ?a") auto
  have "pr_success r" "\<not> dr_success q"
    using booking_behaviour [OF actor_ok_new h d]
    by (simp_all add: bookable_def with_spec_and_node_id_def sample_spec_def)
  with h d show ?thesis by simp
qed

text \<open>
  Reservations are not enforced: on a machine that is reserved for some entity and has no active
  booking, a provision request succeeds for every booking identifier, whoever the reservation names.
\<close>

lemma reservation_not_enforced:
  assumes "actor_ok a" and "ma_current_booking a = None"
    and "ms_admin_state (ma_spec a) = ''reserved''" and "ms_reserved_for (ma_spec a) = Some entity"
  shows "pr_success (snd (snd (handle_provision_machine t booking_id c a)))"
  using assms
  by (cases rule: actor_ok_cases; cases t) (auto simp: actor_handler_defs)

end
