(* ===== verification/Rendezvous.thy ===== *)
theory Rendezvous
  imports Rust_Prelude
begin

text \<open>
  Rendezvous (highest random weight) hashing:
  \<^verbatim>\<open>crates/neolaas-server/src/network/sharding/rendezvous.rs\<close>.

  \<^verbatim>\<open>PeerId\<close> comes from libp2p: it is the type variable \<open>'p\<close>, and its base58 text form
  \<open>nm_to_base58\<close> is a parameter. Rust leaves the algorithm of \<^verbatim>\<open>DefaultHasher\<close> unspecified, so
  \<open>nm_hash\<close>, from the bytes written to a fresh hasher to the value of \<^verbatim>\<open>finish\<close>, is a parameter as
  well: what is proved holds for every hash function.

  The locale \<open>placement\<close> is the contract the rest of the server relies on: who owns a key depends on
  the set of nodes only through the contest between them, so an owner that is still present stays the
  owner when other nodes leave. The hasher provides it, and agreement between nodes, minimal
  disruption and exclusive ownership follow from it.
\<close>

section \<open>Model\<close>

record 'p naming =
  nm_to_base58 :: "'p \<Rightarrow> string"
  nm_hash :: "byte list \<Rightarrow> u64"

record 'p rendezvous_hasher =
  rh_nodes :: "'p list"

definition rendezvous_new :: "'p naming \<Rightarrow> 'p list \<Rightarrow> 'p rendezvous_hasher" where
  "rendezvous_new nm nodes = \<lparr>rh_nodes = sort_key (nm_to_base58 nm) nodes\<rparr>"

text \<open>\<^verbatim>\<open>str::hash\<close> writes the bytes of the string and the terminator \<open>0xff\<close>.\<close>

definition str_hash_bytes :: "string \<Rightarrow> byte list" where
  "str_hash_bytes s = map of_char s @ [255]"

definition score :: "'p naming \<Rightarrow> string \<Rightarrow> 'p \<Rightarrow> u64" where
  "score nm key node = nm_hash nm (str_hash_bytes key @ str_hash_bytes (nm_to_base58 nm node))"

definition rendezvous_lookup :: "'p naming \<Rightarrow> 'p rendezvous_hasher \<Rightarrow> string \<Rightarrow> 'p option" where
  "rendezvous_lookup nm h key =
     (if rh_nodes h = [] then None else max_by_key (score nm key) (rh_nodes h))"

definition rendezvous_is_local ::
  "'p naming \<Rightarrow> 'p rendezvous_hasher \<Rightarrow> string \<Rightarrow> 'p \<Rightarrow> bool" where
  "rendezvous_is_local nm h key local_peer \<longleftrightarrow> rendezvous_lookup nm h key = Some local_peer"

definition rebuild :: "'p naming \<Rightarrow> 'p list \<Rightarrow> 'p rendezvous_hasher \<Rightarrow> 'p rendezvous_hasher" where
  "rebuild nm nodes h = h\<lparr>rh_nodes := sort_key (nm_to_base58 nm) nodes\<rparr>"

definition node_count :: "'p rendezvous_hasher \<Rightarrow> nat" where
  "node_count h = length (rh_nodes h)"

definition hasher_nodes :: "'p rendezvous_hasher \<Rightarrow> 'p list" where
  "hasher_nodes h = rh_nodes h"

text \<open>The owner of a key in a topology: a hasher built for the node list, then asked.\<close>

definition hrw_owner :: "'p naming \<Rightarrow> 'p list \<Rightarrow> string \<Rightarrow> 'p option" where
  "hrw_owner nm nodes key = rendezvous_lookup nm (rendezvous_new nm nodes) key"

text \<open>
  The abstract specification: \<open>p\<close> beats every other node, by score first and by base58 name on equal
  scores.
\<close>

definition beats :: "'p naming \<Rightarrow> string \<Rightarrow> 'p \<Rightarrow> 'p \<Rightarrow> bool" where
  "beats nm key p q \<longleftrightarrow>
     score nm key q < score nm key p \<or>
     (score nm key q = score nm key p \<and> nm_to_base58 nm q < nm_to_base58 nm p)"

definition distinct_names :: "'p naming \<Rightarrow> 'p set \<Rightarrow> bool" where
  "distinct_names nm S \<longleftrightarrow> inj_on (nm_to_base58 nm) S"

section \<open>The placement contract\<close>

locale placement =
  fixes owner :: "'c \<Rightarrow> 'p list \<Rightarrow> 'k \<Rightarrow> 'p option"
    and ok :: "'c \<Rightarrow> 'p set \<Rightarrow> bool"
  assumes owner_None: "owner c xs k = None \<longleftrightarrow> xs = []"
    and owner_in: "owner c xs k = Some p \<Longrightarrow> p \<in> set xs"
    and owner_contest: "ok c (set xs) \<Longrightarrow> owner c xs k = Some p \<Longrightarrow> set ys \<subseteq> set xs \<Longrightarrow>
      p \<in> set ys \<Longrightarrow> owner c ys k = Some p"
begin

lemma owner_exists: "xs \<noteq> [] \<Longrightarrow> \<exists>p\<in>set xs. owner c xs k = Some p"
  using owner_None [of c xs k] owner_in [of c xs k] by fastforce

lemma owner_set_determined:
  assumes "ok c (set xs)" and "set xs = set ys"
  shows "owner c xs k = owner c ys k"
proof (cases "owner c xs k")
  case None
  with assms(2) show ?thesis
    using owner_None [of c xs k] owner_None [of c ys k] by simp
next
  case (Some p)
  with assms owner_in [OF Some] owner_contest [OF assms(1) Some, of ys] show ?thesis by simp
qed

lemma owner_after_leave:
  assumes "ok c (set xs)" and "set ys = set xs - {d}" and "owner c xs k \<noteq> Some d"
  shows "owner c ys k = owner c xs k"
proof (cases "owner c xs k")
  case None
  then have "xs = []" by (simp add: owner_None)
  with assms(2) have "ys = []" by simp
  with \<open>xs = []\<close> show ?thesis by simp
next
  case (Some p)
  with assms owner_in [OF Some] owner_contest [OF assms(1) Some, of ys] show ?thesis by auto
qed

lemma owner_after_join:
  assumes "ok c (insert n (set xs))" and "set ys = insert n (set xs)"
  shows "owner c ys k = Some n \<or> owner c ys k = owner c xs k"
proof (cases "owner c ys k")
  case None
  then show ?thesis using assms(2) by (simp add: owner_None)
next
  case (Some p)
  show ?thesis
  proof (cases "p \<in> set xs")
    case True
    have "set xs \<subseteq> set ys" and "ok c (set ys)" using assms by auto
    with True owner_contest [OF _ Some, of xs] have "owner c xs k = Some p" by blast
    with Some show ?thesis by simp
  next
    case False
    with owner_in [OF Some] assms(2) Some show ?thesis by simp
  qed
qed

end

section \<open>The hasher satisfies the contract\<close>

lemma beats_asym: "beats nm key p q \<Longrightarrow> \<not> beats nm key q p"
  by (auto simp: beats_def)

lemma beats_total:
  "nm_to_base58 nm p \<noteq> nm_to_base58 nm q \<Longrightarrow> beats nm key p q \<or> beats nm key q p"
  by (auto simp: beats_def)

lemma rh_nodes_new [simp]: "rh_nodes (rendezvous_new nm xs) = sort_key (nm_to_base58 nm) xs"
  by (simp add: rendezvous_new_def)

lemma sort_key_Nil_iff [simp]: "sort_key f xs = [] \<longleftrightarrow> xs = []"
  by (metis length_0_conv length_sort)

lemma hrw_owner_None: "hrw_owner nm xs key = None \<longleftrightarrow> xs = []"
  by (simp add: hrw_owner_def rendezvous_lookup_def)

lemma hrw_owner_in: "hrw_owner nm xs key = Some p \<Longrightarrow> p \<in> set xs"
  using max_by_key_in [of "score nm key" "sort_key (nm_to_base58 nm) xs" p]
  by (simp add: hrw_owner_def rendezvous_lookup_def split: if_splits)

lemma hrw_owner_beats:
  assumes "distinct_names nm (set xs)" and "hrw_owner nm xs key = Some p"
    and "q \<in> set xs" and "q \<noteq> p"
  shows "beats nm key p q"
proof -
  let ?s = "sort_key (nm_to_base58 nm) xs"
  have m: "max_by_key (score nm key) ?s = Some p"
    using assms(2) by (simp add: hrw_owner_def rendezvous_lookup_def split: if_splits)
  have le: "score nm key q \<le> score nm key p"
    using max_by_key_greatest [OF m, of q] assms(3) by simp
  have tie: "score nm key q = score nm key p \<Longrightarrow> nm_to_base58 nm q \<le> nm_to_base58 nm p"
    using max_by_key_tie [OF _ m, of "nm_to_base58 nm" q] assms(3) by simp
  have "nm_to_base58 nm q \<noteq> nm_to_base58 nm p"
    using assms hrw_owner_in [OF assms(2)] by (auto simp: distinct_names_def dest: inj_onD)
  with le tie show ?thesis by (auto simp: beats_def)
qed

text \<open>A node that beats all others is the owner: the specification determines the lookup.\<close>

lemma hrw_owner_eqI:
  assumes "distinct_names nm (set xs)" and "p \<in> set xs"
    and "\<And>q. q \<in> set xs \<Longrightarrow> q \<noteq> p \<Longrightarrow> beats nm key p q"
  shows "hrw_owner nm xs key = Some p"
proof (cases "hrw_owner nm xs key")
  case None
  with assms(2) show ?thesis by (simp add: hrw_owner_None)
next
  case (Some r)
  have "r = p"
    using hrw_owner_beats [OF assms(1) Some assms(2)] assms(3) [of r] hrw_owner_in [OF Some]
    by (metis beats_asym)
  with Some show ?thesis by simp
qed

interpretation hrw: placement hrw_owner distinct_names
proof unfold_locales
  fix c :: "'a naming" and xs k p
  show "hrw_owner c xs k = None \<longleftrightarrow> xs = []" by (rule hrw_owner_None)
  show "p \<in> set xs" if "hrw_owner c xs k = Some p" using that by (rule hrw_owner_in)
  show "hrw_owner c ys k = Some p"
    if "distinct_names c (set xs)" "hrw_owner c xs k = Some p" "set ys \<subseteq> set xs" "p \<in> set ys" for ys
    using that hrw_owner_beats [OF that(1,2)]
    by (intro hrw_owner_eqI) (auto simp: distinct_names_def intro: inj_on_subset)
qed

lemma rebuild_new: "rebuild nm xs h = rendezvous_new nm xs"
  by (simp add: rebuild_def rendezvous_new_def)

text \<open>
  A concrete naming for evaluations: peers are their own names and the hash is the number of bytes
  written, so that a longer name wins.
\<close>

definition sample_naming :: "string naming" where
  "sample_naming = \<lparr>nm_to_base58 = (\<lambda>p. p), nm_hash = (\<lambda>bs. of_nat (length bs))\<rparr>"

lemma sample_naming_simps:
  "nm_to_base58 sample_naming = (\<lambda>p. p)"
  "distinct_names sample_naming S"
  "score sample_naming key node = of_nat (length key + length node + 2)"
  by (simp_all add: sample_naming_def distinct_names_def score_def str_hash_bytes_def)

section \<open>Properties\<close>

text \<open>
  C13. The lookup implements highest-random-weight selection: with distinct base58 names, the owner
  of a key is exactly the node of the topology that beats every other one by score, ties going to the
  greater base58 name.
\<close>

theorem lookup_is_highest_weight:
  assumes "distinct_names nm (set nodes)"
  shows "rendezvous_lookup nm (rendezvous_new nm nodes) key = Some p \<longleftrightarrow>
           p \<in> set nodes \<and> (\<forall>q\<in>set nodes. q \<noteq> p \<longrightarrow> beats nm key p q)"
  using assms hrw_owner_in [of nm nodes key p] hrw_owner_beats [of nm nodes key p]
    hrw_owner_eqI [of nm nodes p key]
  unfolding hrw_owner_def by blast

theorem lookup_is_highest_weight_witness:
  "rendezvous_lookup sample_naming (rendezvous_new sample_naming [''bb'', ''a'']) ''k'' = Some ''bb''"
proof -
  have "distinct_names sample_naming (set [''bb'', ''a''])"
    by (simp add: sample_naming_simps)
  then show ?thesis
    by (simp add: lookup_is_highest_weight beats_def sample_naming_simps)
qed

text \<open>
  Ownership does not depend on the order or the multiplicity in which peers are listed: two nodes
  that know the same set of peers (a \<^verbatim>\<open>HashSet\<close> yields them in any order) compute the same owner for
  every key.
\<close>

lemma lookup_order_irrelevant:
  assumes "distinct_names nm (set xs)" and "set xs = set ys"
  shows "rendezvous_lookup nm (rendezvous_new nm xs) key =
         rendezvous_lookup nm (rendezvous_new nm ys) key"
  using hrw.owner_set_determined [OF assms] unfolding hrw_owner_def .

text \<open>
  C14. Minimal disruption: when a node leaves, every key that it did not own keeps its owner; when a node
  joins, every key keeps its owner or moves to the new node. No key moves between nodes that stay.
\<close>

theorem lookup_minimal_disruption:
  assumes "distinct_names nm (insert d (set nodes))" and "set rest = set nodes - {d}"
    and "set grown = insert d (set nodes)"
  shows "(rendezvous_lookup nm (rendezvous_new nm nodes) key \<noteq> Some d \<longrightarrow>
      rendezvous_lookup nm (rebuild nm rest (rendezvous_new nm nodes)) key =
        rendezvous_lookup nm (rendezvous_new nm nodes) key) \<and>
    rendezvous_lookup nm (rebuild nm grown (rendezvous_new nm nodes)) key \<in>
      {Some d, rendezvous_lookup nm (rendezvous_new nm nodes) key}"
proof -
  have "distinct_names nm (set nodes)"
    using assms(1) unfolding distinct_names_def by (rule inj_on_subset) blast
  from hrw.owner_after_leave [OF this assms(2)] hrw.owner_after_join [OF assms(1,3), of key]
  show ?thesis unfolding hrw_owner_def by (simp add: rebuild_new)
qed

theorem lookup_minimal_disruption_witness:
  "rendezvous_lookup sample_naming
     (rebuild sample_naming [''bb''] (rendezvous_new sample_naming [''bb'', ''a''])) ''k'' =
   rendezvous_lookup sample_naming (rendezvous_new sample_naming [''bb'', ''a'']) ''k''"
  by (rule lookup_minimal_disruption [where d = "''a''" and grown = "[''bb'', ''a'']", THEN conjunct1, THEN mp])
    (auto simp: sample_naming_simps rendezvous_lookup_def)

end
