(* ===== verification/Sharding.thy ===== *)
theory Sharding
  imports Rendezvous
begin

text \<open>
  The sharding coordinator: \<^verbatim>\<open>crates/neolaas-server/src/network/sharding/actor.rs\<close> and
  \<^verbatim>\<open>sharding/messages.rs\<close>.

  The coordinator is an actor; a handler of the model takes the actor's state and the message and gives
  the reply and the next state. \<^verbatim>\<open>LookupMachine\<close> computes the short form \<^verbatim>\<open>b58[46..]\<close> of the owner
  outside of the logging macro, so a base58 text of fewer than 46 bytes makes the handler panic.
\<close>

section \<open>Model\<close>

record 'p sharding_coordinator =
  sc_local_peer_id :: 'p
  sc_hasher :: "'p rendezvous_hasher"

record 'p lookup_result =
  lk_machine_id :: string
  lk_owner_peer :: "'p option"
  lk_is_local :: bool

record topology_ack =
  ta_previous_count :: nat
  ta_new_count :: nat

record shard_stats =
  ss_node_count :: nat
  ss_local_peer_id :: string

definition sharding_new :: "'p naming \<Rightarrow> 'p \<Rightarrow> 'p list \<Rightarrow> 'p sharding_coordinator" where
  "sharding_new nm local_peer_id initial_peers =
     \<lparr>sc_local_peer_id = local_peer_id, sc_hasher = rendezvous_new nm initial_peers\<rparr>"

definition short_id :: "'p naming \<Rightarrow> 'p \<Rightarrow> string may_panic" where
  "short_id nm p = slice_from (nm_to_base58 nm p) 46"

definition handle_lookup_machine ::
  "'p naming \<Rightarrow> string \<Rightarrow> 'p sharding_coordinator \<Rightarrow> 'p lookup_result may_panic" where
  "handle_lookup_machine nm machine_id sc =
     (let owner_peer = rendezvous_lookup nm (sc_hasher sc) machine_id;
          is_local = (owner_peer = Some (sc_local_peer_id sc));
          owner_short =
            (case owner_peer of
               None \<Rightarrow> Inr None
             | Some p \<Rightarrow> and_then (short_id nm p) (\<lambda>s. Inr (Some s)))
      in and_then owner_short (\<lambda>_.
           Inr \<lparr>lk_machine_id = machine_id, lk_owner_peer = owner_peer, lk_is_local = is_local\<rparr>))"

definition handle_topology_changed ::
  "'p naming \<Rightarrow> 'p list \<Rightarrow> 'p sharding_coordinator \<Rightarrow> 'p sharding_coordinator \<times> topology_ack" where
  "handle_topology_changed nm peers sc =
     (let previous_count = node_count (sc_hasher sc);
          new_count = length peers
      in (sc\<lparr>sc_hasher := rebuild nm peers (sc_hasher sc)\<rparr>,
          \<lparr>ta_previous_count = previous_count, ta_new_count = new_count\<rparr>))"

definition handle_get_shard_stats :: "'p naming \<Rightarrow> 'p sharding_coordinator \<Rightarrow> shard_stats" where
  "handle_get_shard_stats nm sc =
     \<lparr>ss_node_count = node_count (sc_hasher sc),
      ss_local_peer_id = nm_to_base58 nm (sc_local_peer_id sc)\<rparr>"

section \<open>Lemmas\<close>

text \<open>The state invariant: the hasher holds the nodes sorted by name, as after \<open>rendezvous_new\<close>.\<close>

definition sharding_ok :: "'p naming \<Rightarrow> 'p sharding_coordinator \<Rightarrow> bool" where
  "sharding_ok nm sc \<longleftrightarrow> sc_hasher sc = rendezvous_new nm (hasher_nodes (sc_hasher sc))"

definition sliceable :: "'p naming \<Rightarrow> 'p \<Rightarrow> bool" where
  "sliceable nm p \<longleftrightarrow> is_char_boundary (nm_to_base58 nm p) 46"

lemma short_id_Inr: "sliceable nm p \<Longrightarrow> short_id nm p = Inr (drop 46 (nm_to_base58 nm p))"
  by (simp add: short_id_def sliceable_def slice_from_def)

lemma sharding_ok_new: "sharding_ok nm (sharding_new nm p peers)"
  by (simp add: sharding_ok_def sharding_new_def hasher_nodes_def rendezvous_new_def sort_key_id_if_sorted)

lemma topology_changed_new:
  "fst (handle_topology_changed nm peers sc) = sharding_new nm (sc_local_peer_id sc) peers"
  by (simp add: handle_topology_changed_def sharding_new_def rebuild_new Let_def)

lemma handle_lookup_machine_reply:
  assumes "\<And>p. rendezvous_lookup nm (sc_hasher sc) key = Some p \<Longrightarrow> sliceable nm p"
  shows "handle_lookup_machine nm key sc =
    Inr \<lparr>lk_machine_id = key,
         lk_owner_peer = rendezvous_lookup nm (sc_hasher sc) key,
         lk_is_local = (rendezvous_lookup nm (sc_hasher sc) key = Some (sc_local_peer_id sc))\<rparr>"
  using assms
  by (cases "rendezvous_lookup nm (sc_hasher sc) key")
    (auto simp: handle_lookup_machine_def short_id_Inr)

lemma handle_lookup_machine_new:
  assumes "\<And>p. p \<in> set peers \<Longrightarrow> sliceable nm p"
  shows "handle_lookup_machine nm key (sharding_new nm me peers) =
    Inr \<lparr>lk_machine_id = key, lk_owner_peer = hrw_owner nm peers key,
         lk_is_local = (hrw_owner nm peers key = Some me)\<rparr>"
  using assms hrw_owner_in [of nm peers key]
  by (subst handle_lookup_machine_reply) (auto simp: sharding_new_def hrw_owner_def)

section \<open>Properties\<close>

text \<open>
  C8. Exclusive ownership across the cluster: when all nodes of a non-empty cluster know the same set
  of peers, each in an order of its own, and all peer names are distinct and at least 46 bytes long,
  then for every machine exactly one node's coordinator answers \<^verbatim>\<open>is_local\<close>.
\<close>

theorem exactly_one_owner:
  assumes "distinct_names nm S" and "S \<noteq> {}"
    and "\<And>p. p \<in> S \<Longrightarrow> set (view p) = S" and "\<And>p. p \<in> S \<Longrightarrow> sliceable nm p"
  shows "\<exists>!p. p \<in> S \<and>
           (\<exists>r. handle_lookup_machine nm key (sharding_new nm p (view p)) = Inr r \<and> lk_is_local r)"
proof -
  obtain a where a: "a \<in> S" using assms(2) by blast
  have nonempty: "view a \<noteq> []" using assms(2) assms(3) [OF a] by auto
  obtain w where w: "hrw_owner nm (view a) key = Some w" and "w \<in> S"
    using hrw.owner_exists [OF nonempty, of nm key] assms(3) [OF a] by auto
  have same: "hrw_owner nm (view p) key = Some w" if "p \<in> S" for p
    using hrw.owner_set_determined [of nm "view a" "view p" key] assms(1) assms(3) [OF a]
      assms(3) [OF that] w by simp
  have "(\<exists>r. handle_lookup_machine nm key (sharding_new nm p (view p)) = Inr r \<and> lk_is_local r)
      \<longleftrightarrow> p = w" if "p \<in> S" for p
    using handle_lookup_machine_new [of "view p" nm key p] that assms(3) [OF that] assms(4)
    by (auto simp: same)
  with \<open>w \<in> S\<close> show ?thesis by blast
qed

definition sample_peer :: "char \<Rightarrow> string" where
  "sample_peer c = replicate 52 c"

lemma sliceable_sample_peer: "sliceable sample_naming (sample_peer CHR ''a'')"
  "sliceable sample_naming (sample_peer CHR ''b'')"
  by (simp_all add: sliceable_def sample_naming_simps is_char_boundary_def sample_peer_def)

theorem exactly_one_owner_witness:
  "\<exists>!p. p \<in> {sample_peer CHR ''a'', sample_peer CHR ''b''} \<and>
     (\<exists>r. handle_lookup_machine sample_naming ''m1''
            (sharding_new sample_naming p
              (if p = sample_peer CHR ''a'' then [sample_peer CHR ''a'', sample_peer CHR ''b'']
               else [sample_peer CHR ''b'', sample_peer CHR ''a'']))
          = Inr r \<and> lk_is_local r)"
  by (rule exactly_one_owner [where view = "\<lambda>p. if p = sample_peer CHR ''a''
        then [sample_peer CHR ''a'', sample_peer CHR ''b'']
        else [sample_peer CHR ''b'', sample_peer CHR ''a'']"])
    (auto simp: sample_naming_simps sliceable_sample_peer)

text \<open>
  A topology change replaces the coordinator's table completely: afterwards the coordinator is the
  one that would have been created for the new peer list, whatever it held before, and the
  acknowledgement carries the two node counts.
\<close>

lemma topology_change_replaces:
  "handle_topology_changed nm peers sc =
     (sharding_new nm (sc_local_peer_id sc) peers,
      \<lparr>ta_previous_count = length (hasher_nodes (sc_hasher sc)), ta_new_count = length peers\<rparr>)
   \<and> ss_node_count (handle_get_shard_stats nm (fst (handle_topology_changed nm peers sc)))
       = length peers"
  by (simp add: handle_topology_changed_def Let_def node_count_def hasher_nodes_def
      handle_get_shard_stats_def rebuild_new sharding_new_def)

text \<open>
  The unguarded slice \<^verbatim>\<open>b58[46..]\<close>: a lookup whose owner has a base58 text of fewer than 46 bytes
  makes the coordinator panic, although the slice only feeds a debug log line.
\<close>

lemma lookup_panics_on_short_name:
  assumes "rendezvous_lookup nm (sc_hasher sc) key = Some p" and "length (nm_to_base58 nm p) < 46"
  shows "handle_lookup_machine nm key sc = Inl Slice_Panic"
  using assms
  by (simp add: handle_lookup_machine_def short_id_def slice_from_short)

end
