(* ===== verification/Supervision.thy ===== *)
theory Supervision
  imports Rust_Prelude
begin

text \<open>
  Restart policies and restart trackers: \<^verbatim>\<open>crates/neolaas-server/src/observability/supervision.rs\<close>.

  A tracker decides whether a failed actor may be restarted: at most \<^verbatim>\<open>max_restarts\<close> grants inside a
  sliding time window, with an exponential backoff between them. The abstract specification is
  \<open>limiter_run\<close>, which remembers every grant forever and counts those inside the window; the tracker
  forgets expired grants and is shown to refine it.
\<close>

section \<open>Model\<close>

record restart_policy =
  rp_max_restarts :: u32
  rp_window :: duration
  rp_backoff :: duration
  rp_max_backoff :: duration

definition restart_policy_default :: restart_policy where
  "restart_policy_default =
     \<lparr>rp_max_restarts = 5, rp_window = from_secs 60,
      rp_backoff = from_millis 100, rp_max_backoff = from_secs 5\<rparr>"

definition restart_policy_new ::
  "u32 \<Rightarrow> duration \<Rightarrow> duration \<Rightarrow> duration \<Rightarrow> restart_policy" where
  "restart_policy_new max_restarts window backoff max_backoff =
     \<lparr>rp_max_restarts = max_restarts, rp_window = window,
      rp_backoff = backoff, rp_max_backoff = max_backoff\<rparr>"

definition lenient :: restart_policy where
  "lenient =
     \<lparr>rp_max_restarts = 10, rp_window = from_secs 60,
      rp_backoff = from_millis 50, rp_max_backoff = from_secs 2\<rparr>"

definition strict :: restart_policy where
  "strict =
     \<lparr>rp_max_restarts = 3, rp_window = from_secs 120,
      rp_backoff = from_millis 500, rp_max_backoff = from_secs 10\<rparr>"

record restart_tracker =
  rt_policy :: restart_policy
  rt_restart_times :: "instant list"
  rt_consecutive_restarts :: u32

definition restart_tracker_new :: "restart_policy \<Rightarrow> restart_tracker" where
  "restart_tracker_new policy =
     \<lparr>rt_policy = policy, rt_restart_times = [], rt_consecutive_restarts = 0\<rparr>"

definition with_default_policy :: restart_tracker where
  "with_default_policy = restart_tracker_new restart_policy_default"

definition calculate_backoff :: "restart_tracker \<Rightarrow> duration" where
  "calculate_backoff t =
     (let multiplier = saturating_pow 2 (saturating_sub (rt_consecutive_restarts t) 1);
          backoff_ms = (of_nat (as_millis (rp_backoff (rt_policy t))) :: u64) * ucast multiplier;
          backoff = from_millis (unat backoff_ms)
      in min backoff (rp_max_backoff (rt_policy t)))"

text \<open>The \<^verbatim>\<open>while let Some(front)\<close> loop that drops the restarts before the cutoff.\<close>

fun pop_expired :: "instant \<Rightarrow> instant list \<Rightarrow> instant list" where
  "pop_expired cutoff [] = []"
| "pop_expired cutoff (front # rest) =
     (if front < cutoff then pop_expired cutoff rest else front # rest)"

definition record_restart :: "instant \<Rightarrow> restart_tracker \<Rightarrow> restart_tracker \<times> duration option" where
  "record_restart now t =
     (let cutoff = now - int (rp_window (rt_policy t));
          t1 = t\<lparr>rt_restart_times := pop_expired cutoff (rt_restart_times t)\<rparr>
      in if unat (rp_max_restarts (rt_policy t)) \<le> length (rt_restart_times t1) then (t1, None)
         else
           (let t2 = t1\<lparr>rt_restart_times := rt_restart_times t1 @ [now],
                       rt_consecutive_restarts := rt_consecutive_restarts t1 + 1\<rparr>
            in (t2, Some (calculate_backoff t2))))"

definition reset :: "restart_tracker \<Rightarrow> restart_tracker" where
  "reset t = t\<lparr>rt_consecutive_restarts := 0\<rparr>"

definition restart_count :: "restart_tracker \<Rightarrow> nat" where
  "restart_count t = length (rt_restart_times t)"

definition is_exhausted :: "instant \<Rightarrow> restart_tracker \<Rightarrow> bool" where
  "is_exhausted now t =
     (let cutoff = now - int (rp_window (rt_policy t));
          recent_count = length (filter (\<lambda>x. cutoff \<le> x) (rt_restart_times t))
      in unat (rp_max_restarts (rt_policy t)) \<le> recent_count)"

text \<open>
  A run of restart requests at the given instants; the result lists the instants at which the restart
  was granted.
\<close>

fun restart_run :: "restart_tracker \<Rightarrow> instant list \<Rightarrow> instant list" where
  "restart_run t [] = []"
| "restart_run t (now # ts) =
     (case record_restart now t of
        (t', None) \<Rightarrow> restart_run t' ts
      | (t', Some _) \<Rightarrow> now # restart_run t' ts)"

text \<open>The abstract limiter: \<open>hist\<close> is the history of all grants, never pruned.\<close>

fun limiter_run :: "nat \<Rightarrow> duration \<Rightarrow> instant list \<Rightarrow> instant list \<Rightarrow> instant list" where
  "limiter_run m w hist [] = []"
| "limiter_run m w hist (now # ts) =
     (if length (filter (\<lambda>x. now - int w \<le> x) hist) < m
      then now # limiter_run m w (hist @ [now]) ts
      else limiter_run m w hist ts)"

section \<open>The pruned history\<close>

lemma pop_expired_filter: "sorted xs \<Longrightarrow> pop_expired c xs = filter (\<lambda>x. c \<le> x) xs"
proof (induction xs)
  case Nil
  then show ?case by simp
next
  case (Cons x xs)
  then have "c \<le> x \<Longrightarrow> filter (\<lambda>y. c \<le> y) xs = xs"
    by (auto simp: filter_id_conv)
  with Cons show ?case by auto
qed

lemma sorted_pop_expired: "sorted xs \<Longrightarrow> sorted (pop_expired c xs)"
  by (simp add: pop_expired_filter sorted_filter [of id, simplified])

lemma record_restart_policy [simp]: "rt_policy (fst (record_restart now t)) = rt_policy t"
  by (simp add: record_restart_def Let_def)

lemma record_restart_granted:
  assumes "record_restart now t = (t', Some b)"
  shows "length (pop_expired (now - int (rp_window (rt_policy t))) (rt_restart_times t))
           < unat (rp_max_restarts (rt_policy t))"
    and "rt_restart_times t' =
           pop_expired (now - int (rp_window (rt_policy t))) (rt_restart_times t) @ [now]"
    and "rt_consecutive_restarts t' = rt_consecutive_restarts t + 1"
    and "rt_policy t' = rt_policy t"
    and "b = calculate_backoff t'"
  using assms by (auto simp: record_restart_def Let_def split: if_splits)

lemma record_restart_denied:
  assumes "record_restart now t = (t', None)"
  shows "unat (rp_max_restarts (rt_policy t))
           \<le> length (pop_expired (now - int (rp_window (rt_policy t))) (rt_restart_times t))"
    and "t' = t\<lparr>rt_restart_times :=
                 pop_expired (now - int (rp_window (rt_policy t))) (rt_restart_times t)\<rparr>"
  using assms by (auto simp: record_restart_def Let_def split: if_splits)

text \<open>
  The simulation relation at instant \<open>n\<close>: the tracker and the full history agree on the window that
  ends at \<open>n\<close>, hence on every later one.
\<close>

definition window_sim :: "instant \<Rightarrow> instant list \<Rightarrow> restart_tracker \<Rightarrow> bool" where
  "window_sim n hist t \<longleftrightarrow>
     sorted (rt_restart_times t) \<and> (\<forall>x\<in>set (rt_restart_times t). x \<le> n) \<and>
     filter (\<lambda>x. n - int (rp_window (rt_policy t)) \<le> x) (rt_restart_times t) =
       filter (\<lambda>x. n - int (rp_window (rt_policy t)) \<le> x) hist"

lemma filter_later:
  assumes "filter (\<lambda>x. c \<le> x) xs = filter (\<lambda>x. c \<le> x) ys" and "(c::int) \<le> d"
  shows "filter (\<lambda>x. d \<le> x) xs = filter (\<lambda>x. d \<le> x) ys"
proof -
  have drop_c: "filter (\<lambda>x. d \<le> x) zs = filter (\<lambda>x. d \<le> x) (filter (\<lambda>x. c \<le> x) zs)" for zs
    using assms(2) by (auto intro!: filter_cong)
  show ?thesis by (subst (1 2) drop_c) (simp only: assms(1))
qed

lemma window_sim_pop:
  assumes "window_sim n hist t" and "n \<le> now"
  shows "pop_expired (now - int (rp_window (rt_policy t))) (rt_restart_times t) =
           filter (\<lambda>x. now - int (rp_window (rt_policy t)) \<le> x) hist"
  using assms filter_later [of "n - int (rp_window (rt_policy t))" "rt_restart_times t" hist
      "now - int (rp_window (rt_policy t))"]
  by (simp add: window_sim_def pop_expired_filter)

lemma window_sim_popped:
  assumes "window_sim n hist t" and "n \<le> now"
    and "rt_policy t' = rt_policy t"
    and "rt_restart_times t' =
           pop_expired (now - int (rp_window (rt_policy t))) (rt_restart_times t)"
  shows "window_sim now hist t'"
proof -
  have "sorted (rt_restart_times t)" and "\<forall>x\<in>set (rt_restart_times t). x \<le> n"
    using assms(1) by (auto simp: window_sim_def)
  then have "sorted (rt_restart_times t')" and "\<forall>x\<in>set (rt_restart_times t'). x \<le> now"
    using assms(2,4) sorted_pop_expired by (simp, auto simp: pop_expired_filter)
  with assms(3,4) window_sim_pop [OF assms(1,2)] show ?thesis
    by (simp add: window_sim_def)
qed

lemma window_sim_snoc:
  assumes "window_sim now hist t"
    and "rt_policy t' = rt_policy t"
    and "rt_restart_times t' = rt_restart_times t @ [now]"
  shows "window_sim now (hist @ [now]) t'"
  using assms by (auto simp: window_sim_def sorted_append)

lemma restart_run_limiter:
  "sorted (n # ts) \<Longrightarrow> window_sim n hist t \<Longrightarrow>
     restart_run t ts =
       limiter_run (unat (rp_max_restarts (rt_policy t))) (rp_window (rt_policy t)) hist ts"
proof (induction ts arbitrary: n hist t)
  case Nil
  then show ?case by simp
next
  case (Cons now ts)
  let ?c = "now - int (rp_window (rt_policy t))"
  let ?popped = "t\<lparr>rt_restart_times := pop_expired ?c (rt_restart_times t)\<rparr>"
  have le: "n \<le> now" and sorted_ts: "sorted (now # ts)"
    using Cons.prems(1) by auto
  have popped: "pop_expired ?c (rt_restart_times t) = filter (\<lambda>x. ?c \<le> x) hist"
    by (rule window_sim_pop [OF Cons.prems(2) le])
  have sim: "window_sim now hist ?popped"
    by (rule window_sim_popped [OF Cons.prems(2) le]) simp_all
  obtain t' r where rec: "record_restart now t = (t', r)"
    by (cases "record_restart now t")
  show ?case
  proof (cases r)
    case None
    with rec record_restart_denied [of now t t'] have "t' = ?popped"
      and "unat (rp_max_restarts (rt_policy t)) \<le> length (filter (\<lambda>x. ?c \<le> x) hist)"
      by (simp_all add: popped)
    with Cons.IH [OF sorted_ts sim] rec None show ?thesis by simp
  next
    case (Some b)
    note g = record_restart_granted [OF rec [unfolded Some]]
    have "window_sim now (hist @ [now]) t'"
      using g by (intro window_sim_snoc [OF sim]) simp_all
    with Cons.IH [OF sorted_ts] rec Some g show ?thesis by (simp add: popped)
  qed
qed

section \<open>The rate limit\<close>

text \<open>The number of grants of \<open>hist\<close> inside the closed window of length \<open>w\<close> that ends at \<open>t\<close>.\<close>

definition grants_in_window :: "duration \<Rightarrow> instant \<Rightarrow> instant list \<Rightarrow> nat" where
  "grants_in_window w t hist = length (filter (\<lambda>x. t - int w \<le> x \<and> x \<le> t) hist)"

lemma grants_in_window_snoc:
  assumes "length (filter (\<lambda>x. now - int w \<le> x) hist) < m"
    and "grants_in_window w t hist \<le> m"
  shows "grants_in_window w t (hist @ [now]) \<le> m"
proof (cases "t - int w \<le> now \<and> now \<le> t")
  case True
  have "length (filter (\<lambda>x. t - int w \<le> x \<and> x \<le> t) hist)
          \<le> length (filter (\<lambda>x. now - int w \<le> x) hist)"
    using True by (intro length_filter_weaken) auto
  with assms(1) True show ?thesis by (simp add: grants_in_window_def)
next
  case False
  with assms(2) show ?thesis by (auto simp: grants_in_window_def)
qed

lemma limiter_run_rate:
  "(\<And>t. grants_in_window w t hist \<le> m) \<Longrightarrow>
     grants_in_window w t (hist @ limiter_run m w hist ts) \<le> m"
proof (induction ts arbitrary: hist)
  case Nil
  then show ?case by simp
next
  case (Cons now ts)
  show ?case
  proof (cases "length (filter (\<lambda>x. now - int w \<le> x) hist) < m")
    case True
    with Cons.prems have "\<And>t. grants_in_window w t (hist @ [now]) \<le> m"
      by (intro grants_in_window_snoc)
    from Cons.IH [OF this] True show ?thesis by simp
  next
    case False
    with Cons show ?thesis by simp
  qed
qed

section \<open>Backoff\<close>

lemma calculate_backoff_max: "calculate_backoff t \<le> rp_max_backoff (rt_policy t)"
  by (simp add: calculate_backoff_def Let_def)

text \<open>With a base backoff below \<open>2 ^ 32\<close> milliseconds the product does not wrap.\<close>

lemma calculate_backoff_value:
  assumes "as_millis (rp_backoff (rt_policy t)) < 2 ^ 32"
  shows "calculate_backoff t =
    min (from_millis (as_millis (rp_backoff (rt_policy t)) *
           min (2 ^ (unat (rt_consecutive_restarts t) - 1)) (2 ^ 32 - 1)))
        (rp_max_backoff (rt_policy t))"
proof -
  let ?a = "as_millis (rp_backoff (rt_policy t))"
  let ?m = "saturating_pow 2 (saturating_sub (rt_consecutive_restarts t) 1)"
  have m: "unat ?m = min (2 ^ (unat (rt_consecutive_restarts t) - 1)) (2 ^ 32 - 1)"
    by (simp add: unat_saturating_pow)
  have "unat (of_nat ?a :: u64) = ?a"
    using assms by (simp add: unat_of_nat)
  moreover have "unat (ucast ?m :: u64) = unat ?m"
    using unat_u32_less [of ?m] by (simp add: unsigned_ucast_eq take_bit_eq_mod unat_mod_distrib)
  moreover have "?a * unat ?m < 2 ^ 64"
  proof -
    have "?a * unat ?m \<le> 2 ^ 32 * (2 ^ 32 - 1)"
      using assms m by (intro mult_le_mono) auto
    then show ?thesis by simp
  qed
  ultimately have "unat ((of_nat ?a :: u64) * ucast ?m) = ?a * unat ?m"
    by (simp add: unat_word_ariths)
  then show ?thesis by (simp add: calculate_backoff_def Let_def m)
qed

section \<open>Properties\<close>

lemma restart_run_fresh:
  assumes "sorted ts"
  shows "restart_run (restart_tracker_new p) ts =
           limiter_run (unat (rp_max_restarts p)) (rp_window p) [] ts"
proof (cases ts)
  case Nil
  then show ?thesis by simp
next
  case (Cons n ts')
  with assms have "sorted (n # ts)" by auto
  moreover have "window_sim n [] (restart_tracker_new p)"
    by (simp add: window_sim_def restart_tracker_new_def)
  ultimately have "restart_run (restart_tracker_new p) ts =
      limiter_run (unat (rp_max_restarts (rt_policy (restart_tracker_new p))))
        (rp_window (rt_policy (restart_tracker_new p))) [] ts"
    by (rule restart_run_limiter)
  then show ?thesis by (simp add: restart_tracker_new_def)
qed

text \<open>
  C7. A restart tracker refines the abstract limiter: for requests at non-decreasing instants, the
  tracker, which forgets expired restarts, grants exactly the requests that a limiter remembering all
  grants would grant.
\<close>

theorem restart_run_refines_limiter:
  assumes "sorted ts"
  shows "restart_run (restart_tracker_new p) ts =
           limiter_run (unat (rp_max_restarts p)) (rp_window p) [] ts"
  using assms by (rule restart_run_fresh)

theorem restart_run_refines_limiter_witness:
  "restart_run (restart_tracker_new (restart_policy_new 2 10 0 0)) [0, 5, 7, 11] =
     limiter_run 2 10 [] [0, 5, 7, 11]
   \<and> limiter_run 2 10 [] [0, 5, 7, 11] = [0, 5, 11]"
  using restart_run_refines_limiter [of "[0, 5, 7, 11]" "restart_policy_new 2 10 0 0"]
  by (simp add: restart_policy_new_def)

text \<open>
  C22. The rate limit holds in every window: however many restarts are requested, and at whatever
  non-decreasing instants, no closed time window of the policy's length contains more than
  \<^verbatim>\<open>max_restarts\<close> granted restarts.
\<close>

theorem restart_rate_limit:
  assumes "sorted ts"
  shows "grants_in_window (rp_window p) t (restart_run (restart_tracker_new p) ts)
           \<le> unat (rp_max_restarts p)"
  using limiter_run_rate [of "rp_window p" "[]" "unat (rp_max_restarts p)" t ts]
  by (simp add: restart_run_fresh [OF assms] grants_in_window_def)

theorem restart_rate_limit_witness:
  "grants_in_window 10 11 (restart_run (restart_tracker_new (restart_policy_new 2 10 0 0)) [0, 5, 7, 11])
     \<le> 2"
  using restart_rate_limit [of "[0, 5, 7, 11]" "restart_policy_new 2 10 0 0" 11]
  by (simp add: restart_policy_new_def)

text \<open>
  \<^verbatim>\<open>is_exhausted\<close> predicts \<^verbatim>\<open>record_restart\<close>: on a tracker whose recorded restarts are in time
  order, it holds at an instant exactly when a restart requested at that instant is refused.
\<close>

lemma is_exhausted_iff_denied:
  assumes "sorted (rt_restart_times t)"
  shows "is_exhausted now t \<longleftrightarrow> snd (record_restart now t) = None"
  using assms
  by (simp add: is_exhausted_def record_restart_def Let_def pop_expired_filter)

text \<open>
  C23. The granted backoff doubles and is capped: after \<open>n\<close> earlier consecutive restarts the suggested
  backoff is \<open>2 ^ n\<close> times the base backoff (the multiplier saturating at \<open>2 ^ 32 - 1\<close>), capped at
  \<^verbatim>\<open>max_backoff\<close>, with no wrap-around as long as the base backoff is below \<open>2 ^ 32\<close> milliseconds and
  the consecutive counter has not reached its maximum.
\<close>

theorem granted_backoff_value:
  assumes "record_restart now t = (t', Some b)"
    and "as_millis (rp_backoff (rt_policy t)) < 2 ^ 32"
    and "unat (rt_consecutive_restarts t) < 2 ^ 32 - 1"
  shows "b = min (from_millis (as_millis (rp_backoff (rt_policy t)) *
                    min (2 ^ unat (rt_consecutive_restarts t)) (2 ^ 32 - 1)))
                 (rp_max_backoff (rt_policy t))"
proof -
  note g = record_restart_granted [OF assms(1)]
  have "unat (rt_consecutive_restarts t') = Suc (unat (rt_consecutive_restarts t))"
    using assms(3) by (simp add: g(3) unat_Suc_no_wrap)
  with assms(2) show ?thesis
    by (simp add: g(5) calculate_backoff_value g(4))
qed

theorem granted_backoff_value_witness:
  "snd (record_restart 0 with_default_policy) =
     Some (min (from_millis (100 * min (2 ^ 0) (2 ^ 32 - 1))) (from_secs 5))"
proof -
  have "record_restart 0 with_default_policy =
      (fst (record_restart 0 with_default_policy),
       Some (calculate_backoff (fst (record_restart 0 with_default_policy))))"
    by (simp add: record_restart_def with_default_policy_def restart_tracker_new_def
        restart_policy_default_def Let_def)
  from granted_backoff_value [OF this] show ?thesis
    by (subst \<open>_ = (_, Some _)\<close>)
      (simp add: with_default_policy_def restart_tracker_new_def restart_policy_default_def)
qed

end
