(* ===== verification/Etcd.thy ===== *)
theory Etcd
  imports Rust_Prelude
begin

text \<open>
  What the sources see of the etcd client: key-value pairs of a response and watch events. The text of
  a key or value is \<open>None\<close> where \<^verbatim>\<open>key_str\<close> or \<^verbatim>\<open>value_str\<close> fails because the bytes are not UTF-8. The
  service itself is not modelled; its answers are inputs of the operations.
\<close>

datatype event_type = Event_Put | Event_Delete

type_synonym etcd_kv = "string option \<times> string option"

record watch_event =
  we_event_type :: event_type
  we_kv :: "etcd_kv option"

text \<open>A message of a watch stream: a transport error, the end of the stream, or a response.\<close>

datatype watch_msg =
    Watch_Error string
  | Watch_End
  | Watch_Response bool "watch_event list"

end
