(* ===== verification/Machine_Manager.thy ===== *)
theory Machine_Manager
  imports Machine_Actor Sharding Supervision Etcd
begin

text \<open>
  The machine actor manager: \<^verbatim>\<open>crates/neolaas-server/src/network/machines/manager.rs\<close>.

  The manager keeps one running \<open>machine_actor\<close> per locally owned machine. An \<^verbatim>\<open>ActorRef\<close> in its table
  stands for the actor itself, so \<open>mg_actors\<close> maps a machine to the actor's state. What a handler
  learns from outside is its environment \<open>mgr_env\<close>: the answer of the sharding coordinator for each
  machine (\<open>None\<close> when the ask fails), whether an ask reaches a machine's actor, the wall clock
  reading taken for a machine, and the order in which a \<^verbatim>\<open>HashMap\<close> yields its keys. Each message is
  handled in an environment of its own, and asks about each machine at most once, so functions of the
  machine are general.

  Log lines are not modelled. The one that \<^verbatim>\<open>spawn_machine_actor\<close> writes slices the local peer's
  base58 text; the coordinator slices the same text before it answers \<^verbatim>\<open>is_local\<close>
  (\<open>local_answer_sliceable\<close> below), so that slice cannot be the first to fail.

  \<open>mg_obs\<close> is the process-wide log and metrics recorder that the handlers write to.
\<close>

section \<open>Model\<close>

definition MACHINES_PREFIX :: string where
  "MACHINES_PREFIX = ''/neolaas/machines/''"

datatype etcd_event_type = Put | Delete

record etcd_machine_event =
  ee_machine_id :: string
  ee_event_type :: etcd_event_type
  ee_spec_json :: "string option"

record 'p manager =
  mg_local_peer_id :: 'p
  mg_node_id :: string
  mg_actors :: "string \<rightharpoonup> machine_actor"
  mg_machine_specs :: "string \<rightharpoonup> string"
  mg_restart_trackers :: "string \<rightharpoonup> restart_tracker"
  mg_restart_policy :: restart_policy
  mg_obs :: obs

record 'p mgr_env =
  me_naming :: "'p naming"
  me_from_str :: spec_parser
  me_ask_sharding :: "string \<Rightarrow> 'p lookup_result option"
  me_ask_actor :: "string \<Rightarrow> bool"
  me_clock :: "string \<Rightarrow> timestamp"
  me_keys :: "string set \<Rightarrow> string list"

definition manager_new :: "'p \<Rightarrow> string \<Rightarrow> 'p manager" where
  "manager_new local_peer_id node_id =
     \<lparr>mg_local_peer_id = local_peer_id, mg_node_id = node_id,
      mg_actors = Map.empty, mg_machine_specs = Map.empty, mg_restart_trackers = Map.empty,
      mg_restart_policy = restart_policy_default, mg_obs = obs_empty\<rparr>"

definition spawn_machine_actor ::
  "'p mgr_env \<Rightarrow> string \<Rightarrow> string \<Rightarrow> 'p manager \<Rightarrow> 'p manager" where
  "spawn_machine_actor env machine_id spec_json m =
     (case with_node_id (me_from_str env) (me_clock env machine_id) machine_id spec_json (mg_node_id m) of
        Inr actor \<Rightarrow>
          m\<lparr>mg_obs := emit (Actor_Spawned ''MachineActor'' machine_id (mg_node_id m))
                        (measure_obs (record_actor_spawned ''MachineActor'') (mg_obs m)),
            mg_restart_trackers := (mg_restart_trackers m)
              (machine_id \<mapsto> restart_tracker_new (mg_restart_policy m)),
            mg_actors := (mg_actors m)(machine_id \<mapsto> actor)\<rparr>
      | Inl e \<Rightarrow> m)"

definition stop_machine_actor :: "string \<Rightarrow> string \<Rightarrow> 'p manager \<Rightarrow> 'p manager" where
  "stop_machine_actor machine_id reason m =
     (case mg_actors m machine_id of
        Some actor_ref \<Rightarrow>
          m\<lparr>mg_actors := (mg_actors m)(machine_id := None),
            mg_obs := emit (Actor_Stopped ''MachineActor'' machine_id reason (mg_node_id m))
                        (measure_obs (record_actor_stopped ''MachineActor'' reason) (mg_obs m)),
            mg_restart_trackers := (mg_restart_trackers m)(machine_id := None)\<rparr>
      | None \<Rightarrow> m)"

definition handle_machine_put ::
  "'p mgr_env \<Rightarrow> string \<Rightarrow> string \<Rightarrow> 'p manager \<Rightarrow> 'p manager may_panic" where
  "handle_machine_put env machine_id spec_json m =
     (let m = m\<lparr>mg_machine_specs := (mg_machine_specs m)(machine_id \<mapsto> spec_json)\<rparr>
      in case me_ask_sharding env machine_id of
           None \<Rightarrow> Inr m
         | Some lookup_result \<Rightarrow>
             if lk_is_local lookup_result then
               (case mg_actors m machine_id of
                  Some actor_ref \<Rightarrow>
                    if me_ask_actor env machine_id then
                      Inr (m\<lparr>mg_actors := (mg_actors m)(machine_id \<mapsto>
                               fst (handle_update_machine_spec (me_from_str env) spec_json actor_ref))\<rparr>)
                    else Inr m
                | None \<Rightarrow> Inr (spawn_machine_actor env machine_id spec_json m))
             else if mg_actors m machine_id \<noteq> None then
               (let previous_owner = nm_to_base58 (me_naming env) (mg_local_peer_id m);
                    new_owner =
                      (case lk_owner_peer lookup_result of
                         Some p \<Rightarrow> nm_to_base58 (me_naming env) p
                       | None \<Rightarrow> ''unknown'')
                in and_then (slice_from previous_owner 46) (\<lambda>previous.
                   and_then (slice_from new_owner 46) (\<lambda>new.
                     let m = m\<lparr>mg_obs := emit (Ownership_Transferred machine_id previous new) (mg_obs m)\<rparr>
                     in Inr (stop_machine_actor machine_id ''ownership_transfer'' m))))
             else Inr m)"

definition handle_machine_delete :: "string \<Rightarrow> 'p manager \<Rightarrow> 'p manager" where
  "handle_machine_delete machine_id m =
     (let m = m\<lparr>mg_machine_specs := (mg_machine_specs m)(machine_id := None)\<rparr>
      in if mg_actors m machine_id \<noteq> None then stop_machine_actor machine_id ''machine_deleted'' m
         else m)"

definition handle_actor_failure ::
  "instant \<Rightarrow> 'p mgr_env \<Rightarrow> string \<Rightarrow> string \<Rightarrow> 'p manager \<Rightarrow> 'p manager" where
  "handle_actor_failure now env machine_id err m =
     (let (m, should_restart) =
            (case mg_restart_trackers m machine_id of
               Some tracker \<Rightarrow>
                 (case record_restart now tracker of
                    (tracker', r) \<Rightarrow>
                      (m\<lparr>mg_restart_trackers := (mg_restart_trackers m)(machine_id \<mapsto> tracker')\<rparr>,
                       r \<noteq> None))
             | None \<Rightarrow> (m, False));
          m = m\<lparr>mg_obs := emit (Actor_Panicked ''MachineActor'' machine_id err (mg_node_id m)
                                  should_restart) (mg_obs m)\<rparr>
      in if should_restart then
           (case mg_machine_specs m machine_id of
              Some spec_json \<Rightarrow>
                spawn_machine_actor env machine_id spec_json
                  (m\<lparr>mg_actors := (mg_actors m)(machine_id := None)\<rparr>)
            | None \<Rightarrow> m)
         else
           m\<lparr>mg_actors := (mg_actors m)(machine_id := None),
             mg_restart_trackers := (mg_restart_trackers m)(machine_id := None),
             mg_obs := measure_obs (record_actor_stopped ''MachineActor'' ''restart_limit_exceeded'')
                         (mg_obs m)\<rparr>)"

text \<open>The scan of \<^verbatim>\<open>rebalance_actors\<close>: the accumulators are \<^verbatim>\<open>to_stop\<close> and \<^verbatim>\<open>to_spawn\<close>.\<close>

fun rebalance_scan ::
  "'p mgr_env \<Rightarrow> 'p manager \<Rightarrow> string list \<Rightarrow> string list \<times> (string \<times> string) list \<Rightarrow>
     string list \<times> (string \<times> string) list" where
  "rebalance_scan env m [] acc = acc"
| "rebalance_scan env m (machine_id # ids) (to_stop, to_spawn) =
     (case me_ask_sharding env machine_id of
        None \<Rightarrow> rebalance_scan env m ids (to_stop, to_spawn)
      | Some lookup_result \<Rightarrow>
          (let has_actor = (mg_actors m machine_id \<noteq> None)
           in if lk_is_local lookup_result \<and> \<not> has_actor then
                (case mg_machine_specs m machine_id of
                   Some spec_json \<Rightarrow>
                     rebalance_scan env m ids (to_stop, to_spawn @ [(machine_id, spec_json)])
                 | None \<Rightarrow> rebalance_scan env m ids (to_stop, to_spawn))
              else if \<not> lk_is_local lookup_result \<and> has_actor then
                rebalance_scan env m ids (to_stop @ [machine_id], to_spawn)
              else rebalance_scan env m ids (to_stop, to_spawn)))"

definition rebalance_actors :: "'p mgr_env \<Rightarrow> 'p manager \<Rightarrow> 'p manager" where
  "rebalance_actors env m =
     (let ids = me_keys env (dom (mg_machine_specs m));
          (to_stop, to_spawn) = rebalance_scan env m ids ([], []);
          m = fold (\<lambda>machine_id. stop_machine_actor machine_id ''topology_rebalance'') to_stop m
      in fold (\<lambda>(machine_id, spec_json). spawn_machine_actor env machine_id spec_json) to_spawn m)"

definition actor_count :: "'p manager \<Rightarrow> nat" where
  "actor_count m = map_len (mg_actors m)"

section \<open>Initial sync\<close>

datatype sync_error = Etcd_Request_Failed string | Invalid_Utf8

fun collect_machines :: "etcd_kv list \<Rightarrow> sync_error + (string \<times> string) list" where
  "collect_machines [] = Inr []"
| "collect_machines ((key, value) # kvs) =
     (case key of
        None \<Rightarrow> Inl Invalid_Utf8
      | Some key \<Rightarrow>
          (let machine_id = (case strip_prefix key MACHINES_PREFIX of Some i \<Rightarrow> i | None \<Rightarrow> key)
           in case value of
                None \<Rightarrow> Inl Invalid_Utf8
              | Some spec_json \<Rightarrow>
                  and_then (collect_machines kvs) (\<lambda>rest. Inr ((machine_id, spec_json) # rest))))"

fun handle_puts ::
  "'p mgr_env \<Rightarrow> (string \<times> string) list \<Rightarrow> 'p manager \<Rightarrow> 'p manager may_panic" where
  "handle_puts env [] m = Inr m"
| "handle_puts env ((machine_id, spec_json) # ps) m =
     and_then (handle_machine_put env machine_id spec_json m) (handle_puts env ps)"

definition sync_all_machines ::
  "'p mgr_env \<Rightarrow> string + etcd_kv list \<Rightarrow> 'p manager \<Rightarrow> ('p manager \<times> (sync_error + unit)) may_panic" where
  "sync_all_machines env resp m =
     (case resp of
        Inl e \<Rightarrow> Inr (m, Inl (Etcd_Request_Failed e))
      | Inr kvs \<Rightarrow>
          (case collect_machines kvs of
             Inl e \<Rightarrow> Inr (m, Inl e)
           | Inr machines \<Rightarrow> and_then (handle_puts env machines m) (\<lambda>m. Inr (m, Inr ()))))"

record sync_result =
  sr_total_machines :: nat
  sr_local_actors :: nat

definition handle_sync_all_machines ::
  "'p mgr_env \<Rightarrow> string + etcd_kv list \<Rightarrow> 'p manager \<Rightarrow> ('p manager \<times> sync_result) may_panic" where
  "handle_sync_all_machines env resp m =
     and_then (sync_all_machines env resp m) (\<lambda>(m, r).
       case r of
         Inr _ \<Rightarrow> Inr (m, \<lparr>sr_total_machines = map_len (mg_machine_specs m),
                           sr_local_actors = map_len (mg_actors m)\<rparr>)
       | Inl e \<Rightarrow> Inr (m, \<lparr>sr_total_machines = 0, sr_local_actors = 0\<rparr>))"

section \<open>Message handlers\<close>

text \<open>The loop over the table of actors, then the handler.\<close>

fun collect_statuses ::
  "'p mgr_env \<Rightarrow> string list \<Rightarrow> 'p manager \<Rightarrow> 'p manager \<times> machine_status list" where
  "collect_statuses env [] m = (m, [])"
| "collect_statuses env (machine_id # ids) m =
     (case mg_actors m machine_id of
        Some actor_ref \<Rightarrow>
          if me_ask_actor env machine_id then
            (case handle_get_machine_status (me_clock env machine_id) actor_ref of
               (actor_ref', ev, status) \<Rightarrow>
                 (let m = m\<lparr>mg_actors := (mg_actors m)(machine_id \<mapsto> actor_ref'),
                            mg_obs := fold emit ev (mg_obs m)\<rparr>;
                      (m, statuses) = collect_statuses env ids m
                  in (m, status # statuses)))
          else collect_statuses env ids m
      | None \<Rightarrow> collect_statuses env ids m)"

definition handle_get_all_machine_statuses ::
  "'p mgr_env \<Rightarrow> 'p manager \<Rightarrow> 'p manager \<times> machine_status list" where
  "handle_get_all_machine_statuses env m = collect_statuses env (me_keys env (dom (mg_actors m))) m"

definition handle_etcd_machine_event ::
  "'p mgr_env \<Rightarrow> etcd_machine_event \<Rightarrow> 'p manager \<Rightarrow> 'p manager may_panic" where
  "handle_etcd_machine_event env msg m =
     (case ee_event_type msg of
        Put \<Rightarrow>
          (case ee_spec_json msg of
             Some spec_json \<Rightarrow> handle_machine_put env (ee_machine_id msg) spec_json m
           | None \<Rightarrow> Inr m)
      | Delete \<Rightarrow> Inr (handle_machine_delete (ee_machine_id msg) m))"

text \<open>
  The body of the watch loop of \<^verbatim>\<open>spawn_machine_actor_manager_actor\<close>: the message sent to the manager
  for one watch event, if any.
\<close>

definition watch_message :: "watch_event \<Rightarrow> etcd_machine_event option" where
  "watch_message event =
     (case we_kv event of
        None \<Rightarrow> None
      | Some (key, value) \<Rightarrow>
          (case key of
             None \<Rightarrow> None
           | Some key \<Rightarrow>
               (let machine_id = (case strip_prefix key MACHINES_PREFIX of Some i \<Rightarrow> i | None \<Rightarrow> key)
                in case we_event_type event of
                     Event_Put \<Rightarrow> Some \<lparr>ee_machine_id = machine_id, ee_event_type = Put, ee_spec_json = value\<rparr>
                   | Event_Delete \<Rightarrow>
                       Some \<lparr>ee_machine_id = machine_id, ee_event_type = Delete, ee_spec_json = None\<rparr>)))"

text \<open>The messages of the manager; a panic in a handler ends the actor.\<close>

datatype mgr_msg =
    Rebalance_Actors
  | Etcd_Event etcd_machine_event
  | Sync_All_Machines "string + etcd_kv list"
  | Get_All_Statuses

fun mgr_handle :: "mgr_msg \<Rightarrow> 'p mgr_env \<Rightarrow> 'p manager \<Rightarrow> 'p manager may_panic" where
  "mgr_handle Rebalance_Actors env m = Inr (rebalance_actors env m)"
| "mgr_handle (Etcd_Event e) env m = handle_etcd_machine_event env e m"
| "mgr_handle (Sync_All_Machines resp) env m =
     and_then (handle_sync_all_machines env resp m) (\<lambda>(m, _). Inr m)"
| "mgr_handle Get_All_Statuses env m = Inr (fst (handle_get_all_machine_statuses env m))"

definition mgr_step :: "mgr_msg \<times> 'p mgr_env \<Rightarrow> 'p manager may_panic \<Rightarrow> 'p manager may_panic" where
  "mgr_step e r = and_then r (mgr_handle (fst e) (snd e))"

section \<open>Lemmas\<close>

lemma local_answer_sliceable:
  assumes "handle_lookup_machine nm i sc = Inr r" and "lk_is_local r"
  shows "sliceable nm (sc_local_peer_id sc)"
  using assms
  by (auto simp: handle_lookup_machine_def and_then_eq_Inr short_id_def slice_from_def sliceable_def
      Let_def split: option.splits if_splits)

text \<open>The invariant of the manager's tables between two messages.\<close>

definition mgr_ok :: "'p manager \<Rightarrow> bool" where
  "mgr_ok m \<longleftrightarrow>
     finite (dom (mg_machine_specs m)) \<and>
     dom (mg_actors m) \<subseteq> dom (mg_machine_specs m) \<and>
     dom (mg_restart_trackers m) = dom (mg_actors m) \<and>
     actor_gauge ''MachineActor'' (mg_obs m) = int (map_len (mg_actors m)) \<and>
     (\<forall>i a. mg_actors m i = Some a \<longrightarrow>
        ma_machine_id a = i \<and> ma_node_id a = mg_node_id m \<and> actor_ok a)"

lemma mgr_ok_finite_actors: "mgr_ok m \<Longrightarrow> finite (dom (mg_actors m))"
  by (auto simp: mgr_ok_def intro: finite_subset)

lemma mgr_ok_new: "mgr_ok (manager_new p n)"
  by (simp add: mgr_ok_def manager_new_def map_len_def)

lemma with_node_id_Inr:
  "with_node_id from_str now i j n = Inr a \<longleftrightarrow>
     (\<exists>s. from_str j = Inr s \<and> a = with_spec_and_node_id now i s n)"
  by (auto simp: with_node_id_def and_then_eq_Inr with_spec_and_node_id_def)

lemma stop_machine_actor_frame [simp]:
  "mg_machine_specs (stop_machine_actor i r m) = mg_machine_specs m"
  "mg_actors (stop_machine_actor i r m) = (mg_actors m)(i := None)"
  "mg_node_id (stop_machine_actor i r m) = mg_node_id m"
  "mg_local_peer_id (stop_machine_actor i r m) = mg_local_peer_id m"
  "mg_restart_policy (stop_machine_actor i r m) = mg_restart_policy m"
  by (auto simp: stop_machine_actor_def split: option.splits)

lemma spawn_machine_actor_frame [simp]:
  "mg_machine_specs (spawn_machine_actor env i j m) = mg_machine_specs m"
  "mg_node_id (spawn_machine_actor env i j m) = mg_node_id m"
  "mg_local_peer_id (spawn_machine_actor env i j m) = mg_local_peer_id m"
  "mg_restart_policy (spawn_machine_actor env i j m) = mg_restart_policy m"
  by (auto simp: spawn_machine_actor_def split: sum.splits)

text \<open>The actor that a spawn creates, if the spec parses.\<close>

definition fresh_actor :: "'p mgr_env \<Rightarrow> string \<Rightarrow> string \<Rightarrow> string \<Rightarrow> machine_actor option" where
  "fresh_actor env node_id i j =
     (case me_from_str env j of
        Inr s \<Rightarrow> Some (with_spec_and_node_id (me_clock env i) i s node_id)
      | Inl _ \<Rightarrow> None)"

lemma spawn_machine_actor_actors:
  "mg_actors (spawn_machine_actor env i j m) =
     (case fresh_actor env (mg_node_id m) i j of
        Some a \<Rightarrow> (mg_actors m)(i \<mapsto> a) | None \<Rightarrow> mg_actors m)"
  by (auto simp: spawn_machine_actor_def fresh_actor_def with_node_id_def with_spec_and_node_id_def
      split: sum.splits)

lemma mgr_ok_stop [inv_intros]: "mgr_ok m \<Longrightarrow> mgr_ok (stop_machine_actor i r m)"
proof (cases "mg_actors m i")
  case None
  then show "mgr_ok m \<Longrightarrow> ?thesis" by (simp add: stop_machine_actor_def)
next
  case (Some a)
  assume ok: "mgr_ok m"
  have "0 < map_len (mg_actors m)"
    using Some by (intro map_len_pos mgr_ok_finite_actors ok) auto
  then have "int (map_len ((mg_actors m)(i := None))) = int (map_len (mg_actors m)) - 1"
    using map_len_remove [OF mgr_ok_finite_actors [OF ok] domI [of "mg_actors m" i a]] Some
    by (simp add: of_nat_diff)
  with ok Some show ?thesis
    by (auto simp: mgr_ok_def stop_machine_actor_def)
qed

lemma mgr_ok_spawn [inv_intros]:
  assumes "mgr_ok m" and "mg_actors m i = None" and "i \<in> dom (mg_machine_specs m)"
  shows "mgr_ok (spawn_machine_actor env i j m)"
proof -
  have "map_len ((mg_actors m)(i \<mapsto> a)) = Suc (map_len (mg_actors m))" for a
    using assms(2) by (intro map_len_insert_new mgr_ok_finite_actors assms(1)) auto
  with assms show ?thesis
    by (auto simp: mgr_ok_def spawn_machine_actor_def with_node_id_Inr actor_ok_new
        split: sum.splits) (simp_all add: with_spec_and_node_id_def)
qed


lemma mgr_ok_update_actor [inv_intros]:
  assumes "mgr_ok m" and "mg_actors m i = Some a"
    and "ma_machine_id a' = ma_machine_id a" and "ma_node_id a' = ma_node_id a" and "actor_ok a'"
    and "actor_gauge ''MachineActor'' o' = actor_gauge ''MachineActor'' (mg_obs m)"
  shows "mgr_ok (m\<lparr>mg_actors := (mg_actors m)(i \<mapsto> a'), mg_obs := o'\<rparr>)"
  using assms map_len_insert_old [OF domI [of "mg_actors m" i a], of a'] by (auto simp: mgr_ok_def)

lemma mgr_ok_add_spec [inv_intros]:
  "mgr_ok m \<Longrightarrow> mgr_ok (m\<lparr>mg_machine_specs := (mg_machine_specs m)(i \<mapsto> j)\<rparr>)"
  by (auto simp: mgr_ok_def)

lemma mgr_ok_emit [inv_intros]: "mgr_ok m \<Longrightarrow> mgr_ok (m\<lparr>mg_obs := emit e (mg_obs m)\<rparr>)"
  by (simp add: mgr_ok_def)

lemma update_spec_keeps:
  assumes "actor_ok a"
  shows "actor_ok (fst (handle_update_machine_spec f j a))"
    and "ma_machine_id (fst (handle_update_machine_spec f j a)) = ma_machine_id a"
    and "ma_node_id (fst (handle_update_machine_spec f j a)) = ma_node_id a"
    and "ma_current_booking (fst (handle_update_machine_spec f j a)) = ma_current_booking a"
    and "ma_state (fst (handle_update_machine_spec f j a)) = ma_state a"
  using assms
  by (auto simp: handle_update_machine_spec_def actor_ok_def split: sum.splits machine_state.splits)

lemma mgr_ok_put [inv_intros]:
  assumes ok: "mgr_ok m" and put: "handle_machine_put env i j m = Inr m'"
  shows "mgr_ok m'"
proof -
  let ?m = "m\<lparr>mg_machine_specs := (mg_machine_specs m)(i \<mapsto> j)\<rparr>"
  have m: "mgr_ok ?m" by (rule mgr_ok_add_spec [OF ok])
  have upd: "mgr_ok (?m\<lparr>mg_actors := (mg_actors m)(i \<mapsto> fst (handle_update_machine_spec f j a))\<rparr>)"
    if "mg_actors m i = Some a" for a f
  proof -
    have "actor_ok a" using ok that by (auto simp: mgr_ok_def)
    from mgr_ok_update_actor [OF m, of i a _ "mg_obs m"] update_spec_keeps [OF this] that
    show ?thesis by simp
  qed
  have spawn: "mgr_ok (spawn_machine_actor env i j ?m)" if "mg_actors m i = None"
    using that by (intro mgr_ok_spawn m) auto
  have transfer: "mgr_ok (stop_machine_actor i r (?m\<lparr>mg_obs := emit e (mg_obs m)\<rparr>))" for r e
    using mgr_ok_stop [OF mgr_ok_emit [OF m]] by simp
  from put m upd spawn transfer show ?thesis
    by (auto simp: handle_machine_put_def Let_def and_then_eq_Inr split: option.splits if_splits)
qed


lemma mgr_ok_puts [inv_intros]: "mgr_ok m \<Longrightarrow> handle_puts env ps m = Inr m' \<Longrightarrow> mgr_ok m'"
  by (induction env ps m rule: handle_puts.induct) (auto simp: and_then_eq_Inr intro: mgr_ok_put)

lemma handle_machine_delete_alt:
  "handle_machine_delete i m =
     (stop_machine_actor i ''machine_deleted'' m)
       \<lparr>mg_machine_specs := (mg_machine_specs m)(i := None)\<rparr>"
  by (auto simp: handle_machine_delete_def stop_machine_actor_def Let_def split: option.splits)

lemma mgr_ok_delete [inv_intros]: "mgr_ok m \<Longrightarrow> mgr_ok (handle_machine_delete i m)"
  using mgr_ok_stop [of m i "''machine_deleted''"]
  by (auto simp: handle_machine_delete_alt mgr_ok_def)

lemma mgr_ok_statuses [inv_intros]:
  "mgr_ok m \<Longrightarrow> mgr_ok (fst (collect_statuses env ids m))"
proof (induction ids arbitrary: m)
  case Nil
  then show ?case by simp
next
  case (Cons i ids)
  have gauge: "actor_gauge x (fold emit ev o') = actor_gauge x o'" for x ev o'
    by (induction ev arbitrary: o') simp_all
  show ?case
  proof (cases "mg_actors m i")
    case None
    with Cons show ?thesis by simp
  next
    case (Some a)
    obtain a' ev st where h: "handle_get_machine_status (me_clock env i) a = (a', ev, st)"
      by (cases "handle_get_machine_status (me_clock env i) a")
    have "actor_ok a" using Cons.prems Some by (auto simp: mgr_ok_def)
    then have "actor_ok a' \<and> ma_machine_id a' = ma_machine_id a \<and> ma_node_id a' = ma_node_id a"
      using h by (auto simp: actor_handler_defs actor_ok_def split: if_splits machine_state.splits)
    with Cons.prems Some
    have "mgr_ok (m\<lparr>mg_actors := (mg_actors m)(i \<mapsto> a'), mg_obs := fold emit ev (mg_obs m)\<rparr>)"
      by (intro mgr_ok_update_actor [of m i a]) (simp_all add: gauge)
    with Cons Some h show ?thesis by (simp add: Let_def case_prod_beta)
  qed
qed

subsection \<open>Rebalancing\<close>

text \<open>What the scan collects, machine by machine.\<close>

definition must_stop :: "'p mgr_env \<Rightarrow> 'p manager \<Rightarrow> string \<Rightarrow> bool" where
  "must_stop env m i \<longleftrightarrow>
     (case me_ask_sharding env i of
        Some r \<Rightarrow> \<not> lk_is_local r \<and> mg_actors m i \<noteq> None | None \<Rightarrow> False)"

definition must_spawn :: "'p mgr_env \<Rightarrow> 'p manager \<Rightarrow> string \<Rightarrow> string option" where
  "must_spawn env m i =
     (case me_ask_sharding env i of
        Some r \<Rightarrow> if lk_is_local r \<and> mg_actors m i = None then mg_machine_specs m i else None
      | None \<Rightarrow> None)"

definition spawn_list :: "'p mgr_env \<Rightarrow> 'p manager \<Rightarrow> string list \<Rightarrow> (string \<times> string) list" where
  "spawn_list env m ids = List.map_filter (\<lambda>i. map_option (Pair i) (must_spawn env m i)) ids"

lemma rebalance_scan_eq:
  "rebalance_scan env m ids (to_stop, to_spawn) =
     (to_stop @ filter (must_stop env m) ids, to_spawn @ spawn_list env m ids)"
  by (induction ids arbitrary: to_stop to_spawn)
    (auto simp: must_stop_def must_spawn_def spawn_list_def map_filter_simps Let_def
      split: option.splits)

lemma map_of_spawn_list:
  "map_of (spawn_list env m ids) i = (if i \<in> set ids then must_spawn env m i else None)"
  by (induction ids) (auto simp: spawn_list_def map_filter_simps split: option.splits)

lemma set_fst_spawn_list: "fst ` set (spawn_list env m ids) \<subseteq> set ids"
  by (auto simp: spawn_list_def List.map_filter_def)

lemma distinct_spawn_list: "distinct ids \<Longrightarrow> distinct (map fst (spawn_list env m ids))"
proof (induction ids)
  case Nil
  then show ?case by (simp add: spawn_list_def map_filter_simps)
next
  case (Cons i ids)
  have "i \<notin> fst ` set (spawn_list env m ids)"
    using Cons.prems set_fst_spawn_list [of env m ids] by auto
  with Cons show ?case
    by (auto simp: spawn_list_def map_filter_simps split: option.splits)
qed

definition stop_all :: "string list \<Rightarrow> 'p manager \<Rightarrow> 'p manager" where
  "stop_all = fold (\<lambda>i. stop_machine_actor i ''topology_rebalance'')"

definition spawn_all :: "'p mgr_env \<Rightarrow> (string \<times> string) list \<Rightarrow> 'p manager \<Rightarrow> 'p manager" where
  "spawn_all env = fold (\<lambda>(i, j). spawn_machine_actor env i j)"

lemma rebalance_actors_alt:
  "rebalance_actors env m =
     (let ids = me_keys env (dom (mg_machine_specs m))
      in spawn_all env (spawn_list env m ids) (stop_all (filter (must_stop env m) ids) m))"
  by (simp add: rebalance_actors_def rebalance_scan_eq Let_def stop_all_def spawn_all_def)

lemma stop_all_frame:
  "mg_machine_specs (stop_all ids m) = mg_machine_specs m"
  "mg_node_id (stop_all ids m) = mg_node_id m"
  "mg_local_peer_id (stop_all ids m) = mg_local_peer_id m"
  "mg_actors (stop_all ids m) = (\<lambda>i. if i \<in> set ids then None else mg_actors m i)"
  by (induction ids arbitrary: m) (auto simp: stop_all_def)

lemma mgr_ok_stop_all: "mgr_ok m \<Longrightarrow> mgr_ok (stop_all ids m)"
  by (induction ids arbitrary: m) (simp_all add: stop_all_def mgr_ok_stop)

lemma spawn_all_frame:
  "mg_machine_specs (spawn_all env ps m) = mg_machine_specs m"
  "mg_node_id (spawn_all env ps m) = mg_node_id m"
  "mg_local_peer_id (spawn_all env ps m) = mg_local_peer_id m"
  by (induction ps arbitrary: m) (auto simp: spawn_all_def)

lemma spawn_all_actors:
  "distinct (map fst ps) \<Longrightarrow>
     mg_actors (spawn_all env ps m) i =
       (case Option.bind (map_of ps i) (fresh_actor env (mg_node_id m) i) of
          Some a \<Rightarrow> Some a | None \<Rightarrow> mg_actors m i)"
proof (induction ps arbitrary: m)
  case Nil
  then show ?case by (simp add: spawn_all_def)
next
  case (Cons p ps)
  obtain k j where p: "p = (k, j)" by (cases p)
  have "map_of ps k = None"
    using Cons.prems by (simp add: p map_of_eq_None_iff)
  with Cons p show ?case
    by (auto simp: spawn_all_def spawn_machine_actor_actors split: option.splits)
qed

lemma mgr_ok_spawn_all:
  "mgr_ok m \<Longrightarrow> distinct (map fst ps) \<Longrightarrow>
   (\<And>i j. (i, j) \<in> set ps \<Longrightarrow> mg_actors m i = None \<and> i \<in> dom (mg_machine_specs m)) \<Longrightarrow>
   mgr_ok (spawn_all env ps m)"
proof (induction ps arbitrary: m)
  case Nil
  then show ?case by (simp add: spawn_all_def)
next
  case (Cons p ps)
  obtain k j where p: "p = (k, j)" by (cases p)
  let ?m = "spawn_machine_actor env k j m"
  have k: "mg_actors m k = None \<and> k \<in> dom (mg_machine_specs m)"
    using Cons.prems(3) [of k j] by (simp add: p)
  have "mg_actors ?m i = None \<and> i \<in> dom (mg_machine_specs ?m)" if "(i, j') \<in> set ps" for i j'
  proof -
    have "i \<noteq> k" using Cons.prems(2) that by (auto simp: p rev_image_eqI)
    moreover have "mg_actors m i = None \<and> i \<in> dom (mg_machine_specs m)"
      using Cons.prems(3) [of i j'] that by simp
    ultimately show ?thesis by (simp add: spawn_machine_actor_actors split: option.split)
  qed
  moreover have "mgr_ok ?m" using Cons.prems(1) k by (intro mgr_ok_spawn) simp_all
  moreover have "distinct (map fst ps)" using Cons.prems(2) by simp
  ultimately have "mgr_ok (spawn_all env ps ?m)" by (intro Cons.IH)
  then show ?case by (simp add: spawn_all_def p)
qed


text \<open>The actor that a machine ends up with after a rebalance.\<close>

definition settled :: "'p mgr_env \<Rightarrow> 'p manager \<Rightarrow> string \<Rightarrow> machine_actor option" where
  "settled env m i =
     (case (me_ask_sharding env i, mg_machine_specs m i) of
        (Some r, Some j) \<Rightarrow>
          if lk_is_local r then
            (case mg_actors m i of Some a \<Rightarrow> Some a | None \<Rightarrow> fresh_actor env (mg_node_id m) i j)
          else None
      | _ \<Rightarrow> mg_actors m i)"

lemma rebalance_actors_frame:
  "mg_machine_specs (rebalance_actors env m) = mg_machine_specs m"
  "mg_node_id (rebalance_actors env m) = mg_node_id m"
  "mg_local_peer_id (rebalance_actors env m) = mg_local_peer_id m"
  by (simp_all add: rebalance_actors_alt Let_def stop_all_frame spawn_all_frame)

lemma rebalance_actors_settled:
  assumes ok: "mgr_ok m" and ord: "iteration_order (me_keys env)"
  shows "mg_actors (rebalance_actors env m) i = settled env m i"
proof -
  let ?ids = "me_keys env (dom (mg_machine_specs m))"
  have fin: "finite (dom (mg_machine_specs m))" and sub: "dom (mg_actors m) \<subseteq> dom (mg_machine_specs m)"
    using ok by (auto simp: mgr_ok_def)
  note ids = iteration_orderD [OF ord fin]
  show ?thesis
    using sub
    by (auto simp: rebalance_actors_alt Let_def spawn_all_actors distinct_spawn_list ids
        map_of_spawn_list stop_all_frame settled_def must_stop_def must_spawn_def fresh_actor_def
        split: option.splits sum.splits)
qed

lemma mgr_ok_rebalance [inv_intros]:
  assumes ok: "mgr_ok m" and ord: "iteration_order (me_keys env)"
  shows "mgr_ok (rebalance_actors env m)"
proof -
  let ?ids = "me_keys env (dom (mg_machine_specs m))"
  have "finite (dom (mg_machine_specs m))" using ok by (auto simp: mgr_ok_def)
  note ids = iteration_orderD [OF ord this]
  have "mg_actors m i = None \<and> i \<in> dom (mg_machine_specs m)"
    if "(i, j) \<in> set (spawn_list env m ?ids)" for i j
    using that
    by (auto simp: spawn_list_def List.map_filter_def must_spawn_def split: option.splits if_splits)
  then show ?thesis
    unfolding rebalance_actors_alt Let_def
    by (intro mgr_ok_spawn_all mgr_ok_stop_all ok distinct_spawn_list ids)
      (auto simp: stop_all_frame)
qed

lemma mgr_ok_handle:
  assumes "iteration_order (me_keys env)" and "mgr_ok m" and "mgr_handle msg env m = Inr m'"
  shows "mgr_ok m'"
  using assms
  by (cases msg)
    (auto simp: handle_etcd_machine_event_def handle_sync_all_machines_def sync_all_machines_def
      handle_get_all_machine_statuses_def and_then_eq_Inr intro: inv_intros
      split: etcd_event_type.splits option.splits sum.splits)

definition mgr_run_ok :: "'p manager may_panic \<Rightarrow> bool" where
  "mgr_run_ok r \<longleftrightarrow> (case r of Inr m \<Rightarrow> mgr_ok m | Inl _ \<Rightarrow> True)"

interpretation manager: invariant_step mgr_step "\<lambda>e. iteration_order (me_keys (snd e))" mgr_run_ok
  by unfold_locales
    (auto simp: mgr_run_ok_def mgr_step_def and_then_eq_Inr dest: mgr_ok_handle split: sum.splits)


definition owned :: "'p mgr_env \<Rightarrow> string \<Rightarrow> bool" where
  "owned env i \<longleftrightarrow> (case me_ask_sharding env i of Some r \<Rightarrow> lk_is_local r | None \<Rightarrow> False)"

definition all_answered :: "'p mgr_env \<Rightarrow> string set \<Rightarrow> bool" where
  "all_answered env S \<longleftrightarrow> (\<forall>i\<in>S. me_ask_sharding env i \<noteq> None)"

definition parses :: "'p mgr_env \<Rightarrow> string \<Rightarrow> bool" where
  "parses env j \<longleftrightarrow> (case me_from_str env j of Inr _ \<Rightarrow> True | Inl _ \<Rightarrow> False)"

lemma fresh_actor_parses: "parses env j \<Longrightarrow> \<exists>a. fresh_actor env n i j = Some a"
  by (auto simp: parses_def fresh_actor_def split: sum.splits)

lemma settled_dom:
  assumes "mgr_ok m" and "all_answered env (dom (mg_machine_specs m))"
    and "\<And>i j. mg_machine_specs m i = Some j \<Longrightarrow> parses env j"
  shows "settled env m i \<noteq> None \<longleftrightarrow> i \<in> dom (mg_machine_specs m) \<and> owned env i"
proof (cases "mg_machine_specs m i")
  case None
  with assms(1) have "mg_actors m i = None" by (auto simp: mgr_ok_def)
  with None show ?thesis by (auto simp: settled_def split: option.splits)
next
  case (Some j)
  obtain a where "fresh_actor env (mg_node_id m) i j = Some a"
    using fresh_actor_parses assms(3) [OF Some] by blast
  moreover obtain r where "me_ask_sharding env i = Some r"
    using assms(2) Some by (auto simp: all_answered_def)
  ultimately show ?thesis using Some by (auto simp: settled_def owned_def split: option.split)
qed

lemma rebalance_stable:
  assumes "\<And>i. \<not> must_stop env m i" and "\<And>i. must_spawn env m i = None"
  shows "rebalance_actors env m = m"
  using assms
  by (simp add: rebalance_actors_alt spawn_list_def stop_all_def spawn_all_def List.map_filter_def Let_def)

lemma handle_put_effect:
  assumes "handle_machine_put env i j m = Inr m'"
  shows "mg_machine_specs m' = (mg_machine_specs m)(i \<mapsto> j) \<and>
    mg_actors m' = (mg_actors m)(i :=
      (case me_ask_sharding env i of
         None \<Rightarrow> mg_actors m i
       | Some r \<Rightarrow>
           if lk_is_local r then
             (case mg_actors m i of
                None \<Rightarrow> fresh_actor env (mg_node_id m) i j
              | Some a \<Rightarrow>
                  (case me_from_str env j of
                     Inr s \<Rightarrow> Some (if me_ask_actor env i then a\<lparr>ma_spec := s\<rparr> else a)
                   | Inl _ \<Rightarrow> Some a))
           else None))"
  using assms
  by (auto simp: handle_machine_put_def Let_def and_then_eq_Inr spawn_machine_actor_actors
      handle_update_machine_spec_def fun_eq_iff split: option.splits if_splits sum.splits)

lemma handle_put_owned:
  assumes r: "me_ask_sharding env i = Some r" and own: "i \<in> dom (mg_actors m) \<Longrightarrow> owned env i"
    and a: "fresh_actor env (mg_node_id m) i j = Some a"
  shows "\<exists>m1. handle_machine_put env i j m = Inr m1 \<and>
    mg_machine_specs m1 = (mg_machine_specs m)(i \<mapsto> j) \<and>
    dom (mg_actors m1) = dom (mg_actors m) \<union> (if owned env i then {i} else {})"
proof (cases "mg_actors m i")
  case None
  with r a show ?thesis
    by (simp add: handle_machine_put_def owned_def spawn_machine_actor_actors)
next
  case (Some b)
  with own r have "lk_is_local r" by (auto simp: owned_def)
  with r Some show ?thesis
    by (cases "me_ask_actor env i")
      (simp_all add: handle_machine_put_def owned_def Let_def insert_absorb domI)
qed

lemma handle_puts_owned:
  assumes "\<And>i. i \<in> dom (mg_actors m) \<Longrightarrow> owned env i"
    and "all_answered env (fst ` set ps)" and "\<And>i j. (i, j) \<in> set ps \<Longrightarrow> parses env j"
  shows "\<exists>m'. handle_puts env ps m = Inr m' \<and>
    mg_machine_specs m' = mg_machine_specs m ++ map_of (rev ps) \<and>
    dom (mg_actors m') = dom (mg_actors m) \<union> {i \<in> fst ` set ps. owned env i}"
  using assms
proof (induction ps arbitrary: m)
  case Nil
  then show ?case by simp
next
  case (Cons p ps)
  obtain i j where p: "p = (i, j)" by (cases p)
  obtain r where r: "me_ask_sharding env i = Some r"
    using Cons.prems(2) by (auto simp: p all_answered_def)
  obtain a where a: "fresh_actor env (mg_node_id m) i j = Some a"
    using fresh_actor_parses [of env j] Cons.prems(3) [of i j] by (auto simp: p)
  obtain m1 where m1: "handle_machine_put env i j m = Inr m1"
      "mg_machine_specs m1 = (mg_machine_specs m)(i \<mapsto> j)"
      "dom (mg_actors m1) = dom (mg_actors m) \<union> (if owned env i then {i} else {})"
    using handle_put_owned [OF r _ a] Cons.prems(1) [of i] by auto
  have "\<exists>m'. handle_puts env ps m1 = Inr m' \<and>
      mg_machine_specs m' = mg_machine_specs m1 ++ map_of (rev ps) \<and>
      dom (mg_actors m') = dom (mg_actors m1) \<union> {i \<in> fst ` set ps. owned env i}"
    using Cons.prems m1(3) by (intro Cons.IH) (auto simp: all_answered_def split: if_splits)
  with m1 show ?case by (auto simp: p)
qed

lemma failure_restarts:
  assumes "mg_restart_trackers m i = Some (restart_tracker_new (mg_restart_policy m))"
    and "0 < rp_max_restarts (mg_restart_policy m)"
    and "mg_machine_specs m i = Some j" and "me_from_str env j = Inr s"
  shows "handle_actor_failure now env i err m =
    m\<lparr>mg_actors := (mg_actors m)(i \<mapsto> with_spec_and_node_id (me_clock env i) i s (mg_node_id m)),
      mg_restart_trackers := (mg_restart_trackers m)(i \<mapsto> restart_tracker_new (mg_restart_policy m)),
      mg_obs := emit (Actor_Spawned ''MachineActor'' i (mg_node_id m))
        (measure_obs (record_actor_spawned ''MachineActor'')
          (emit (Actor_Panicked ''MachineActor'' i err (mg_node_id m) True) (mg_obs m)))\<rparr>"
proof -
  have "\<not> unat (rp_max_restarts (mg_restart_policy m)) \<le> 0"
    using assms(2) by (simp add: unat_gt_0 word_gt_0)
  with assms show ?thesis
    by (simp add: handle_actor_failure_def record_restart_def restart_tracker_new_def Let_def
        spawn_machine_actor_def with_node_id_def with_spec_and_node_id_def)
qed


section \<open>Properties\<close>

definition sample_env :: "string mgr_env" where
  "sample_env =
     \<lparr>me_naming = sample_naming, me_from_str = (\<lambda>_. Inr sample_spec),
      me_ask_sharding =
        (\<lambda>i. Some \<lparr>lk_machine_id = i, lk_owner_peer = Some ''p'', lk_is_local = True\<rparr>),
      me_ask_actor = (\<lambda>_. True), me_clock = (\<lambda>_. 0), me_keys = sorted_list_of_set\<rparr>"

definition sample_manager :: "string manager" where
  "sample_manager =
     (manager_new ''p'' ''n'')\<lparr>mg_machine_specs := [''m1'' \<mapsto> ''{}'']\<rparr>"

lemma mgr_ok_sample: "mgr_ok sample_manager"
  unfolding sample_manager_def
  using mgr_ok_add_spec [OF mgr_ok_new, of "''p''" "''n''" "''m1''" "''{}''"]
  by (simp add: manager_new_def)

lemma iteration_order_sample: "iteration_order (me_keys sample_env)"
  by (simp add: sample_env_def iteration_order_sorted)

text \<open>
  C10. Invariant of the manager: after any sequence of messages (watch events, syncs, rebalances, status
  queries, each with arbitrary answers of the coordinator and of the actors) that no handler panicked
  on, every running actor belongs to a cached spec and has a restart tracker and conversely, carries
  its own machine's identifier and this node's name and is in a consistent booking state, and the
  exported gauge \<^verbatim>\<open>neolaas_actor_count\<close> equals the number of running actors.
\<close>

theorem manager_run_invariant:
  assumes "list_all (\<lambda>e. iteration_order (me_keys (snd e))) es"
    and "fold mgr_step es (Inr (manager_new p n)) = Inr m"
  shows "mgr_ok m"
  using manager.run_inv [OF assms(1), of "Inr (manager_new p n)"] assms(2)
  by (simp add: mgr_run_ok_def mgr_ok_new)

theorem manager_run_invariant_witness:
  "\<exists>m. fold mgr_step
          [(Etcd_Event \<lparr>ee_machine_id = ''m1'', ee_event_type = Put, ee_spec_json = Some ''{}''\<rparr>, sample_env)]
          (Inr (manager_new ''p'' ''n'')) = Inr m
       \<and> mg_actors m ''m1'' \<noteq> None \<and> mgr_ok m"
proof -
  let ?es = "[(Etcd_Event \<lparr>ee_machine_id = ''m1'', ee_event_type = Put, ee_spec_json = Some ''{}''\<rparr>, sample_env)]"
  have "fold mgr_step ?es (Inr (manager_new ''p'' ''n'')) =
      Inr (spawn_machine_actor sample_env ''m1'' ''{}'' sample_manager)"
    by (simp add: mgr_step_def handle_etcd_machine_event_def handle_machine_put_def sample_env_def
        manager_new_def sample_manager_def)
  moreover have "mg_actors (spawn_machine_actor sample_env ''m1'' ''{}'' sample_manager) ''m1'' \<noteq> None"
    by (simp add: spawn_machine_actor_actors fresh_actor_def sample_env_def)
  moreover have "list_all (\<lambda>e. iteration_order (me_keys (snd e))) ?es"
    by (simp add: iteration_order_sample)
  ultimately show ?thesis by (intro exI conjI) (assumption+, rule manager_run_invariant)
qed

text \<open>
  C9. Rebalancing reaches the ownership the coordinator prescribes: when every lookup is answered and
  every cached spec parses, afterwards an actor runs for a machine exactly when the machine is cached
  and locally owned; an actor that stays keeps its state (and its booking); the cached specs are
  unchanged; and a second rebalance under the same answers changes nothing. The order in which the
  machines are visited does not matter.
\<close>

theorem rebalance_reaches_ownership:
  assumes "mgr_ok m" and "iteration_order (me_keys env)"
    and "all_answered env (dom (mg_machine_specs m))"
    and "\<And>i j. mg_machine_specs m i = Some j \<Longrightarrow> parses env j"
  shows "dom (mg_actors (rebalance_actors env m)) = {i \<in> dom (mg_machine_specs m). owned env i} \<and>
    (\<forall>i a. mg_actors m i = Some a \<and> owned env i \<longrightarrow>
       mg_actors (rebalance_actors env m) i = Some a) \<and>
    mg_machine_specs (rebalance_actors env m) = mg_machine_specs m \<and>
    rebalance_actors env (rebalance_actors env m) = rebalance_actors env m"
proof -
  let ?m = "rebalance_actors env m"
  note settled = rebalance_actors_settled [OF assms(1,2)]
  have dom: "mg_actors ?m i \<noteq> None \<longleftrightarrow> i \<in> dom (mg_machine_specs m) \<and> owned env i" for i
    using settled_dom [OF assms(1,3,4)] by (simp add: settled)
  have "\<not> must_stop env ?m i" and "must_spawn env ?m i = None" for i
    using dom [of i]
    by (auto simp: must_stop_def must_spawn_def owned_def rebalance_actors_frame split: option.splits)
  then have "rebalance_actors env ?m = ?m" by (rule rebalance_stable)
  moreover have "mg_actors ?m i = Some a" if "mg_actors m i = Some a \<and> owned env i" for i a
    using that by (auto simp: settled settled_def owned_def split: option.splits)
  moreover have "dom (mg_actors ?m) = {i \<in> dom (mg_machine_specs m). owned env i}"
    unfolding dom_def [of "mg_actors ?m"] dom by simp
  ultimately show ?thesis by (simp add: rebalance_actors_frame)
qed

theorem rebalance_reaches_ownership_witness:
  "dom (mg_actors (rebalance_actors sample_env sample_manager)) = {''m1''}"
proof -
  have "dom (mg_actors (rebalance_actors sample_env sample_manager)) =
      {i \<in> dom (mg_machine_specs sample_manager). owned sample_env i}"
    using rebalance_reaches_ownership [OF mgr_ok_sample iteration_order_sample]
    by (simp add: all_answered_def parses_def sample_env_def)
  then show ?thesis by (auto simp: sample_manager_def owned_def sample_env_def)
qed

text \<open>
  C15. A put event, on every branch that returns: the spec is cached; no other machine's actor is
  touched; and the machine itself keeps its actor when the coordinator does not answer, gets a fresh
  actor when it is locally owned and has none (unless the spec does not parse), keeps its actor with
  only the spec replaced when it has one (unless the actor is unreachable or the spec does not parse),
  and has no actor when it is owned elsewhere.
\<close>

theorem put_behaviour:
  assumes "handle_machine_put env i j m = Inr m'"
  shows "mg_machine_specs m' = (mg_machine_specs m)(i \<mapsto> j) \<and>
    mg_actors m' = (mg_actors m)(i :=
      (case me_ask_sharding env i of
         None \<Rightarrow> mg_actors m i
       | Some r \<Rightarrow>
           if lk_is_local r then
             (case mg_actors m i of
                None \<Rightarrow> fresh_actor env (mg_node_id m) i j
              | Some a \<Rightarrow>
                  (case me_from_str env j of
                     Inr s \<Rightarrow> Some (if me_ask_actor env i then a\<lparr>ma_spec := s\<rparr> else a)
                   | Inl _ \<Rightarrow> Some a))
           else None))"
  using assms by (rule handle_put_effect)

theorem put_behaviour_witness:
  "\<exists>m'. handle_machine_put sample_env ''m2'' ''{}'' sample_manager = Inr m' \<and>
     mg_actors m' = [''m2'' \<mapsto> with_spec_and_node_id 0 ''m2'' sample_spec ''n'']"
proof -
  obtain m' where m': "handle_machine_put sample_env ''m2'' ''{}'' sample_manager = Inr m'"
    by (simp add: handle_machine_put_def sample_env_def sample_manager_def manager_new_def)
  from put_behaviour [OF this] m' show ?thesis
    by (simp add: sample_env_def sample_manager_def manager_new_def fresh_actor_def)
qed


text \<open>
  A delete event forgets exactly one machine: its spec, its actor and its restart tracker are
  gone, every other machine is untouched, and the stop is counted and logged when, and only when, an
  actor was running.
\<close>

lemma delete_behaviour:
  assumes "mgr_ok m"
  shows "mg_machine_specs (handle_machine_delete i m) = (mg_machine_specs m)(i := None) \<and>
    mg_actors (handle_machine_delete i m) = (mg_actors m)(i := None) \<and>
    mg_restart_trackers (handle_machine_delete i m) = (mg_restart_trackers m)(i := None) \<and>
    obs_events (mg_obs (handle_machine_delete i m)) = obs_events (mg_obs m) @
      (if mg_actors m i = None then []
       else [Actor_Stopped ''MachineActor'' i ''machine_deleted'' (mg_node_id m)])"
proof -
  have "dom (mg_restart_trackers m) = dom (mg_actors m)"
    using assms by (simp add: mgr_ok_def)
  then have "mg_actors m i = None \<Longrightarrow> (mg_restart_trackers m)(i := None) = mg_restart_trackers m"
    by (intro fun_upd_idem) (metis domIff)
  then show ?thesis
    by (auto simp: handle_machine_delete_alt stop_machine_actor_def split: option.split)
qed

text \<open>
  The initial sync: on a manager that runs no actor, with an etcd response whose keys all carry the
  machines prefix, with all lookups answered and all specs parsing, the sync does not panic, caches for
  every machine its last listed spec, runs actors for exactly the listed machines that are locally
  owned, and replies with the two counts.
\<close>

lemma initial_sync_complete:
  assumes "mg_actors m = Map.empty" and "mg_machine_specs m = Map.empty"
    and "all_answered env (fst ` set ps)" and "\<And>i j. (i, j) \<in> set ps \<Longrightarrow> parses env j"
  shows "\<exists>m'. handle_sync_all_machines env
        (Inr (map (\<lambda>(i, j). (Some (MACHINES_PREFIX @ i), Some j)) ps)) m =
      Inr (m', \<lparr>sr_total_machines = card (fst ` set ps),
               sr_local_actors = card {i \<in> fst ` set ps. owned env i}\<rparr>) \<and>
    mg_machine_specs m' = map_of (rev ps) \<and>
    dom (mg_actors m') = {i \<in> fst ` set ps. owned env i}"
proof -
  have "collect_machines (map (\<lambda>(i, j). (Some (MACHINES_PREFIX @ i), Some j)) ps) = Inr ps" for ps
    by (induction ps) (auto simp: Let_def)
  moreover obtain m' where "handle_puts env ps m = Inr m'"
      "mg_machine_specs m' = map_of (rev ps)" "dom (mg_actors m') = {i \<in> fst ` set ps. owned env i}"
    using handle_puts_owned [of m env ps] assms by auto
  moreover from this have "dom (mg_machine_specs m') = fst ` set ps"
    by (simp add: dom_map_of_conv_image_fst)
  ultimately show ?thesis
    by (simp add: handle_sync_all_machines_def sync_all_machines_def map_len_def)
qed

text \<open>
  The manager's own unguarded slice: a put for a machine that has a local actor, when the cluster
  has no owner for it (the coordinator's table is empty), panics on \<^verbatim>\<open>"unknown"[46..]\<close>, whatever the
  peer names are; the actor is not stopped.
\<close>

lemma put_panics_without_owner:
  assumes "mg_actors m i \<noteq> None" and "me_ask_sharding env i = Some r"
    and "lk_owner_peer r = None" and "\<not> lk_is_local r"
  shows "handle_machine_put env i j m = Inl Slice_Panic"
proof -
  have "slice_from ''unknown'' 46 = Inl Slice_Panic" by (simp add: slice_from_short)
  with assms show ?thesis
    by (cases "slice_from (nm_to_base58 (me_naming env) (mg_local_peer_id m)) 46")
      (auto simp: handle_machine_put_def Let_def slice_from_def split: if_splits)
qed

text \<open>
  C38. The restart limit of machine actors is never reached: a restart goes through
  \<^verbatim>\<open>spawn_machine_actor\<close>, which installs a fresh restart tracker, so after any number of failures at
  any instants the actor runs again and its tracker has recorded nothing, for every policy that allows
  at least one restart; and each restart leaves the exported actor gauge one higher, because the failed
  actor is never counted as stopped.
\<close>

theorem restart_limit_never_reached:
  assumes "mg_restart_trackers m i = Some (restart_tracker_new (mg_restart_policy m))"
    and "0 < rp_max_restarts (mg_restart_policy m)"
    and "mg_machine_specs m i = Some j" and "me_from_str env j = Inr s" and "mg_actors m i \<noteq> None"
    and "m' = fold (\<lambda>(now, err). handle_actor_failure now env i err) failures m"
  shows "mg_actors m' i \<noteq> None \<and>
    mg_restart_trackers m' i = Some (restart_tracker_new (mg_restart_policy m)) \<and>
    dom (mg_actors m') = dom (mg_actors m) \<and>
    actor_gauge ''MachineActor'' (mg_obs m') =
      actor_gauge ''MachineActor'' (mg_obs m) + int (length failures)"
  using assms
proof (induction failures arbitrary: m)
  case Nil
  then show ?case by simp
next
  case (Cons f failures)
  obtain now err where f: "f = (now, err)" by (cases f)
  have "insert i (dom (mg_actors m)) = dom (mg_actors m)"
    using Cons.prems(5) by auto
  with Cons.IH [of "handle_actor_failure now env i err m"] Cons.prems show ?case
    by (simp add: f failure_restarts [OF Cons.prems(1-4)]) (auto simp: dom_def)
qed

theorem restart_limit_never_reached_witness:
  "mg_actors (fold (\<lambda>(now, err). handle_actor_failure now sample_env ''m1'' err)
      [(0, ''e''), (1, ''e''), (2, ''e''), (3, ''e''), (4, ''e''), (5, ''e'')]
      (spawn_machine_actor sample_env ''m1'' ''{}'' sample_manager)) ''m1'' \<noteq> None"
proof -
  let ?m = "spawn_machine_actor sample_env ''m1'' ''{}'' sample_manager"
  have "mg_restart_trackers ?m ''m1'' = Some (restart_tracker_new (mg_restart_policy ?m))"
    and "0 < rp_max_restarts (mg_restart_policy ?m)"
    and "mg_machine_specs ?m ''m1'' = Some ''{}''" and "me_from_str sample_env ''{}'' = Inr sample_spec"
    and "mg_actors ?m ''m1'' \<noteq> None"
    by (simp_all add: spawn_machine_actor_def with_node_id_def sample_env_def sample_manager_def
        manager_new_def restart_policy_default_def)
  from restart_limit_never_reached [OF this refl] show ?thesis by blast
qed

end
