(* ===== verification/Operator.thy ===== *)
theory Operator
  imports Network_State Machine_Manager
begin

text \<open>
  The Kubernetes operator: \<^verbatim>\<open>crates/neolaas-operator/src/crds/\<close>, \<^verbatim>\<open>etcd/sync.rs\<close> and
  \<^verbatim>\<open>controllers/\<close>.

  The operator mirrors custom resources into etcd. The store is a map from keys to values. The answer
  of etcd to a request is an argument: an error may be reported although the request has been carried
  out, as when the answer is lost or late (\<open>Request_Failed e True\<close>); a request is carried out before its
  answer is given or not at all. \<^verbatim>\<open>serde_json::to_vec\<close> is a parameter.
  The \<^verbatim>\<open>finalizer\<close> helper of the kube crate decides whether a resource is to be applied or cleaned up and
  calls the closure of \<^verbatim>\<open>reconcile\<close> with that event, or returns without calling it (it has only added the
  finalizer, there is nothing left to do, or it has failed). Its decision is an argument, and so is what
  it returns after the closure: an error of the closure wrapped, or an error of its own, as when the
  finalizer cannot be removed after a cleanup.
\<close>

section \<open>Custom resources\<close>

datatype bmc_protocol = Redfish | Ipmi | Ilo | Idrac

fun show_bmc_protocol :: "bmc_protocol \<Rightarrow> string" where
  "show_bmc_protocol Redfish = ''redfish''"
| "show_bmc_protocol Ipmi = ''ipmi''"
| "show_bmc_protocol Ilo = ''ilo''"
| "show_bmc_protocol Idrac = ''idrac''"

datatype admin_state = Available | Maintenance | Reserved | Decommissioned

fun show_admin_state :: "admin_state \<Rightarrow> string" where
  "show_admin_state Available = ''available''"
| "show_admin_state Maintenance = ''maintenance''"
| "show_admin_state Reserved = ''reserved''"
| "show_admin_state Decommissioned = ''decommissioned''"

definition is_bookable :: "admin_state \<Rightarrow> bool" where
  "is_bookable s = (case s of Available \<Rightarrow> True | Reserved \<Rightarrow> True | _ \<Rightarrow> False)"

record switch_port_ref =
  sp_switch :: string
  sp_port :: string

record network_interface =
  ni_mac :: "48 word"
  ni_switch_port :: switch_port_ref
  ni_pxe :: bool

record bmc_config =
  bmc_address :: ip_addr
  bmc_prot :: bmc_protocol
  bmc_credentials_secret :: string
  bmc_in_band :: bool

record machine_resource_spec =
  mr_interfaces :: "network_interface list"
  mr_bmc :: bmc_config
  mr_admin_state :: admin_state
  mr_cluster :: string
  mr_reserved_for :: "string option"
  mr_labels :: "string \<rightharpoonup> string"

definition default_cluster :: string where
  "default_cluster = ''default''"

datatype switch_backend = Nxos | Iosxe | Ios | Eos | Junos | Ssh

fun default_port :: "switch_backend \<Rightarrow> u16" where
  "default_port Nxos = 443"
| "default_port Iosxe = 443"
| "default_port Ios = 22"
| "default_port Eos = 443"
| "default_port Junos = 830"
| "default_port Ssh = 22"

record switch_spec =
  sw_management_ip :: ip_addr
  sw_backend :: switch_backend
  sw_credentials_secret :: string
  sw_port :: "u16 option"
  sw_labels :: "string \<rightharpoonup> string"

datatype vlan_id = Vlan_Id u16

definition vlan_id_new :: "u16 \<Rightarrow> string + vlan_id" where
  "vlan_id_new i =
     (if i = 0 \<or> 4094 < i then Inl ''VLAN ID must be between 1 and 4094'' else Inr (Vlan_Id i))"

fun vlan_id_get :: "vlan_id \<Rightarrow> u16" where
  "vlan_id_get (Vlan_Id i) = i"

definition vlan_id_try_from :: "u16 \<Rightarrow> string + vlan_id" where
  "vlan_id_try_from value = vlan_id_new value"

fun vlan_id_into :: "vlan_id \<Rightarrow> u16" where
  "vlan_id_into (Vlan_Id i) = i"

fun show_vlan_id :: "vlan_id \<Rightarrow> string" where
  "show_vlan_id (Vlan_Id i) = show_nat (unat i)"

datatype vlan_admin_state = Vlan_Available | Vlan_Reserved | Vlan_Disabled

definition is_allocatable :: "vlan_admin_state \<Rightarrow> bool" where
  "is_allocatable s = (case s of Vlan_Available \<Rightarrow> True | _ \<Rightarrow> False)"

record vlan_spec =
  vl_vlan_id :: vlan_id
  vl_public :: bool
  vl_subnet :: "string option"
  vl_gateway :: "string option"
  vl_admin_state :: vlan_admin_state
  vl_labels :: "string \<rightharpoonup> string"

section \<open>Synchronisation with etcd\<close>

type_synonym store = "string \<rightharpoonup> string"

datatype etcd_answer = Request_Ok | Request_Failed string bool

definition took_effect :: "etcd_answer \<Rightarrow> bool" where
  "took_effect answer = (case answer of Request_Ok \<Rightarrow> True | Request_Failed _ applied \<Rightarrow> applied)"

datatype sync_failure = Serialize_Failed string | Put_Failed string | Delete_Failed string

definition OP_MACHINES_PREFIX :: string where
  "OP_MACHINES_PREFIX = ''/neolaas/machines/''"

definition OP_SWITCHES_PREFIX :: string where
  "OP_SWITCHES_PREFIX = ''/neolaas/switches/''"

definition OP_VLANS_PREFIX :: string where
  "OP_VLANS_PREFIX = ''/neolaas/vlans/''"

definition etcd_put ::
  "('s \<Rightarrow> string + string) \<Rightarrow> etcd_answer \<Rightarrow> string \<Rightarrow> 's \<Rightarrow> store \<Rightarrow> store \<times> (sync_failure + unit)" where
  "etcd_put to_json answer key value st =
     (case to_json value of
        Inl e \<Rightarrow> (st, Inl (Serialize_Failed e))
      | Inr json \<Rightarrow>
          (case answer of
             Request_Failed e applied \<Rightarrow> (if applied then st(key \<mapsto> json) else st, Inl (Put_Failed e))
           | Request_Ok \<Rightarrow> (st(key \<mapsto> json), Inr ())))"

definition etcd_delete :: "etcd_answer \<Rightarrow> string \<Rightarrow> store \<Rightarrow> store \<times> (sync_failure + unit)" where
  "etcd_delete answer key st =
     (case answer of
        Request_Failed e applied \<Rightarrow> (if applied then st(key := None) else st, Inl (Delete_Failed e))
      | Request_Ok \<Rightarrow> (st(key := None), Inr ()))"

definition put_machine ::
  "('s \<Rightarrow> string + string) \<Rightarrow> etcd_answer \<Rightarrow> string \<Rightarrow> 's \<Rightarrow> store \<Rightarrow> store \<times> (sync_failure + unit)" where
  "put_machine to_json answer name spec st = etcd_put to_json answer (OP_MACHINES_PREFIX @ name) spec st"

definition delete_machine :: "etcd_answer \<Rightarrow> string \<Rightarrow> store \<Rightarrow> store \<times> (sync_failure + unit)" where
  "delete_machine answer name st = etcd_delete answer (OP_MACHINES_PREFIX @ name) st"

definition put_switch ::
  "('s \<Rightarrow> string + string) \<Rightarrow> etcd_answer \<Rightarrow> string \<Rightarrow> 's \<Rightarrow> store \<Rightarrow> store \<times> (sync_failure + unit)" where
  "put_switch to_json answer name spec st = etcd_put to_json answer (OP_SWITCHES_PREFIX @ name) spec st"

definition delete_switch :: "etcd_answer \<Rightarrow> string \<Rightarrow> store \<Rightarrow> store \<times> (sync_failure + unit)" where
  "delete_switch answer name st = etcd_delete answer (OP_SWITCHES_PREFIX @ name) st"

definition put_vlan ::
  "('s \<Rightarrow> string + string) \<Rightarrow> etcd_answer \<Rightarrow> string \<Rightarrow> 's \<Rightarrow> store \<Rightarrow> store \<times> (sync_failure + unit)" where
  "put_vlan to_json answer name spec st = etcd_put to_json answer (OP_VLANS_PREFIX @ name) spec st"

definition delete_vlan :: "etcd_answer \<Rightarrow> string \<Rightarrow> store \<Rightarrow> store \<times> (sync_failure + unit)" where
  "delete_vlan answer name st = etcd_delete answer (OP_VLANS_PREFIX @ name) st"

section \<open>Controllers\<close>

datatype action = Requeue duration | Await_Change

datatype reconcile_error = Kube string | Reconcile_Etcd sync_failure

record 's resource =
  rs_namespace :: "string option"
  rs_name :: string
  rs_spec :: 's

text \<open>The events and the errors of the kube crate's finalizer helper, and what it decides to do.\<close>

datatype finalizer_event = Apply | Cleanup

datatype finalizer_error =
    Apply_Failed reconcile_error
  | Cleanup_Failed reconcile_error
  | Add_Finalizer string
  | Remove_Finalizer string
  | Unnamed_Object
  | Invalid_Finalizer

datatype finalizer_call = Calls finalizer_event | Returns "finalizer_error + action"

record op_env =
  oe_client :: "string + unit"
  oe_answer :: etcd_answer
  oe_return :: "finalizer_event \<Rightarrow> reconcile_error + action \<Rightarrow> finalizer_error + action"

text \<open>\<^verbatim>\<open>finalizer\<close> around the closure it is given, with its decision and what it returns.\<close>

definition finalizer ::
  "(finalizer_event \<Rightarrow> reconcile_error + action \<Rightarrow> finalizer_error + action) \<Rightarrow>
     (finalizer_event \<Rightarrow> store \<Rightarrow> store \<times> (reconcile_error + action)) \<Rightarrow> finalizer_call \<Rightarrow>
     store \<Rightarrow> store \<times> (finalizer_error + action)" where
  "finalizer return reconcile call st =
     (case call of
        Returns r \<Rightarrow> (st, r)
      | Calls event \<Rightarrow> (case reconcile event st of (st, r) \<Rightarrow> (st, return event r)))"

text \<open>The documented behaviour of the helper: an error of the closure is reported as an error.\<close>

definition reports_errors :: "op_env \<Rightarrow> bool" where
  "reports_errors env \<longleftrightarrow> (\<forall>ev e. isl (oe_return env ev (Inl e)))"

text \<open>
  \<^verbatim>\<open>reconcile\<close> of the machine controller; the other two differ in the operations they call. A failure to
  create the Kubernetes client is an \<^verbatim>\<open>ApplyFailed\<close> error.
\<close>

definition reconcile_machine ::
  "('s \<Rightarrow> string + string) \<Rightarrow> op_env \<Rightarrow> finalizer_call \<Rightarrow> 's resource \<Rightarrow> store \<Rightarrow>
     store \<times> (finalizer_error + action)" where
  "reconcile_machine to_json env call r st =
     (case oe_client env of
        Inl e \<Rightarrow> (st, Inl (Apply_Failed (Kube e)))
      | Inr _ \<Rightarrow>
          finalizer (oe_return env)
            (\<lambda>event st.
               case event of
                 Apply \<Rightarrow>
                   (case put_machine to_json (oe_answer env) (rs_name r) (rs_spec r) st of
                      (st, Inl e) \<Rightarrow> (st, Inl (Reconcile_Etcd e))
                    | (st, Inr _) \<Rightarrow> (st, Inr (Requeue (from_secs 300))))
               | Cleanup \<Rightarrow>
                   (case delete_machine (oe_answer env) (rs_name r) st of
                      (st, Inl e) \<Rightarrow> (st, Inl (Reconcile_Etcd e))
                    | (st, Inr _) \<Rightarrow> (st, Inr Await_Change)))
            call st)"

definition reconcile_switch ::
  "('s \<Rightarrow> string + string) \<Rightarrow> op_env \<Rightarrow> finalizer_call \<Rightarrow> 's resource \<Rightarrow> store \<Rightarrow>
     store \<times> (finalizer_error + action)" where
  "reconcile_switch to_json env call r st =
     (case oe_client env of
        Inl e \<Rightarrow> (st, Inl (Apply_Failed (Kube e)))
      | Inr _ \<Rightarrow>
          finalizer (oe_return env)
            (\<lambda>event st.
               case event of
                 Apply \<Rightarrow>
                   (case put_switch to_json (oe_answer env) (rs_name r) (rs_spec r) st of
                      (st, Inl e) \<Rightarrow> (st, Inl (Reconcile_Etcd e))
                    | (st, Inr _) \<Rightarrow> (st, Inr (Requeue (from_secs 300))))
               | Cleanup \<Rightarrow>
                   (case delete_switch (oe_answer env) (rs_name r) st of
                      (st, Inl e) \<Rightarrow> (st, Inl (Reconcile_Etcd e))
                    | (st, Inr _) \<Rightarrow> (st, Inr Await_Change)))
            call st)"

definition reconcile_vlan ::
  "('s \<Rightarrow> string + string) \<Rightarrow> op_env \<Rightarrow> finalizer_call \<Rightarrow> 's resource \<Rightarrow> store \<Rightarrow>
     store \<times> (finalizer_error + action)" where
  "reconcile_vlan to_json env call r st =
     (case oe_client env of
        Inl e \<Rightarrow> (st, Inl (Apply_Failed (Kube e)))
      | Inr _ \<Rightarrow>
          finalizer (oe_return env)
            (\<lambda>event st.
               case event of
                 Apply \<Rightarrow>
                   (case put_vlan to_json (oe_answer env) (rs_name r) (rs_spec r) st of
                      (st, Inl e) \<Rightarrow> (st, Inl (Reconcile_Etcd e))
                    | (st, Inr _) \<Rightarrow> (st, Inr (Requeue (from_secs 300))))
               | Cleanup \<Rightarrow>
                   (case delete_vlan (oe_answer env) (rs_name r) st of
                      (st, Inl e) \<Rightarrow> (st, Inl (Reconcile_Etcd e))
                    | (st, Inr _) \<Rightarrow> (st, Inr Await_Change)))
            call st)"

definition error_policy :: "finalizer_error \<Rightarrow> action" where
  "error_policy e = Requeue (from_secs 60)"

section \<open>The mirror contract\<close>

type_synonym 's reconciliation = "op_env \<times> finalizer_call \<times> 's resource"

text \<open>
  What one reconciliation means for the entry of the resources called \<open>n\<close>: nothing when it concerns
  another name, calls no closure or does not take effect; the serialised spec after an apply, no entry
  after a cleanup.
\<close>

definition mirror_step ::
  "('s \<Rightarrow> string + string) \<Rightarrow> string \<Rightarrow> 's reconciliation \<Rightarrow> string option \<Rightarrow> string option" where
  "mirror_step to_json n e v =
     (case e of (env, call, r) \<Rightarrow>
        if rs_name r = n \<and> oe_client env = Inr () \<and> took_effect (oe_answer env) then
          (case call of
             Calls Apply \<Rightarrow> (case to_json (rs_spec r) of Inr j \<Rightarrow> Some j | Inl _ \<Rightarrow> v)
           | Calls Cleanup \<Rightarrow> None
           | Returns _ \<Rightarrow> v)
        else v)"

text \<open>
  The contract of a controller whose entries have the keys \<open>prefix @ name\<close>: a reconciliation acts on
  its own name's entry as the mirror step says, and on no key outside of the prefix, and one that calls
  the closure and reports success has taken effect, if the finalizer helper reports errors.
\<close>

locale resource_mirror =
  fixes reconcile :: "op_env \<Rightarrow> finalizer_call \<Rightarrow> 's resource \<Rightarrow> store \<Rightarrow> store \<times> (finalizer_error + action)"
    and to_json :: "'s \<Rightarrow> string + string"
    and prefix :: string
  assumes entry: "fst (reconcile env call r st) (prefix @ n) =
      mirror_step to_json n (env, call, r) (st (prefix @ n))"
    and outside: "strip_prefix k prefix = None \<Longrightarrow> fst (reconcile env call r st) k = st k"
    and success: "reports_errors env \<Longrightarrow> snd (reconcile env (Calls ev) r st) = Inr act \<Longrightarrow>
      oe_client env = Inr () \<and> took_effect (oe_answer env) \<and> (ev = Apply \<longrightarrow> \<not> isl (to_json (rs_spec r)))"
begin

lemma run_entry:
  "fold (\<lambda>(env, ev, r) st. fst (reconcile env ev r st)) es st (prefix @ n) =
     fold (mirror_step to_json n) es (st (prefix @ n))"
  by (induction es arbitrary: st) (auto simp: entry)

text \<open>After a reported success the entry is what the reconciliation prescribes.\<close>

lemma success_entry:
  "reports_errors env \<Longrightarrow> snd (reconcile env (Calls ev) r st) = Inr act \<Longrightarrow>
     fst (reconcile env (Calls ev) r st) (prefix @ rs_name r) =
       (case ev of Apply \<Rightarrow> Some (projr (to_json (rs_spec r))) | Cleanup \<Rightarrow> None)"
  using success [of env ev r st act]
  by (cases "to_json (rs_spec r)") (auto simp: entry mirror_step_def split: finalizer_event.split)

lemma run_outside:
  "strip_prefix k prefix = None \<Longrightarrow>
     fold (\<lambda>(env, ev, r) st. fst (reconcile env ev r st)) es st k = st k"
  by (induction es arbitrary: st) (auto simp: outside)

end

lemmas operator_defs =
  reconcile_machine_def reconcile_switch_def reconcile_vlan_def put_machine_def delete_machine_def
  put_switch_def delete_switch_def put_vlan_def delete_vlan_def etcd_put_def etcd_delete_def finalizer_def

lemma reported_error: "reports_errors env \<Longrightarrow> oe_return env ev (Inl e) \<noteq> Inr act"
  unfolding reports_errors_def by (metis isl_def sum.distinct(1))

interpretation machines: resource_mirror "reconcile_machine to_json" to_json OP_MACHINES_PREFIX
  for to_json
  by unfold_locales
    (auto simp: operator_defs mirror_step_def took_effect_def strip_prefix_eq_Some [symmetric] reported_error
      split: sum.splits finalizer_event.splits finalizer_call.splits etcd_answer.splits if_splits)

interpretation switches: resource_mirror "reconcile_switch to_json" to_json OP_SWITCHES_PREFIX
  for to_json
  by unfold_locales
    (auto simp: operator_defs mirror_step_def took_effect_def strip_prefix_eq_Some [symmetric] reported_error
      split: sum.splits finalizer_event.splits finalizer_call.splits etcd_answer.splits if_splits)

interpretation vlans: resource_mirror "reconcile_vlan to_json" to_json OP_VLANS_PREFIX
  for to_json
  by unfold_locales
    (auto simp: operator_defs mirror_step_def took_effect_def strip_prefix_eq_Some [symmetric] reported_error
      split: sum.splits finalizer_event.splits finalizer_call.splits etcd_answer.splits if_splits)

lemma prefixes_apart:
  "strip_prefix (OP_SWITCHES_PREFIX @ n) OP_MACHINES_PREFIX = None"
  "strip_prefix (OP_VLANS_PREFIX @ n) OP_MACHINES_PREFIX = None"
  "strip_prefix (OP_MACHINES_PREFIX @ n) OP_SWITCHES_PREFIX = None"
  "strip_prefix (OP_VLANS_PREFIX @ n) OP_SWITCHES_PREFIX = None"
  "strip_prefix (OP_MACHINES_PREFIX @ n) OP_VLANS_PREFIX = None"
  "strip_prefix (OP_SWITCHES_PREFIX @ n) OP_VLANS_PREFIX = None"
  by (simp_all add: strip_prefix_def OP_MACHINES_PREFIX_def OP_SWITCHES_PREFIX_def OP_VLANS_PREFIX_def)

section \<open>Properties\<close>

text \<open>
  C40. Entries are filed by name alone: the controllers watch all namespaces, but a resource's namespace
  is not part of its key. Cleaning up a machine in one namespace therefore removes the entry of a
  machine of the same name in another namespace, which is still applied there.
\<close>

theorem namespaces_collide:
  assumes "rs_name r = rs_name r'" and "rs_namespace r \<noteq> rs_namespace r'"
    and "oe_client env = Inr ()" and "oe_answer env = Request_Ok" and "to_json (rs_spec r') = Inr j"
  shows "fst (reconcile_machine to_json env (Calls Apply) r' st) (OP_MACHINES_PREFIX @ rs_name r') = Some j \<and>
    fst (reconcile_machine to_json env (Calls Cleanup) r (fst (reconcile_machine to_json env (Calls Apply) r' st)))
      (OP_MACHINES_PREFIX @ rs_name r') = None"
  using assms by (simp add: machines.entry mirror_step_def took_effect_def)

theorem namespaces_collide_witness:
  "fst (reconcile_machine Inr \<lparr>oe_client = Inr (), oe_answer = Request_Ok, oe_return = (\<lambda>_. map_sum Apply_Failed id)\<rparr> (Calls Cleanup)
      \<lparr>rs_namespace = Some ''a'', rs_name = ''m'', rs_spec = ''{}''\<rparr>
      (fst (reconcile_machine Inr \<lparr>oe_client = Inr (), oe_answer = Request_Ok, oe_return = (\<lambda>_. map_sum Apply_Failed id)\<rparr> (Calls Apply)
        \<lparr>rs_namespace = Some ''b'', rs_name = ''m'', rs_spec = ''{}''\<rparr> Map.empty)))
     (OP_MACHINES_PREFIX @ ''m'') = None"
  using namespaces_collide [of "\<lparr>rs_namespace = Some ''a'', rs_name = ''m'', rs_spec = ''{}''\<rparr>"
      "\<lparr>rs_namespace = Some ''b'', rs_name = ''m'', rs_spec = ''{}''\<rparr>"
      "\<lparr>oe_client = Inr (), oe_answer = Request_Ok, oe_return = (\<lambda>_. map_sum Apply_Failed id)\<rparr>" Inr "''{}''" Map.empty]
  by simp

text \<open>
  VLAN identifiers: conversion from a 16-bit number succeeds exactly for 1 to 4094, and then
  converting back, reading the identifier, and parsing its printed form all give the number back.
\<close>

lemma vlan_id_roundtrip:
  "(case vlan_id_try_from n of
      Inr i \<Rightarrow> 1 \<le> unat n \<and> unat n \<le> 4094 \<and> vlan_id_into i = n \<and> vlan_id_get i = n \<and>
               parse_u16 (show_vlan_id i) = Some n
    | Inl e \<Rightarrow> unat n = 0 \<or> 4094 < unat n)"
  by (auto simp: vlan_id_try_from_def vlan_id_new_def parse_u16_show word_less_nat_alt
      unat_eq_zero Suc_leI unat_gt_0)

end
