(* ===== verification/Operator_Run.thy ===== *)
theory Operator_Run
  imports Operator
begin

text \<open>
  The operator process: \<^verbatim>\<open>crates/neolaas-operator/src/main.rs\<close>, \<^verbatim>\<open>EtcdSync::new\<close> and the \<^verbatim>\<open>run\<close> functions of
  the three controllers.

  The controller runtime of the kube crate decides when a resource is reconciled; the reconciliations of
  the three controllers, which share one connection to etcd, are the inputs in the order in which they
  take place, and an input may also say that the stream of one controller has ended. The action that a
  reconciliation returns, or the error policy gives for its failure, is what the runtime is told to do
  next with the resource. Entries are filed by kind and name; a resource's namespace is not part of its
  key (\<open>namespaces_collide\<close>), so resources of one kind with equal names share an entry here as they do in
  etcd.
\<close>

section \<open>Model\<close>

definition etcd_sync_new :: "string + unit \<Rightarrow> string + unit" where
  "etcd_sync_new answer =
     (case answer of Inl e \<Rightarrow> Inl (''Failed to connect to etcd: '' @ e) | Inr _ \<Rightarrow> Inr ())"

type_synonym directives = "(string \<times> action) list"

definition controller_item ::
  "(op_env \<Rightarrow> finalizer_call \<Rightarrow> 's resource \<Rightarrow> store \<Rightarrow> store \<times> (finalizer_error + action)) \<Rightarrow>
     's reconciliation \<Rightarrow> store \<Rightarrow> store \<times> (string \<times> action)" where
  "controller_item reconcile e st =
     (case e of (env, call, r) \<Rightarrow>
        (case reconcile env call r st of
           (st, Inr act) \<Rightarrow> (st, rs_name r, act)
         | (st, Inl err) \<Rightarrow> (st, rs_name r, error_policy err)))"

datatype ('m, 's, 'v) op_input =
    Machine_Item "'m reconciliation"
  | Switch_Item "'s reconciliation"
  | Vlan_Item "'v reconciliation"
  | Controller_Ended

record ('m, 's, 'v) op_json =
  oj_machine :: "'m \<Rightarrow> string + string"
  oj_switch :: "'s \<Rightarrow> string + string"
  oj_vlan :: "'v \<Rightarrow> string + string"

definition machine_controller_run ::
  "('m, 's, 'v) op_json \<Rightarrow> 'm reconciliation \<Rightarrow> store \<Rightarrow> store \<times> (string \<times> action)" where
  "machine_controller_run js = controller_item (reconcile_machine (oj_machine js))"

definition switch_controller_run ::
  "('m, 's, 'v) op_json \<Rightarrow> 's reconciliation \<Rightarrow> store \<Rightarrow> store \<times> (string \<times> action)" where
  "switch_controller_run js = controller_item (reconcile_switch (oj_switch js))"

definition vlan_controller_run ::
  "('m, 's, 'v) op_json \<Rightarrow> 'v reconciliation \<Rightarrow> store \<Rightarrow> store \<times> (string \<times> action)" where
  "vlan_controller_run js = controller_item (reconcile_vlan (oj_vlan js))"

text \<open>The concurrent controllers; the end of one of them ends the process.\<close>

fun run_controllers ::
  "('m, 's, 'v) op_json \<Rightarrow> ('m, 's, 'v) op_input list \<Rightarrow> store \<times> directives \<Rightarrow> store \<times> directives" where
  "run_controllers js [] (st, ds) = (st, ds)"
| "run_controllers js (Controller_Ended # es) (st, ds) = (st, ds)"
| "run_controllers js (Machine_Item e # es) (st, ds) =
     (case machine_controller_run js e st of (st, d) \<Rightarrow> run_controllers js es (st, ds @ [d]))"
| "run_controllers js (Switch_Item e # es) (st, ds) =
     (case switch_controller_run js e st of (st, d) \<Rightarrow> run_controllers js es (st, ds @ [d]))"
| "run_controllers js (Vlan_Item e # es) (st, ds) =
     (case vlan_controller_run js e st of (st, d) \<Rightarrow> run_controllers js es (st, ds @ [d]))"

record ('m, 's, 'v) op_start =
  os_connect :: "string list \<Rightarrow> string + unit"
  os_kube_client :: "string + unit"
  os_json :: "('m, 's, 'v) op_json"
  os_inputs :: "('m, 's, 'v) op_input list"

definition run_operator ::
  "('m, 's, 'v) op_start \<Rightarrow> string \<Rightarrow> store \<Rightarrow> (store \<times> directives) \<times> (string + unit)" where
  "run_operator start etcd_endpoints st =
     (let endpoints = split_on CHR '','' etcd_endpoints
      in case etcd_sync_new (os_connect start endpoints) of
           Inl e \<Rightarrow> ((st, []), Inl e)
         | Inr _ \<Rightarrow>
             (case os_kube_client start of
                Inl e \<Rightarrow> ((st, []), Inl e)
              | Inr _ \<Rightarrow> (run_controllers (os_json start) (os_inputs start) (st, []), Inr ())))"

datatype commands = Crds | Run string

text \<open>The serialised definitions of the three resources are printed in turn; serialising one may fail.\<close>

fun print_crd_list :: "(string \<times> (string + string)) list \<Rightarrow> string list \<times> (rust_panic + unit)" where
  "print_crd_list [] = ([], Inr ())"
| "print_crd_list ((kind, yaml) # rest) =
     (case yaml of
        Inl e \<Rightarrow> ([''---''], Inl (Expect_Panic (''Failed to serialize '' @ kind @ '' CRD'')))
      | Inr text \<Rightarrow> (case print_crd_list rest of (out, r) \<Rightarrow> (''---'' # text # out, r)))"

definition print_crds :: "(string \<Rightarrow> string + string) \<Rightarrow> string list \<times> (rust_panic + unit)" where
  "print_crds to_yaml =
     print_crd_list [(''Machine'', to_yaml ''Machine''), (''Switch'', to_yaml ''Switch''), (''Vlan'', to_yaml ''Vlan'')]"

definition operator_main ::
  "('m, 's, 'v) op_start \<Rightarrow> (string \<Rightarrow> string + string) \<Rightarrow> commands \<Rightarrow> store \<Rightarrow>
     store \<times> string list \<times> (rust_panic + (string + unit))" where
  "operator_main start to_yaml command st =
     (case command of
        Crds \<Rightarrow>
          (case print_crds to_yaml of
             (out, Inl p) \<Rightarrow> (st, out, Inl p)
           | (out, Inr _) \<Rightarrow> (st, out, Inr (Inr ())))
      | Run etcd_endpoints \<Rightarrow>
          (case run_operator start etcd_endpoints st of ((st, ds), r) \<Rightarrow> (st, [], Inr r)))"

section \<open>Lemmas\<close>

fun until_end :: "('m, 's, 'v) op_input list \<Rightarrow> ('m, 's, 'v) op_input list" where
  "until_end [] = []"
| "until_end (e # es) = (if e = Controller_Ended then [] else e # until_end es)"

text \<open>The reconciliations of each controller among the inputs.\<close>

definition machine_items :: "('m, 's, 'v) op_input list \<Rightarrow> 'm reconciliation list" where
  "machine_items es = List.map_filter (\<lambda>i. case i of Machine_Item e \<Rightarrow> Some e | _ \<Rightarrow> None) es"

definition switch_items :: "('m, 's, 'v) op_input list \<Rightarrow> 's reconciliation list" where
  "switch_items es = List.map_filter (\<lambda>i. case i of Switch_Item e \<Rightarrow> Some e | _ \<Rightarrow> None) es"

definition vlan_items :: "('m, 's, 'v) op_input list \<Rightarrow> 'v reconciliation list" where
  "vlan_items es = List.map_filter (\<lambda>i. case i of Vlan_Item e \<Rightarrow> Some e | _ \<Rightarrow> None) es"

lemma items_simps [simp]:
  "machine_items [] = []" "switch_items [] = []" "vlan_items [] = []"
  "machine_items (Machine_Item m # es) = m # machine_items es" "machine_items (Switch_Item s # es) = machine_items es"
  "machine_items (Vlan_Item v # es) = machine_items es"
  "switch_items (Machine_Item m # es) = switch_items es" "switch_items (Switch_Item s # es) = s # switch_items es"
  "switch_items (Vlan_Item v # es) = switch_items es"
  "vlan_items (Machine_Item m # es) = vlan_items es" "vlan_items (Switch_Item s # es) = vlan_items es"
  "vlan_items (Vlan_Item v # es) = v # vlan_items es"
  by (simp_all add: machine_items_def switch_items_def vlan_items_def map_filter_simps)

lemma controller_item_store: "fst (controller_item rec (env, ev, r) st) = fst (rec env ev r st)"
  by (simp add: controller_item_def split: prod.split sum.split)

context resource_mirror
begin

lemma item_entry:
  "fst (controller_item reconcile e st) (prefix @ n) = mirror_step to_json n e (st (prefix @ n))"
  by (cases e) (simp add: controller_item_store entry)

lemma item_outside: "strip_prefix k prefix = None \<Longrightarrow> fst (controller_item reconcile e st) k = st k"
  by (cases e) (simp add: controller_item_store outside)

end

lemmas controller_runs = machine_controller_run_def switch_controller_run_def vlan_controller_run_def

lemmas items_entry =
  machines.item_entry switches.item_entry vlans.item_entry
  machines.item_outside [OF prefixes_apart(1)] machines.item_outside [OF prefixes_apart(2)]
  switches.item_outside [OF prefixes_apart(3)] switches.item_outside [OF prefixes_apart(4)]
  vlans.item_outside [OF prefixes_apart(5)] vlans.item_outside [OF prefixes_apart(6)]

lemma run_controllers_entries:
  "fst (run_controllers js es (st, ds)) (OP_MACHINES_PREFIX @ n) =
     fold (mirror_step (oj_machine js) n) (machine_items (until_end es)) (st (OP_MACHINES_PREFIX @ n)) \<and>
   fst (run_controllers js es (st, ds)) (OP_SWITCHES_PREFIX @ n) =
     fold (mirror_step (oj_switch js) n) (switch_items (until_end es)) (st (OP_SWITCHES_PREFIX @ n)) \<and>
   fst (run_controllers js es (st, ds)) (OP_VLANS_PREFIX @ n) =
     fold (mirror_step (oj_vlan js) n) (vlan_items (until_end es)) (st (OP_VLANS_PREFIX @ n))"
  by (induction js es "(st, ds)" arbitrary: st ds rule: run_controllers.induct)
    (simp_all add: controller_runs items_entry case_prod_beta)

section \<open>Properties\<close>

text \<open>
  C12. The operator mirrors the inventory by kind and name: when the operator has connected to etcd and
  Kubernetes, then after any reconciliations of its three concurrent controllers etcd holds under the
  key of every kind and name what the last reconciliation of a resource of that kind and name that took
  effect in etcd prescribes (the specification of an apply, nothing after a cleanup), whatever the other
  controllers have done. A reconciliation takes effect when the finalizer calls the closure and etcd
  carries out the request, whether or not its answer arrives and whether or not the finalizer can then
  be removed; it has no effect when the Kubernetes client is missing, the finalizer does not call the
  closure, the specification cannot be serialised or etcd does not carry out the request. Resources of
  one kind whose names are equal count as one, whatever their namespaces. Reconciliations after the end
  of one controller do not take place.
\<close>

theorem operator_mirrors_inventory:
  assumes "run_operator start endpoints st = ((st', ds), Inr ())" and "es = until_end (os_inputs start)"
  shows "st' (OP_MACHINES_PREFIX @ n) =
      fold (mirror_step (oj_machine (os_json start)) n) (machine_items es) (st (OP_MACHINES_PREFIX @ n)) \<and>
    st' (OP_SWITCHES_PREFIX @ n) =
      fold (mirror_step (oj_switch (os_json start)) n) (switch_items es) (st (OP_SWITCHES_PREFIX @ n)) \<and>
    st' (OP_VLANS_PREFIX @ n) =
      fold (mirror_step (oj_vlan (os_json start)) n) (vlan_items es) (st (OP_VLANS_PREFIX @ n))"
proof -
  have "run_controllers (os_json start) (os_inputs start) (st, []) = (st', ds)"
    using assms(1) by (auto simp: run_operator_def Let_def split: sum.splits)
  with run_controllers_entries [of "os_json start" "os_inputs start" st "[]" n] assms(2) show ?thesis by simp
qed

theorem operator_mirrors_inventory_witness:
  "\<exists>st' ds. run_operator
      \<lparr>os_connect = (\<lambda>_. Inr ()), os_kube_client = Inr (),
       os_json = \<lparr>oj_machine = Inr, oj_switch = Inr, oj_vlan = Inr\<rparr>,
       os_inputs =
         [Machine_Item (\<lparr>oe_client = Inr (), oe_answer = Request_Failed ''late'' True, oe_return = (\<lambda>_. map_sum Apply_Failed id)\<rparr>, Calls Apply,
            \<lparr>rs_namespace = None, rs_name = ''m'', rs_spec = ''{}''\<rparr>),
          Switch_Item (\<lparr>oe_client = Inr (), oe_answer = Request_Failed ''down'' False, oe_return = (\<lambda>_. map_sum Apply_Failed id)\<rparr>, Calls Apply,
            \<lparr>rs_namespace = None, rs_name = ''m'', rs_spec = ''x''\<rparr>), Controller_Ended]\<rparr> ''e'' Map.empty =
      ((st', ds), Inr ()) \<and>
    st' (OP_MACHINES_PREFIX @ ''m'') = Some ''{}'' \<and> st' (OP_SWITCHES_PREFIX @ ''m'') = None"
proof -
  let ?start = "\<lparr>os_connect = (\<lambda>_. Inr ()), os_kube_client = Inr (),
       os_json = \<lparr>oj_machine = Inr, oj_switch = Inr, oj_vlan = Inr\<rparr>,
       os_inputs =
         [Machine_Item (\<lparr>oe_client = Inr (), oe_answer = Request_Failed ''late'' True, oe_return = (\<lambda>_. map_sum Apply_Failed id)\<rparr>, Calls Apply,
            \<lparr>rs_namespace = None, rs_name = ''m'', rs_spec = ''{}''\<rparr>),
          Switch_Item (\<lparr>oe_client = Inr (), oe_answer = Request_Failed ''down'' False, oe_return = (\<lambda>_. map_sum Apply_Failed id)\<rparr>, Calls Apply,
            \<lparr>rs_namespace = None, rs_name = ''m'', rs_spec = ''x''\<rparr>), Controller_Ended]\<rparr>
      :: (string, string, string) op_start"
  obtain st' ds where run: "run_operator ?start ''e'' Map.empty = ((st', ds), Inr ())"
    by (cases "run_controllers (os_json ?start) (os_inputs ?start) (Map.empty, [])")
      (simp add: run_operator_def etcd_sync_new_def del: run_controllers.simps)
  from operator_mirrors_inventory [OF this refl, of "''m''"]
  have "st' (OP_MACHINES_PREFIX @ ''m'') = Some ''{}''" "st' (OP_SWITCHES_PREFIX @ ''m'') = None"
    by (simp_all add: mirror_step_def took_effect_def)
  with run show ?thesis by blast
qed

end
