(* ===== verification/Discovery.thy ===== *)
theory Discovery
  imports Network_State Etcd Rendezvous
begin

text \<open>
  Peer discovery through etcd: \<^verbatim>\<open>crates/neolaas-server/src/network/discovery/etcd.rs\<close>,
  \<^verbatim>\<open>discovery/phases.rs\<close> and \<^verbatim>\<open>discovery/controller.rs\<close>.

  The state of \<^verbatim>\<open>DiscoveryPhases\<close> carries what has been sent on its two channels: the commands for the
  swarm's event loop and the peer lists for the sharding coordinator (\<open>None\<close> when there is no sharding
  channel). A \<^verbatim>\<open>send\<close> on a channel whose receiver is gone loses the message. Parsers of peer identifiers,
  of addresses and of the JSON metadata are parameters (\<open>disc_env\<close>), as is the order in which the
  \<^verbatim>\<open>HashSet\<close> of known peers is traversed. Every answer of etcd is an argument.
\<close>

section \<open>Keys and metadata\<close>

record peer_metadata =
  md_multiaddr :: string
  md_meta :: "string \<rightharpoonup> string"
  md_shard :: u32

record ('p, 'a) disc_env =
  de_to_base58 :: "'p \<Rightarrow> string"
  de_parse_peer :: "string \<Rightarrow> 'p option"
  de_show_addr :: "'a \<Rightarrow> string"
  de_parse_addr :: "string \<Rightarrow> 'a option"
  de_to_json :: "peer_metadata \<Rightarrow> string + string"
  de_from_json :: "string \<Rightarrow> peer_metadata option"
  de_keys :: "'p set \<Rightarrow> 'p list"

definition peers_prefix :: "string \<Rightarrow> string" where
  "peers_prefix cluster_id = ''/kameo/v1/clusters/'' @ cluster_id @ ''/peers/''"

definition peer_key :: "('p, 'a) disc_env \<Rightarrow> string \<Rightarrow> 'p \<Rightarrow> string" where
  "peer_key env cluster_id peer_id =
     ''/kameo/v1/clusters/'' @ cluster_id @ ''/peers/'' @ de_to_base58 env peer_id"

text \<open>
  The keep-alive task: the outcomes of the successive ticks are its input; the result is the number of
  requests made and whether the task ended with a signal on the internal shutdown channel.
\<close>

datatype keepalive_outcome = Ka_Send_Failed | Ka_Response int | Ka_Stream_Closed | Ka_Stream_Error string

fun keepalive_task :: "keepalive_outcome list \<Rightarrow> nat \<times> bool" where
  "keepalive_task [] = (0, False)"
| "keepalive_task (oc # ocs) =
     (case oc of
        Ka_Send_Failed \<Rightarrow> (1, True)
      | Ka_Response ttl \<Rightarrow> (case keepalive_task ocs of (n, s) \<Rightarrow> (n + 1, s))
      | Ka_Stream_Closed \<Rightarrow> (1, True)
      | Ka_Stream_Error e \<Rightarrow> (1, True))"

section \<open>Phases\<close>

datatype ('p, 'a) discovery_command = Cmd_Add_Peer 'p 'a | Cmd_Remove_Peer 'p | Cmd_Shutdown

datatype disc_error =
    Etcd_Error string
  | Utf8_Error
  | Json_Error string
  | Watch_Canceled
  | Swarm_Channel_Closed
  | Keepalive_Failure

record ('p, 'a) phases =
  dp_cluster_id :: string
  dp_local_peer_id :: 'p
  dp_local_addr :: 'a
  dp_swarm_open :: bool
  dp_swarm_tx :: "('p, 'a) discovery_command list"
  dp_readiness :: bool
  dp_config :: network_config
  dp_known_peers :: "'p set"
  dp_sharding_open :: bool
  dp_sharding_tx :: "'p list list option"

definition phases_new ::
  "string \<Rightarrow> 'p \<Rightarrow> 'a \<Rightarrow> bool \<Rightarrow> network_config \<Rightarrow> bool \<Rightarrow> bool \<Rightarrow> ('p, 'a) phases" where
  "phases_new cluster_id local_peer_id local_addr swarm_open config has_sharding sharding_open =
     \<lparr>dp_cluster_id = cluster_id, dp_local_peer_id = local_peer_id, dp_local_addr = local_addr,
      dp_swarm_open = swarm_open, dp_swarm_tx = [], dp_readiness = False, dp_config = config,
      dp_known_peers = {local_peer_id}, dp_sharding_open = sharding_open,
      dp_sharding_tx = (if has_sharding then Some [] else None)\<rparr>"

definition send_swarm :: "('p, 'a) discovery_command \<Rightarrow> ('p, 'a) phases \<Rightarrow> ('p, 'a) phases" where
  "send_swarm cmd s = (if dp_swarm_open s then s\<lparr>dp_swarm_tx := dp_swarm_tx s @ [cmd]\<rparr> else s)"

definition notify_sharding :: "('p, 'a) disc_env \<Rightarrow> ('p, 'a) phases \<Rightarrow> ('p, 'a) phases" where
  "notify_sharding env s =
     (case dp_sharding_tx s of
        Some tx \<Rightarrow>
          (let peers = de_keys env (dp_known_peers s)
           in if dp_sharding_open s then s\<lparr>dp_sharding_tx := Some (tx @ [peers])\<rparr> else s)
      | None \<Rightarrow> s)"

definition initialize_phase :: "string + string \<Rightarrow> disc_error + unit" where
  "initialize_phase status = (case status of Inr version \<Rightarrow> Inr () | Inl e \<Rightarrow> Inl (Etcd_Error e))"

text \<open>
  Registration: the answers to the lease grant, to the keep-alive request and to the put are inputs;
  the result is the lease and the key-value pair written under it.
\<close>

definition register_phase ::
  "('p, 'a) disc_env \<Rightarrow> string + int \<Rightarrow> string + unit \<Rightarrow> (string \<Rightarrow> string \<Rightarrow> string + unit) \<Rightarrow>
     ('p, 'a) phases \<Rightarrow> disc_error + int \<times> string \<times> string" where
  "register_phase env grant keep_alive put s =
     (case grant of
        Inl e \<Rightarrow> Inl (Etcd_Error e)
      | Inr lease_id \<Rightarrow>
          (case keep_alive of
             Inl e \<Rightarrow> Inl (Etcd_Error e)
           | Inr _ \<Rightarrow>
               (let key = peer_key env (dp_cluster_id s) (dp_local_peer_id s);
                    metadata = \<lparr>md_multiaddr = de_show_addr env (dp_local_addr s),
                                md_meta = Map.empty, md_shard = 0\<rparr>
                in case de_to_json env metadata of
                     Inl e \<Rightarrow> Inl (Json_Error e)
                   | Inr value \<Rightarrow>
                       (case put key value of
                          Inl e \<Rightarrow> Inl (Etcd_Error e)
                        | Inr _ \<Rightarrow> Inr (lease_id, key, value)))))"

text \<open>
  The loop of \<^verbatim>\<open>converge\<close>. An invalid encoding ends it with an error; the peers handled before remain
  known and announced to the swarm.
\<close>

fun converge_kvs ::
  "('p, 'a) disc_env \<Rightarrow> etcd_kv list \<Rightarrow> nat \<Rightarrow> ('p, 'a) phases \<Rightarrow>
     ('p, 'a) phases \<times> (disc_error + nat)" where
  "converge_kvs env [] peer_count s = (s, Inr peer_count)"
| "converge_kvs env ((key, value) # kvs) peer_count s =
     (case (key, value) of
        (Some key, Some value) \<Rightarrow>
          (case strip_prefix key (peers_prefix (dp_cluster_id s)) of
             None \<Rightarrow> converge_kvs env kvs peer_count s
           | Some peer_id_str \<Rightarrow>
               (case de_parse_peer env peer_id_str of
                  None \<Rightarrow> converge_kvs env kvs peer_count s
                | Some peer_id \<Rightarrow>
                    if peer_id = dp_local_peer_id s then converge_kvs env kvs peer_count s
                    else
                      (case de_from_json env value of
                         None \<Rightarrow> converge_kvs env kvs peer_count s
                       | Some metadata \<Rightarrow>
                           (case de_parse_addr env (md_multiaddr metadata) of
                              None \<Rightarrow> converge_kvs env kvs peer_count s
                            | Some addr \<Rightarrow>
                                (let s = send_swarm (Cmd_Add_Peer peer_id addr) s;
                                     s = s\<lparr>dp_known_peers := insert peer_id (dp_known_peers s)\<rparr>
                                 in converge_kvs env kvs (peer_count + 1) s)))))
      | _ \<Rightarrow> (s, Inl Utf8_Error))"

definition converge ::
  "('p, 'a) disc_env \<Rightarrow> string + etcd_kv list \<Rightarrow> ('p, 'a) phases \<Rightarrow>
     ('p, 'a) phases \<times> (disc_error + unit)" where
  "converge env resp s =
     (case resp of
        Inl e \<Rightarrow> (s, Inl (Etcd_Error e))
      | Inr kvs \<Rightarrow>
          (case converge_kvs env kvs 0 s of
             (s, Inl e) \<Rightarrow> (s, Inl e)
           | (s, Inr peer_count) \<Rightarrow>
               (let s = notify_sharding env s
                in (s\<lparr>dp_readiness := True\<rparr>, Inr ()))))"

definition enter_maintenance :: "string + unit \<Rightarrow> disc_error + unit" where
  "enter_maintenance watch = (case watch of Inr _ \<Rightarrow> Inr () | Inl e \<Rightarrow> Inl (Etcd_Error e))"

fun process_events ::
  "('p, 'a) disc_env \<Rightarrow> watch_event list \<Rightarrow> ('p, 'a) phases \<Rightarrow>
     ('p, 'a) phases \<times> (disc_error + unit)" where
  "process_events env [] s = (s, Inr ())"
| "process_events env (event # events) s =
     (case we_event_type event of
        Event_Put \<Rightarrow>
          (case we_kv event of
             None \<Rightarrow> process_events env events s
           | Some (Some key, Some value) \<Rightarrow>
               (case strip_prefix key (peers_prefix (dp_cluster_id s)) of
                  None \<Rightarrow> process_events env events s
                | Some peer_id_str \<Rightarrow>
                    (case de_parse_peer env peer_id_str of
                       None \<Rightarrow> process_events env events s
                     | Some peer_id \<Rightarrow>
                         if peer_id = dp_local_peer_id s then process_events env events s
                         else
                           (case de_from_json env value of
                              None \<Rightarrow> process_events env events s
                            | Some metadata \<Rightarrow>
                                (case de_parse_addr env (md_multiaddr metadata) of
                                   None \<Rightarrow> process_events env events s
                                 | Some addr \<Rightarrow>
                                     (let s = send_swarm (Cmd_Add_Peer peer_id addr) s;
                                          s = s\<lparr>dp_known_peers := insert peer_id (dp_known_peers s)\<rparr>;
                                          s = notify_sharding env s
                                      in process_events env events s)))))
           | Some _ \<Rightarrow> (s, Inl Utf8_Error))
      | Event_Delete \<Rightarrow>
          (case we_kv event of
             None \<Rightarrow> process_events env events s
           | Some (None, value) \<Rightarrow> (s, Inl Utf8_Error)
           | Some (Some key, value) \<Rightarrow>
               (case strip_prefix key (peers_prefix (dp_cluster_id s)) of
                  None \<Rightarrow> process_events env events s
                | Some peer_id_str \<Rightarrow>
                    (case de_parse_peer env peer_id_str of
                       None \<Rightarrow> process_events env events s
                     | Some peer_id \<Rightarrow>
                         (let s = send_swarm (Cmd_Remove_Peer peer_id) s;
                              s = s\<lparr>dp_known_peers := dp_known_peers s - {peer_id}\<rparr>;
                              s = notify_sharding env s
                          in process_events env events s)))))"

fun process_watch_event ::
  "('p, 'a) disc_env \<Rightarrow> watch_msg \<Rightarrow> ('p, 'a) phases \<Rightarrow> ('p, 'a) phases \<times> (disc_error + unit)" where
  "process_watch_event env (Watch_Error e) s = (s, Inl (Etcd_Error e))"
| "process_watch_event env Watch_End s = (s, Inr ())"
| "process_watch_event env (Watch_Response canceled events) s =
     (if canceled then (s, Inl Watch_Canceled) else process_events env events s)"

section \<open>Controller\<close>

datatype discovery_state = Initialization | Registration | Convergence | Maintenance | Terminating

text \<open>
  \<open>run_pc\<close> is the point of \<^verbatim>\<open>run\<close> that is executed next; \<open>ct_state\<close> is the field the code keeps.
  \<open>ct_registered\<close> and \<open>ct_revoked\<close> are what the controller has asked etcd to do: the pair it put under
  its lease, and the leases it asked to revoke. \<open>ct_convergence_tx\<close> tells whether the one-shot sender is still there, \<open>ct_converged\<close> whether the signal
  has been sent.
\<close>

datatype run_pc = At_Initialize | At_Register | At_Converge | At_Enter | At_Loop
  | Returned "disc_error + unit"

record ('p, 'a) controller =
  ct_phases :: "('p, 'a) phases"
  ct_lease_id :: "int option"
  ct_registered :: "(string \<times> string) option"
  ct_revoked :: "int list"
  ct_convergence_tx :: bool
  ct_converged :: bool
  ct_state :: discovery_state
  ct_pc :: run_pc

definition controller_new :: "('p, 'a) phases \<Rightarrow> bool \<Rightarrow> ('p, 'a) controller" where
  "controller_new phases convergence_tx =
     \<lparr>ct_phases = phases, ct_lease_id = None, ct_registered = None, ct_revoked = [],
      ct_convergence_tx = convergence_tx, ct_converged = False, ct_state = Initialization, ct_pc = At_Initialize\<rparr>"

text \<open>\<open>revoke\<close> is the answer to the revocation of the lease, which the code only logs.\<close>

definition shutdown :: "string + unit \<Rightarrow> ('p, 'a) controller \<Rightarrow> ('p, 'a) controller \<times> (disc_error + unit)" where
  "shutdown revoke c =
     (let c = c\<lparr>ct_state := Terminating\<rparr>;
          c = (case ct_lease_id c of
                 Some lease_id \<Rightarrow> c\<lparr>ct_revoked := ct_revoked c @ [lease_id]\<rparr>
               | None \<Rightarrow> c)
      in if dp_swarm_open (ct_phases c)
         then (c\<lparr>ct_phases := send_swarm Cmd_Shutdown (ct_phases c)\<rparr>, Inr ())
         else (c, Inl Swarm_Channel_Closed))"

datatype disc_input =
    In_Status "string + string"
  | In_Register "string + int" "string + unit" "string \<Rightarrow> string \<Rightarrow> string + unit"
  | In_Peers "string + etcd_kv list"
  | In_Watch_Open "string + unit"
  | In_Shutdown "string + unit"
  | In_Keepalive_Failed "string + unit"
  | In_Watch watch_msg "string + unit"

text \<open>
  One step of \<^verbatim>\<open>run\<close>: the statements up to the next suspension, for the answer that resumes it; \<open>None\<close>
  when the controller does not wait for such an input. The second argument of \<open>In_Watch\<close> is the answer
  to the attempt to reopen the watch, which is made only after a failure.
\<close>

fun ctl_step ::
  "('p, 'a) disc_env \<Rightarrow> disc_input \<Rightarrow> ('p, 'a) controller \<Rightarrow> ('p, 'a) controller option" where
  "ctl_step env (In_Status status) c =
     (if ct_pc c = At_Initialize then
        (let c = c\<lparr>ct_state := Initialization\<rparr>
         in case initialize_phase status of
              Inl e \<Rightarrow> Some (c\<lparr>ct_pc := Returned (Inl e)\<rparr>)
            | Inr _ \<Rightarrow> Some (c\<lparr>ct_state := Registration, ct_pc := At_Register\<rparr>))
      else None)"
| "ctl_step env (In_Register grant keep_alive put) c =
     (if ct_pc c = At_Register then
        (case register_phase env grant keep_alive put (ct_phases c) of
           Inl e \<Rightarrow> Some (c\<lparr>ct_pc := Returned (Inl e)\<rparr>)
         | Inr (lease_id, key, value) \<Rightarrow>
             Some (c\<lparr>ct_lease_id := Some lease_id, ct_registered := Some (key, value), ct_state := Convergence, ct_pc := At_Converge\<rparr>))
      else None)"
| "ctl_step env (In_Peers resp) c =
     (if ct_pc c = At_Converge then
        (case converge env resp (ct_phases c) of
           (s, Inl e) \<Rightarrow> Some (c\<lparr>ct_phases := s, ct_pc := Returned (Inl e)\<rparr>)
         | (s, Inr _) \<Rightarrow>
             (let c = c\<lparr>ct_phases := s\<rparr>;
                  c = (if ct_convergence_tx c
                       then c\<lparr>ct_convergence_tx := False, ct_converged := True\<rparr> else c)
              in Some (c\<lparr>ct_state := Maintenance, ct_pc := At_Enter\<rparr>)))
      else None)"
| "ctl_step env (In_Watch_Open watch) c =
     (if ct_pc c = At_Enter then
        (case enter_maintenance watch of
           Inl e \<Rightarrow> Some (c\<lparr>ct_pc := Returned (Inl e)\<rparr>)
         | Inr _ \<Rightarrow> Some (c\<lparr>ct_pc := At_Loop\<rparr>))
      else None)"
| "ctl_step env (In_Shutdown revoke) c =
     (if ct_pc c = At_Loop then
        (case shutdown revoke c of
           (c, Inl e) \<Rightarrow> Some (c\<lparr>ct_pc := Returned (Inl e)\<rparr>)
         | (c, Inr _) \<Rightarrow> Some (c\<lparr>ct_pc := Returned (Inr ())\<rparr>))
      else None)"
| "ctl_step env (In_Keepalive_Failed revoke) c =
     (if ct_pc c = At_Loop then
        (case shutdown revoke c of
           (c, Inl e) \<Rightarrow> Some (c\<lparr>ct_pc := Returned (Inl e)\<rparr>)
         | (c, Inr _) \<Rightarrow> Some (c\<lparr>ct_pc := Returned (Inl Keepalive_Failure)\<rparr>))
      else None)"
| "ctl_step env (In_Watch msg reopen) c =
     (if ct_pc c = At_Loop then
        (case process_watch_event env msg (ct_phases c) of
           (s, Inr _) \<Rightarrow> Some (c\<lparr>ct_phases := s\<rparr>)
         | (s, Inl e) \<Rightarrow>
             (case enter_maintenance reopen of
                Inr _ \<Rightarrow> Some (c\<lparr>ct_phases := s\<rparr>)
              | Inl e' \<Rightarrow> Some (c\<lparr>ct_phases := s, ct_pc := Returned (Inl e')\<rparr>)))
      else None)"

text \<open>The states a controller can reach.\<close>

inductive ctl_reach ::
  "('p, 'a) disc_env \<Rightarrow> ('p, 'a) controller \<Rightarrow> ('p, 'a) controller \<Rightarrow> bool" for env c0 where
  start: "ctl_reach env c0 c0"
| step: "ctl_reach env c0 c \<Longrightarrow> ctl_step env i c = Some c' \<Longrightarrow> ctl_reach env c0 c'"


section \<open>Membership changes\<close>

text \<open>
  The meaning of one event for the membership: the abstract specification of the nested tests that the
  two loops make.
\<close>

datatype ('p, 'a) change = Join 'p 'a | Leave 'p | Ignore | Malformed

definition decode_put :: "('p, 'a) disc_env \<Rightarrow> string \<Rightarrow> 'p \<Rightarrow> etcd_kv \<Rightarrow> ('p, 'a) change" where
  "decode_put env cluster_id me kv =
     (case kv of
        (Some key, Some value) \<Rightarrow>
          (case Option.bind (strip_prefix key (peers_prefix cluster_id)) (de_parse_peer env) of
             None \<Rightarrow> Ignore
           | Some p \<Rightarrow>
               if p = me then Ignore
               else (case Option.bind (de_from_json env value) (\<lambda>md. de_parse_addr env (md_multiaddr md)) of
                       None \<Rightarrow> Ignore
                     | Some a \<Rightarrow> Join p a))
      | _ \<Rightarrow> Malformed)"

definition decode_event ::
  "('p, 'a) disc_env \<Rightarrow> string \<Rightarrow> 'p \<Rightarrow> watch_event \<Rightarrow> ('p, 'a) change" where
  "decode_event env cluster_id me e =
     (case we_kv e of
        None \<Rightarrow> Ignore
      | Some kv \<Rightarrow>
          (case we_event_type e of
             Event_Put \<Rightarrow> decode_put env cluster_id me kv
           | Event_Delete \<Rightarrow>
               (case fst kv of
                  None \<Rightarrow> Malformed
                | Some key \<Rightarrow>
                    (case Option.bind (strip_prefix key (peers_prefix cluster_id)) (de_parse_peer env) of
                       None \<Rightarrow> Ignore
                     | Some p \<Rightarrow> Leave p))))"

fun member_change :: "('p, 'a) change \<Rightarrow> 'p set \<Rightarrow> 'p set" where
  "member_change (Join p a) S = insert p S"
| "member_change (Leave p) S = S - {p}"
| "member_change _ S = S"

fun command_of :: "('p, 'a) change \<Rightarrow> ('p, 'a) discovery_command list" where
  "command_of (Join p a) = [Cmd_Add_Peer p a]"
| "command_of (Leave p) = [Cmd_Remove_Peer p]"
| "command_of _ = []"

fun apply_change :: "('p, 'a) disc_env \<Rightarrow> ('p, 'a) change \<Rightarrow> ('p, 'a) phases \<Rightarrow> ('p, 'a) phases" where
  "apply_change env (Join p a) s =
     notify_sharding env ((send_swarm (Cmd_Add_Peer p a) s)
       \<lparr>dp_known_peers := insert p (dp_known_peers s)\<rparr>)"
| "apply_change env (Leave p) s =
     notify_sharding env ((send_swarm (Cmd_Remove_Peer p) s)
       \<lparr>dp_known_peers := dp_known_peers s - {p}\<rparr>)"
| "apply_change env _ s = s"

lemma send_swarm_frame [simp]:
  "dp_cluster_id (send_swarm cmd s) = dp_cluster_id s"
  "dp_local_peer_id (send_swarm cmd s) = dp_local_peer_id s"
  "dp_known_peers (send_swarm cmd s) = dp_known_peers s"
  "dp_readiness (send_swarm cmd s) = dp_readiness s"
  "dp_swarm_open (send_swarm cmd s) = dp_swarm_open s"
  "dp_sharding_open (send_swarm cmd s) = dp_sharding_open s"
  "dp_sharding_tx (send_swarm cmd s) = dp_sharding_tx s"
  "dp_swarm_tx (send_swarm cmd s) = dp_swarm_tx s @ (if dp_swarm_open s then [cmd] else [])"
  by (simp_all add: send_swarm_def)

lemma notify_sharding_frame [simp]:
  "dp_cluster_id (notify_sharding env s) = dp_cluster_id s"
  "dp_local_peer_id (notify_sharding env s) = dp_local_peer_id s"
  "dp_known_peers (notify_sharding env s) = dp_known_peers s"
  "dp_readiness (notify_sharding env s) = dp_readiness s"
  "dp_swarm_open (notify_sharding env s) = dp_swarm_open s"
  "dp_sharding_open (notify_sharding env s) = dp_sharding_open s"
  "dp_swarm_tx (notify_sharding env s) = dp_swarm_tx s"
  by (auto simp: notify_sharding_def Let_def split: option.split)

lemma apply_change_frame [simp]:
  "dp_cluster_id (apply_change env c s) = dp_cluster_id s"
  "dp_local_peer_id (apply_change env c s) = dp_local_peer_id s"
  "dp_readiness (apply_change env c s) = dp_readiness s"
  "dp_swarm_open (apply_change env c s) = dp_swarm_open s"
  "dp_sharding_open (apply_change env c s) = dp_sharding_open s"
  "dp_known_peers (apply_change env c s) = member_change c (dp_known_peers s)"
  "dp_swarm_tx (apply_change env c s) =
     dp_swarm_tx s @ (if dp_swarm_open s then command_of c else [])"
  by (cases c; simp)+

lemma process_events_step:
  "process_events env (e # es) s =
     (let c = decode_event env (dp_cluster_id s) (dp_local_peer_id s) e
      in if c = Malformed then (s, Inl Utf8_Error) else process_events env es (apply_change env c s))"
proof (cases "we_event_type e")
  case Event_Put
  then show ?thesis
    by (auto simp: decode_event_def decode_put_def Let_def
        split: option.splits prod.splits if_splits Option.bind_splits)
next
  case Event_Delete
  then show ?thesis
    by (auto simp: decode_event_def Let_def split: option.splits prod.splits Option.bind_splits)
qed


declare process_events.simps(2) [simp del]

abbreviation wellformed :: "('p, 'a) change list \<Rightarrow> ('p, 'a) change list" where
  "wellformed cs \<equiv> takeWhile (\<lambda>c. c \<noteq> Malformed) cs"

lemma process_events_alt:
  "process_events env es s =
     (let cs = map (decode_event env (dp_cluster_id s) (dp_local_peer_id s)) es
      in (fold (apply_change env) (wellformed cs) s,
          if Malformed \<in> set cs then Inl Utf8_Error else Inr ()))"
  by (induction es arbitrary: s) (auto simp: process_events_step Let_def)

lemma fold_apply_change [simp]:
  "dp_cluster_id (fold (apply_change env) cs s) = dp_cluster_id s"
  "dp_local_peer_id (fold (apply_change env) cs s) = dp_local_peer_id s"
  "dp_readiness (fold (apply_change env) cs s) = dp_readiness s"
  "dp_swarm_open (fold (apply_change env) cs s) = dp_swarm_open s"
  "dp_sharding_open (fold (apply_change env) cs s) = dp_sharding_open s"
  "dp_known_peers (fold (apply_change env) cs s) = fold member_change cs (dp_known_peers s)"
  "dp_swarm_tx (fold (apply_change env) cs s) =
     dp_swarm_tx s @ (if dp_swarm_open s then concat (map command_of cs) else [])"
  by (induction cs arbitrary: s) auto

text \<open>The same for the loop of \<open>converge\<close>, which does not notify after each peer.\<close>

fun admit :: "('p, 'a) change \<Rightarrow> ('p, 'a) phases \<Rightarrow> ('p, 'a) phases" where
  "admit (Join p a) s =
     (send_swarm (Cmd_Add_Peer p a) s)\<lparr>dp_known_peers := insert p (dp_known_peers s)\<rparr>"
| "admit _ s = s"

definition joins :: "('p, 'a) change list \<Rightarrow> nat" where
  "joins cs = length (filter (\<lambda>c. case c of Join _ _ \<Rightarrow> True | _ \<Rightarrow> False) cs)"

lemma converge_kvs_step:
  "converge_kvs env (kv # kvs) n s =
     (let c = decode_put env (dp_cluster_id s) (dp_local_peer_id s) kv
      in if c = Malformed then (s, Inl Utf8_Error)
         else converge_kvs env kvs (n + joins [c]) (admit c s))"
  by (cases kv)
    (auto simp: decode_put_def joins_def Let_def
      split: option.splits prod.splits if_splits Option.bind_splits)

declare converge_kvs.simps(2) [simp del]

lemma admit_frame [simp]:
  "dp_cluster_id (admit c s) = dp_cluster_id s"
  "dp_local_peer_id (admit c s) = dp_local_peer_id s"
  "dp_readiness (admit c s) = dp_readiness s"
  "dp_swarm_open (admit c s) = dp_swarm_open s"
  "dp_sharding_open (admit c s) = dp_sharding_open s"
  "dp_sharding_tx (admit c s) = dp_sharding_tx s"
  by (cases c; simp)+

lemma fold_admit [simp]:
  "dp_cluster_id (fold admit cs s) = dp_cluster_id s"
  "dp_local_peer_id (fold admit cs s) = dp_local_peer_id s"
  "dp_readiness (fold admit cs s) = dp_readiness s"
  "dp_swarm_open (fold admit cs s) = dp_swarm_open s"
  "dp_sharding_open (fold admit cs s) = dp_sharding_open s"
  "dp_sharding_tx (fold admit cs s) = dp_sharding_tx s"
  by (induction cs arbitrary: s) auto

lemma fold_admit_known:
  "dp_known_peers (fold admit cs s) = dp_known_peers s \<union> {p. \<exists>a. Join p a \<in> set cs}"
proof (induction cs arbitrary: s)
  case Nil
  then show ?case by simp
next
  case (Cons c cs)
  then show ?case by (cases c) auto
qed

lemma finite_fold_admit: "finite (dp_known_peers s) \<Longrightarrow> finite (dp_known_peers (fold admit cs s))"
proof (induction cs arbitrary: s)
  case Nil
  then show ?case by simp
next
  case (Cons c cs)
  then show ?case by (cases c) auto
qed

lemma decode_put_not_Leave: "decode_put env cl me kv \<noteq> Leave p"
  by (auto simp: decode_put_def split: option.splits prod.splits if_splits)

lemma fold_admit_commands:
  "(\<And>p. Leave p \<notin> set cs) \<Longrightarrow>
     dp_swarm_tx (fold admit cs s) =
       dp_swarm_tx s @ (if dp_swarm_open s then concat (map command_of cs) else [])"
proof (induction cs arbitrary: s)
  case Nil
  then show ?case by simp
next
  case (Cons c cs)
  then show ?case by (cases c) auto
qed

lemma converge_kvs_alt:
  "converge_kvs env kvs n s =
     (let cs = map (decode_put env (dp_cluster_id s) (dp_local_peer_id s)) kvs
      in (fold admit (wellformed cs) s,
          if Malformed \<in> set cs then Inl Utf8_Error else Inr (n + joins cs)))"
proof (induction kvs arbitrary: n s)
  case Nil
  then show ?case by (simp add: joins_def)
next
  case (Cons kv kvs)
  then show ?case by (auto simp: converge_kvs_step Let_def joins_def)
qed

lemma converge_alt:
  "converge env (Inr kvs) s =
     (let cs = map (decode_put env (dp_cluster_id s) (dp_local_peer_id s)) kvs;
          s' = fold admit (wellformed cs) s
      in if Malformed \<in> set cs then (s', Inl Utf8_Error)
         else ((notify_sharding env s')\<lparr>dp_readiness := True\<rparr>, Inr ()))"
  by (simp add: converge_def converge_kvs_alt Let_def)

section \<open>The sharding channel is in step with the membership\<close>

definition sharding_synced :: "('p, 'a) phases \<Rightarrow> bool" where
  "sharding_synced s \<longleftrightarrow>
     finite (dp_known_peers s) \<and>
     (dp_sharding_open s \<longrightarrow>
       (case dp_sharding_tx s of
          Some outs \<Rightarrow> outs \<noteq> [] \<longrightarrow> set (last outs) = dp_known_peers s | None \<Rightarrow> True))"

lemma synced_notify:
  "iteration_order (de_keys env) \<Longrightarrow> finite (dp_known_peers s) \<Longrightarrow> sharding_synced (notify_sharding env s)"
  by (auto simp: sharding_synced_def notify_sharding_def Let_def iteration_orderD split: option.splits)

lemma synced_apply_change:
  assumes "iteration_order (de_keys env)" and "sharding_synced s"
  shows "sharding_synced (apply_change env c s)"
proof -
  have "finite (dp_known_peers s)" using assms(2) by (simp add: sharding_synced_def)
  with assms show ?thesis by (cases c) (simp_all add: synced_notify)
qed

lemma synced_fold_apply_change:
  "iteration_order (de_keys env) \<Longrightarrow> sharding_synced s \<Longrightarrow>
     sharding_synced (fold (apply_change env) cs s)"
  by (induction cs arbitrary: s) (auto intro: synced_apply_change)

definition sharding_notified :: "('p, 'a) phases \<Rightarrow> bool" where
  "sharding_notified s \<longleftrightarrow> (dp_sharding_open s \<longrightarrow> dp_sharding_tx s \<noteq> Some [])"

lemma notified_notify: "sharding_notified (notify_sharding env s)"
  by (auto simp: sharding_notified_def notify_sharding_def Let_def split: option.splits)

lemma notified_apply_change: "sharding_notified s \<Longrightarrow> sharding_notified (apply_change env c s)"
  by (cases c) (simp_all add: notified_notify)

lemma notified_fold_apply_change:
  "sharding_notified s \<Longrightarrow> sharding_notified (fold (apply_change env) cs s)"
  by (induction cs arbitrary: s) (simp_all add: notified_apply_change)


section \<open>Invariant of the controller\<close>

definition ctl_ok :: "('p, 'a) controller \<Rightarrow> bool" where
  "ctl_ok c \<longleftrightarrow>
     sharding_synced (ct_phases c) \<and>
     (ct_pc c \<in> {At_Initialize, At_Register, At_Converge} \<longrightarrow>
        \<not> dp_readiness (ct_phases c) \<and> dp_sharding_tx (ct_phases c) \<in> {None, Some []}) \<and>
     (dp_readiness (ct_phases c) \<longrightarrow> sharding_notified (ct_phases c)) \<and>
     (ct_converged c \<longrightarrow> dp_readiness (ct_phases c)) \<and>
     (ct_pc c \<in> {At_Enter, At_Loop} \<longrightarrow> dp_readiness (ct_phases c)) \<and>
     (ct_pc c \<in> {At_Converge, At_Enter, At_Loop} \<longrightarrow> ct_lease_id c \<noteq> None) \<and>
     (case ct_pc c of
        At_Initialize \<Rightarrow> ct_state c = Initialization
      | At_Register \<Rightarrow> ct_state c = Registration
      | At_Converge \<Rightarrow> ct_state c = Convergence
      | At_Enter \<Rightarrow> ct_state c = Maintenance
      | At_Loop \<Rightarrow> ct_state c = Maintenance
      | Returned (Inl e) \<Rightarrow> True
      | Returned (Inr _) \<Rightarrow>
          ct_state c = Terminating \<and> ct_lease_id c \<noteq> None \<and>
          ct_revoked c = [the (ct_lease_id c)] \<and>
          dp_swarm_tx (ct_phases c) \<noteq> [] \<and> last (dp_swarm_tx (ct_phases c)) = Cmd_Shutdown) \<and>
     (ct_pc c \<in> {At_Initialize, At_Register, At_Converge, At_Enter, At_Loop} \<longrightarrow> ct_revoked c = [])"

lemma ctl_ok_new: "ctl_ok (controller_new (phases_new cl me a so cfg hs sho) b)"
  by (simp add: ctl_ok_def controller_new_def phases_new_def sharding_synced_def sharding_notified_def)

lemma converge_props:
  assumes "iteration_order (de_keys env)" and "sharding_synced s"
    and "dp_sharding_tx s \<in> {None, Some []}" and "\<not> dp_readiness s" and "converge env resp s = (s', r)"
  shows "sharding_synced s'" and "dp_readiness s' \<longleftrightarrow> (\<exists>u. r = Inr u)"
    and "dp_readiness s' \<Longrightarrow> sharding_notified s'"
proof -
  have fin: "finite (dp_known_peers s)" using assms(2) by (simp add: sharding_synced_def)
  have ready: "sharding_synced (s\<lparr>dp_readiness := True\<rparr>) \<longleftrightarrow> sharding_synced s"
    "sharding_notified (s\<lparr>dp_readiness := True\<rparr>) \<longleftrightarrow> sharding_notified s" for s :: "('a, 'b) phases"
    by (simp_all add: sharding_synced_def sharding_notified_def split: option.split)
  have admit: "sharding_synced (fold admit cs s)" for cs
    using assms(3) finite_fold_admit [OF fin, of cs] by (auto simp: sharding_synced_def)
  have notify: "sharding_synced (notify_sharding env (fold admit cs s))" for cs
    by (rule synced_notify [OF assms(1) finite_fold_admit [OF fin]])
  show "sharding_synced s'" "dp_readiness s' \<longleftrightarrow> (\<exists>u. r = Inr u)"
    "dp_readiness s' \<Longrightarrow> sharding_notified s'"
    using assms(2,4,5) admit notify notified_notify ready
    by (cases resp; auto simp: converge_alt Let_def converge_def [of _ "Inl _"] split: if_splits)+
qed

lemma process_watch_props:
  assumes "iteration_order (de_keys env)" and "sharding_synced s"
    and "process_watch_event env msg s = (s', r)"
  shows "sharding_synced s'" and "dp_readiness s' = dp_readiness s"
    and "sharding_notified s \<Longrightarrow> sharding_notified s'"
  using assms synced_fold_apply_change [OF assms(1,2)] notified_fold_apply_change [of s env]
  by (cases msg; auto simp: process_events_alt Let_def split: if_splits)+

lemma send_swarm_synced [simp]:
  "sharding_synced (send_swarm cmd s) = sharding_synced s"
  "sharding_notified (send_swarm cmd s) = sharding_notified s"
  by (simp_all add: sharding_synced_def sharding_notified_def split: option.split)

lemma ctl_ok_step:
  assumes ord: "iteration_order (de_keys env)" and ok: "ctl_ok c" and st: "ctl_step env i c = Some c'"
  shows "ctl_ok c'"
proof (cases i)
  case (In_Peers resp)
  obtain s r where conv: "converge env resp (ct_phases c) = (s, r)"
    by (cases "converge env resp (ct_phases c)")
  have pc: "ct_pc c = At_Converge" using st In_Peers by (simp split: if_splits)
  have "sharding_synced (ct_phases c)" "dp_sharding_tx (ct_phases c) \<in> {None, Some []}"
    "\<not> dp_readiness (ct_phases c)" "\<not> ct_converged c"
    using ok pc by (auto simp: ctl_ok_def)
  note props = this(4) converge_props [OF ord this(1-3) conv]
  with ok st In_Peers conv pc show ?thesis
    by (cases r) (auto simp: ctl_ok_def Let_def)
next
  case (In_Watch msg reopen)
  obtain s r where pw: "process_watch_event env msg (ct_phases c) = (s, r)"
    by (cases "process_watch_event env msg (ct_phases c)")
  have pc: "ct_pc c = At_Loop" using st In_Watch by (simp split: if_splits)
  have "sharding_synced (ct_phases c)" using ok by (simp add: ctl_ok_def)
  note props = process_watch_props [OF ord this pw]
  with ok st In_Watch pw pc show ?thesis
    by (cases r; cases reopen) (auto simp: ctl_ok_def enter_maintenance_def)
qed (use ok st in \<open>auto simp: ctl_ok_def shutdown_def initialize_phase_def enter_maintenance_def
      Let_def split: if_splits sum.splits prod.splits option.splits\<close>)

lemma ctl_reach_ok:
  "ctl_reach env c0 c \<Longrightarrow> iteration_order (de_keys env) \<Longrightarrow> ctl_ok c0 \<Longrightarrow> ctl_ok c"
  by (induction rule: ctl_reach.induct) (auto intro: ctl_ok_step)


lemma strip_peer_key:
  "strip_prefix (peer_key env cl p) (peers_prefix cl) = Some (de_to_base58 env p)"
  using strip_prefix_append [of "peers_prefix cl" "de_to_base58 env p"]
  by (simp add: peer_key_def peers_prefix_def)

text \<open>What the parsers promise: each reads back what its printer writes.\<close>

definition parsers_ok :: "('p, 'a) disc_env \<Rightarrow> bool" where
  "parsers_ok env \<longleftrightarrow>
     (\<forall>p. de_parse_peer env (de_to_base58 env p) = Some p) \<and>
     (\<forall>a. de_parse_addr env (de_show_addr env a) = Some a) \<and>
     (\<forall>m j. de_to_json env m = Inr j \<longrightarrow> de_from_json env j = Some m)"

lemma decode_registered:
  assumes "parsers_ok env" and "register_phase env grant keep_alive put s = Inr (lease, k, v)"
    and "dp_local_peer_id s \<noteq> me"
  shows "decode_put env (dp_cluster_id s) me (Some k, Some v) =
    Join (dp_local_peer_id s) (dp_local_addr s)"
  using assms
  by (auto simp: register_phase_def decode_put_def parsers_ok_def strip_peer_key Let_def
      split: sum.splits)

section \<open>Properties\<close>

definition sample_disc_env :: "(string, string) disc_env" where
  "sample_disc_env =
     \<lparr>de_to_base58 = id, de_parse_peer = Some, de_show_addr = id, de_parse_addr = Some,
      de_to_json = (\<lambda>m. if m = \<lparr>md_multiaddr = md_multiaddr m, md_meta = Map.empty, md_shard = 0\<rparr>
                        then Inr (md_multiaddr m) else Inl ''unsupported''),
      de_from_json = (\<lambda>j. Some \<lparr>md_multiaddr = j, md_meta = Map.empty, md_shard = 0\<rparr>),
      de_keys = sorted_list_of_set\<rparr>"

definition sample_phases :: "string \<Rightarrow> string \<Rightarrow> (string, string) phases" where
  "sample_phases p a = phases_new ''c'' p a True network_config_default True True"

lemma parsers_ok_sample: "parsers_ok sample_disc_env"
  by (simp add: parsers_ok_def sample_disc_env_def)

lemma iteration_order_sample_disc: "iteration_order (de_keys sample_disc_env)"
  by (simp add: sample_disc_env_def iteration_order_sorted)

text \<open>A run of a controller that registers, finds one other peer and converges.\<close>

lemma sample_controller_converges:
  "\<exists>c. ctl_reach sample_disc_env
       (controller_new (phases_new ''c'' ''p'' ''addr'' True network_config_default True True) True) c \<and>
     ct_state c = Maintenance \<and> dp_readiness (ct_phases c) \<and> dp_known_peers (ct_phases c) = {''p'', ''q''} \<and>
     dp_swarm_tx (ct_phases c) = [Cmd_Add_Peer ''q'' ''addr'']"
proof -
  let ?init = "controller_new (phases_new ''c'' ''p'' ''addr'' True network_config_default True True) True"
  let ?kvs = "[(Some (peer_key sample_disc_env ''c'' ''q''), Some ''addr'')]"
  let ?r = "?init\<lparr>ct_state := Registration, ct_pc := At_Register\<rparr>"
  let ?g = "?r\<lparr>ct_lease_id := Some 7, ct_registered := Some (peer_key sample_disc_env ''c'' ''p'', ''addr''),
    ct_state := Convergence, ct_pc := At_Converge\<rparr>"
  have fields: "de_to_base58 sample_disc_env = id" "de_parse_peer sample_disc_env = Some"
    "de_parse_addr sample_disc_env = Some"
    "de_from_json sample_disc_env v = Some \<lparr>md_multiaddr = v, md_meta = Map.empty, md_shard = 0\<rparr>" for v
    by (simp_all add: sample_disc_env_def)
  have 1: "ctl_step sample_disc_env (In_Status (Inr ''3.5'')) ?init = Some ?r"
    by (simp add: controller_new_def initialize_phase_def)
  have 2: "ctl_step sample_disc_env (In_Register (Inr 7) (Inr ()) (\<lambda>_ _. Inr ())) ?r = Some ?g"
    by (simp add: controller_new_def register_phase_def phases_new_def)
      (simp add: sample_disc_env_def)
  obtain c where 3: "ctl_step sample_disc_env (In_Peers (Inr ?kvs)) ?g = Some c"
    "ct_state c = Maintenance" "dp_readiness (ct_phases c)" "dp_known_peers (ct_phases c) = {''p'', ''q''}"
    "dp_swarm_tx (ct_phases c) = [Cmd_Add_Peer ''q'' ''addr'']"
    by (simp add: controller_new_def phases_new_def converge_def converge_kvs.simps strip_peer_key Let_def fields
        insert_commute)
  show ?thesis
    using 3(2-) ctl_reach.step [OF ctl_reach.step [OF ctl_reach.step [OF ctl_reach.start 1] 2] 3(1)] by blast
qed

text \<open>
  C11. Invariant of the discovery state machine, for every reachable state: the recorded phase agrees
  with the point the controller has reached; the node is marked ready, and the convergence signal is
  sent, only after the initial peer list has been handed to the sharding coordinator; from then on the
  last list handed over always is the current set of known peers; a lease is held from registration on;
  and the controller returns successfully only after it has revoked exactly its own lease and sent the
  shutdown command to the swarm last.
\<close>

theorem discovery_controller_invariant:
  assumes "ctl_reach env (controller_new (phases_new cl me a so cfg hs sho) b) c"
    and "iteration_order (de_keys env)"
  shows "ctl_ok c"
  by (rule ctl_reach_ok [OF assms ctl_ok_new])

theorem discovery_controller_invariant_witness:
  "\<exists>c. ct_state c = Maintenance \<and> dp_known_peers (ct_phases c) = {''p'', ''q''} \<and>
     (ctl_ok :: (string, string) controller \<Rightarrow> bool) c"
proof -
  obtain c where c: "ctl_reach sample_disc_env
      (controller_new (phases_new ''c'' ''p'' ''addr'' True network_config_default True True) True) c"
    "ct_state c = Maintenance" "dp_known_peers (ct_phases c) = {''p'', ''q''}"
    using sample_controller_converges by blast
  have "ctl_ok c" by (rule discovery_controller_invariant [OF c(1) iteration_order_sample_disc])
  with c(2,3) show ?thesis by blast
qed

text \<open>
  C18. Watch events are applied as the membership changes they mean: up to the first event with an
  invalid encoding, each event is decoded into a join, a departure or nothing; the known peers are the
  changes applied in order, the swarm receives one command per join and departure in the same order,
  and the processing fails exactly when an event is malformed.
\<close>

theorem watch_applies_membership_changes:
  assumes "process_watch_event env (Watch_Response False es) s = (s', r)"
    and "cs = map (decode_event env (dp_cluster_id s) (dp_local_peer_id s)) es"
  shows "dp_known_peers s' = fold member_change (wellformed cs) (dp_known_peers s) \<and>
    dp_swarm_tx s' =
      dp_swarm_tx s @ (if dp_swarm_open s then concat (map command_of (wellformed cs)) else []) \<and>
    r = (if Malformed \<in> set cs then Inl Utf8_Error else Inr ()) \<and>
    dp_readiness s' = dp_readiness s"
  using assms by (auto simp: process_events_alt Let_def)

theorem watch_applies_membership_changes_witness:
  "dp_known_peers (fst (process_watch_event sample_disc_env
     (Watch_Response False
       [\<lparr>we_event_type = Event_Put, we_kv = Some (Some (peer_key sample_disc_env ''c'' ''q''), Some ''addr'')\<rparr>])
     (sample_phases ''p'' ''x''))) = {''p'', ''q''}"
proof -
  let ?e = "\<lparr>we_event_type = Event_Put, we_kv = Some (Some (peer_key sample_disc_env ''c'' ''q''), Some ''addr'')\<rparr>"
  let ?s = "sample_phases ''p'' ''x''"
  obtain s' r where h: "process_watch_event sample_disc_env (Watch_Response False [?e]) ?s = (s', r)"
    by (cases "process_watch_event sample_disc_env (Watch_Response False [?e]) ?s")
  have "decode_event sample_disc_env ''c'' ''p'' ?e = Join ''q'' ''addr''"
    by (simp add: decode_event_def decode_put_def strip_peer_key) (simp add: sample_disc_env_def)
  with watch_applies_membership_changes [OF h refl] h show ?thesis
    by (auto simp: sample_phases_def phases_new_def)
qed

text \<open>
  Convergence: from an etcd answer without invalid encodings, the known peers become the previous
  ones and every peer that the answer announces under a valid key with valid metadata; the swarm is
  told about each of them, the sharding coordinator receives one list with exactly the known peers, and
  the node becomes ready.
\<close>

lemma converge_collects_all_peers:
  assumes "iteration_order (de_keys env)" and "finite (dp_known_peers s)"
    and "dp_swarm_open s" and "dp_sharding_open s" and "dp_sharding_tx s = Some []"
    and "cs = map (decode_put env (dp_cluster_id s) (dp_local_peer_id s)) kvs" and "Malformed \<notin> set cs"
  shows "\<exists>s' peers. converge env (Inr kvs) s = (s', Inr ()) \<and> dp_readiness s' \<and>
    dp_known_peers s' = dp_known_peers s \<union> {p. \<exists>a. Join p a \<in> set cs} \<and>
    dp_swarm_tx s' = dp_swarm_tx s @ concat (map command_of cs) \<and>
    dp_sharding_tx s' = Some [peers] \<and> distinct peers \<and> set peers = dp_known_peers s'"
proof -
  have wf: "wellformed cs = cs" using assms(7) by (auto simp: takeWhile_eq_all_conv)
  have "Leave p \<notin> set cs" for p using assms(6) by (auto dest: decode_put_not_Leave [THEN notE, rotated] sym)
  note commands = fold_admit_commands [OF this, of s]
  note fin = finite_fold_admit [OF assms(2), of cs]
  have "converge env (Inr kvs) s =
      ((notify_sharding env (fold admit cs s))\<lparr>dp_readiness := True\<rparr>, Inr ())"
    using assms(7) by (simp add: converge_alt Let_def flip: assms(6)) (simp only: wf)
  then show ?thesis
    using assms(3-5) commands fold_admit_known [of cs s] iteration_orderD [OF assms(1) fin]
    by (simp add: notify_sharding_def Let_def)
qed

text \<open>
  C34. The watch handler does not protect the local peer: a delete event for the node's own key (which
  etcd emits when the node's lease expires) removes the node from its own membership and from the list
  given to its sharding coordinator, while a later put of the same key is ignored.
\<close>

theorem own_delete_evicts_local:
  assumes "parsers_ok env" and "iteration_order (de_keys env)" and "sharding_synced s"
    and "dp_sharding_tx s = Some outs" and "dp_sharding_open s"
    and "k = peer_key env (dp_cluster_id s) (dp_local_peer_id s)"
  shows "\<exists>s' peers. process_events env
        [\<lparr>we_event_type = Event_Delete, we_kv = Some (Some k, v)\<rparr>,
         \<lparr>we_event_type = Event_Put, we_kv = Some (Some k, Some w)\<rparr>] s = (s', Inr ()) \<and>
    dp_known_peers s' = dp_known_peers s - {dp_local_peer_id s} \<and>
    dp_sharding_tx s' = Some (outs @ [peers]) \<and> dp_local_peer_id s \<notin> set peers"
proof -
  have "finite (dp_known_peers s - {dp_local_peer_id s})"
    using assms(3) by (simp add: sharding_synced_def)
  from iteration_orderD(2) [OF assms(2) this] show ?thesis
    using assms(1,4,5)
    by (simp add: process_events_step decode_event_def decode_put_def parsers_ok_def strip_peer_key
        assms(6) Let_def) (simp add: notify_sharding_def)
qed

theorem own_delete_evicts_local_witness:
  "\<exists>s' peers. process_events sample_disc_env
     [\<lparr>we_event_type = Event_Delete, we_kv = Some (Some (peer_key sample_disc_env ''c'' ''p''), None)\<rparr>,
      \<lparr>we_event_type = Event_Put, we_kv = Some (Some (peer_key sample_disc_env ''c'' ''p''), Some ''x'')\<rparr>]
     (sample_phases ''p'' ''x'') = (s', Inr ()) \<and> dp_sharding_tx s' = Some [peers] \<and> ''p'' \<notin> set peers"
proof -
  have s: "sharding_synced (sample_phases ''p'' ''x'')" "dp_sharding_tx (sample_phases ''p'' ''x'') = Some []"
    "dp_sharding_open (sample_phases ''p'' ''x'')"
    "peer_key sample_disc_env ''c'' ''p'' = peer_key sample_disc_env
       (dp_cluster_id (sample_phases ''p'' ''x'')) (dp_local_peer_id (sample_phases ''p'' ''x''))"
    "dp_local_peer_id (sample_phases ''p'' ''x'') = ''p''"
    by (simp_all add: sample_phases_def phases_new_def sharding_synced_def)
  from own_delete_evicts_local [OF parsers_ok_sample iteration_order_sample_disc s(1-4), of None "''x''"]
  show ?thesis by (auto simp: s(5))
qed

text \<open>
  When the watch stream has ended, the controller's loop goes round without changing anything and without
  reopening the watch; when the stream fails or is cancelled and can be reopened, the controller goes on
  with the membership it had.
\<close>

lemma broken_watch_keeps:
  assumes "ct_pc c = At_Loop" and "\<forall>es. msg \<noteq> Watch_Response False es"
  shows "ctl_step env (In_Watch msg (Inr ())) c = Some c"
  using assms by (cases msg) (auto simp: enter_maintenance_def)

text \<open>
  The keep-alive task signals the internal shutdown channel exactly when some keep-alive fails,
  and makes no request after the first failure.
\<close>

lemma keepalive_signals_first_failure:
  "keepalive_task ocs =
     (let answered = takeWhile (\<lambda>oc. case oc of Ka_Response _ \<Rightarrow> True | _ \<Rightarrow> False) ocs
      in if length answered < length ocs then (length answered + 1, True)
         else (length answered, False))"
  by (induction ocs) (auto simp: Let_def split: keepalive_outcome.split)

end
