(* ===== verification/Swarm.thy ===== *)
theory Swarm
  imports Discovery
begin

text \<open>
  The swarm's event loop: \<^verbatim>\<open>crates/neolaas-server/src/network/swarm/event_loop.rs\<close>.

  Calls into libp2p (the Kademlia routing table and dialling) are recorded in order in \<open>sw_calls\<close>; whether
  a dial fails is only logged by the code. The components of a \<^verbatim>\<open>Multiaddr\<close> are given by the parameter
  \<open>protocols\<close>. The network state is shared with other tasks; a handler's operations on it are atomic
  steps of \<open>Network_State\<close>.
\<close>

section \<open>Model\<close>

datatype protocol = Ip4 u32 | Tcp u16 | Other_Protocol string

datatype ('p, 'a) swarm_call = Kad_Add_Address 'p 'a | Kad_Remove_Peer 'p | Dial 'a

record ('p, 'a) swarm =
  sw_calls :: "('p, 'a) swarm_call list"
  sw_state :: "'p network_state"

datatype ('p, 'a) swarm_event =
    New_Listen_Addr 'a
  | Connection_Established 'p
  | Connection_Closed 'p
  | Mdns_Discovered "('p \<times> 'a) list"
  | Mdns_Expired "('p \<times> 'a) list"
  | Identify_Received 'p "'a list"
  | Identify_Sent 'p
  | Identify_Pushed 'p
  | Identify_Error 'p string
  | Kademlia_Event string
  | Kameo_Event string
  | Incoming_Connection
  | Outgoing_Connection_Error "'p option" string
  | Incoming_Connection_Error string
  | Other_Swarm_Event

definition call_swarm :: "('p, 'a) swarm_call \<Rightarrow> ('p, 'a) swarm \<Rightarrow> ('p, 'a) swarm" where
  "call_swarm c sw = sw\<lparr>sw_calls := sw_calls sw @ [c]\<rparr>"

text \<open>\<open>t\<close> are the clock readings that the operation on the network state makes.\<close>

fun handle_swarm_event ::
  "instant \<times> instant \<Rightarrow> ('p, 'a) swarm_event \<Rightarrow> ('p, 'a) swarm \<Rightarrow> ('p, 'a) swarm" where
  "handle_swarm_event t (Connection_Established peer_id) sw =
     sw\<lparr>sw_state := mark_connected t peer_id (sw_state sw)\<rparr>"
| "handle_swarm_event t (Connection_Closed peer_id) sw =
     sw\<lparr>sw_state := mark_disconnected (fst t) peer_id (sw_state sw)\<rparr>"
| "handle_swarm_event t (Mdns_Discovered peers) sw =
     fold (\<lambda>(peer_id, multiaddr). call_swarm (Dial multiaddr) \<circ> call_swarm (Kad_Add_Address peer_id multiaddr))
       peers sw"
| "handle_swarm_event t (Mdns_Expired peers) sw =
     fold (\<lambda>(peer_id, multiaddr). call_swarm (Kad_Remove_Peer peer_id)) peers sw"
| "handle_swarm_event t (Identify_Received peer_id listen_addrs) sw =
     fold (\<lambda>addr. call_swarm (Kad_Add_Address peer_id addr)) listen_addrs sw"
| "handle_swarm_event t _ sw = sw"

definition find_ip4 :: "protocol list \<Rightarrow> ip_addr option" where
  "find_ip4 ps =
     (case find (\<lambda>p. case p of Ip4 _ \<Rightarrow> True | _ \<Rightarrow> False) ps of
        Some (Ip4 ip) \<Rightarrow> Some (V4 ip) | _ \<Rightarrow> None)"

definition find_tcp :: "protocol list \<Rightarrow> u16 option" where
  "find_tcp ps =
     (case find (\<lambda>p. case p of Tcp _ \<Rightarrow> True | _ \<Rightarrow> False) ps of
        Some (Tcp port) \<Rightarrow> Some port | _ \<Rightarrow> None)"

fun handle_discovery_command ::
  "('p \<Rightarrow> string) \<Rightarrow> ('a \<Rightarrow> protocol list) \<Rightarrow> instant \<Rightarrow> ('p, 'a) discovery_command \<Rightarrow>
     ('p, 'a) swarm \<Rightarrow> ('p, 'a) swarm" where
  "handle_discovery_command to_base58 protocols now (Cmd_Add_Peer peer_id addr) sw =
     (let sw = call_swarm (Kad_Add_Address peer_id addr) sw
      in case find_ip4 (protocols addr) of
           None \<Rightarrow> sw
         | Some ip \<Rightarrow>
             (case find_tcp (protocols addr) of
                None \<Rightarrow> sw
              | Some port \<Rightarrow>
                  (let peer_info = \<lparr>pi_pod_name = ''peer-'' @ to_base58 peer_id,
                                    pi_address = ip, pi_port = port\<rparr>;
                       sw = sw\<lparr>sw_state := add_peer now peer_id peer_info (sw_state sw)\<rparr>
                   in call_swarm (Dial addr) sw)))"
| "handle_discovery_command to_base58 protocols now (Cmd_Remove_Peer peer_id) sw =
     (let sw = call_swarm (Kad_Remove_Peer peer_id) sw
      in sw\<lparr>sw_state := remove_peer peer_id (sw_state sw)\<rparr>)"
| "handle_discovery_command to_base58 protocols now Cmd_Shutdown sw = sw"

text \<open>One turn of the event loop, and one tick of the cleanup loop.\<close>

datatype ('p, 'a) loop_input =
    Swarm_Event "instant \<times> instant" "('p, 'a) swarm_event"
  | Discovery_Command instant "('p, 'a) discovery_command"
  | Cleanup_Tick "'p \<Rightarrow> instant" "'p set \<Rightarrow> 'p list"

fun event_loop_step ::
  "('p \<Rightarrow> string) \<Rightarrow> ('a \<Rightarrow> protocol list) \<Rightarrow> ('p, 'a) loop_input \<Rightarrow> ('p, 'a) swarm \<Rightarrow> ('p, 'a) swarm" where
  "event_loop_step to_base58 protocols (Swarm_Event t e) sw = handle_swarm_event t e sw"
| "event_loop_step to_base58 protocols (Discovery_Command now c) sw =
     handle_discovery_command to_base58 protocols now c sw"
| "event_loop_step to_base58 protocols (Cleanup_Tick clock keys) sw =
     sw\<lparr>sw_state := cleanup_stale_peers clock keys (cf_stale_peer_max_age (ns_config (sw_state sw))) (sw_state sw)\<rparr>"

section \<open>Lemmas\<close>

lemma call_swarm_state [simp]: "sw_state (call_swarm c sw) = sw_state sw"
  by (simp add: call_swarm_def)

lemma fold_calls_state:
  "sw_state (fold (\<lambda>(p, a). call_swarm (f p a)) xs sw) = sw_state sw"
  "sw_state (fold (\<lambda>(p, a). call_swarm (g p a) \<circ> call_swarm (f p a)) xs sw) = sw_state sw"
  "sw_state (fold (\<lambda>a. call_swarm (h a)) ys sw) = sw_state sw"
  by (induction xs arbitrary: sw, simp_all add: case_prod_beta) (induction ys arbitrary: sw, simp_all)

definition swarm_ok :: "('p, 'a) swarm \<Rightarrow> bool" where
  "swarm_ok sw \<longleftrightarrow> net_ok (sw_state sw)"

lemma event_loop_step_ok: "swarm_ok sw \<Longrightarrow> swarm_ok (event_loop_step b pr i sw)"
proof (cases i)
  case (Swarm_Event t e)
  then show "swarm_ok sw \<Longrightarrow> ?thesis"
    using net_ok_step [of "sw_state sw" "Mark_Connected t _"]
      net_ok_step [of "sw_state sw" "Mark_Disconnected (fst t) _"]
    by (cases e) (auto simp: swarm_ok_def fold_calls_state)
next
  case (Discovery_Command now c)
  then show "swarm_ok sw \<Longrightarrow> ?thesis"
    by (cases c) (auto simp: swarm_ok_def Let_def net_ok_add_peer net_ok_remove_peer split: option.split)
next
  case (Cleanup_Tick clock keys)
  then show "swarm_ok sw \<Longrightarrow> ?thesis" by (simp add: swarm_ok_def net_ok_cleanup)
qed

interpretation event_loop: invariant_step "event_loop_step b pr" "\<lambda>_. True" swarm_ok for b pr
  by unfold_locales (rule event_loop_step_ok)

text \<open>The peers that the network state tracks after a sequence of discovery commands.\<close>

definition dialable :: "('a \<Rightarrow> protocol list) \<Rightarrow> 'a \<Rightarrow> bool" where
  "dialable pr a \<longleftrightarrow> find_ip4 (pr a) \<noteq> None \<and> find_tcp (pr a) \<noteq> None"

fun tracked_step :: "('a \<Rightarrow> protocol list) \<Rightarrow> ('p, 'a) discovery_command \<Rightarrow> 'p set \<Rightarrow> 'p set" where
  "tracked_step pr (Cmd_Add_Peer p a) S = (if dialable pr a then insert p S else S)"
| "tracked_step pr (Cmd_Remove_Peer p) S = S - {p}"
| "tracked_step pr Cmd_Shutdown S = S"

lemma tracked_step_mono: "S \<subseteq> T \<Longrightarrow> tracked_step pr c S \<subseteq> tracked_step pr c T"
  by (cases c) auto

text \<open>The addresses that the commands have announced for a peer since they last removed it.\<close>

fun announce_step :: "('p, 'a) discovery_command \<Rightarrow> ('p \<Rightarrow> 'a set) \<Rightarrow> ('p \<Rightarrow> 'a set)" where
  "announce_step (Cmd_Add_Peer p a) f = f(p := insert a (f p))"
| "announce_step (Cmd_Remove_Peer p) f = f(p := {})"
| "announce_step Cmd_Shutdown f = f"

definition announced :: "('p, 'a) discovery_command list \<Rightarrow> 'p \<Rightarrow> 'a set" where
  "announced cs = fold announce_step cs (\<lambda>_. {})"

definition reachable_peers :: "('a \<Rightarrow> protocol list) \<Rightarrow> ('p, 'a) discovery_command list \<Rightarrow> 'p set" where
  "reachable_peers pr cs = {p. \<exists>a\<in>announced cs p. dialable pr a}"

lemma tracked_reachable: "fold (tracked_step pr) cs {} = reachable_peers pr cs"
proof -
  have step: "tracked_step pr c {p. \<exists>a\<in>f p. dialable pr a} = {p. \<exists>a\<in>announce_step c f p. dialable pr a}" for c f
    by (cases c) (auto split: if_splits)
  have "fold (tracked_step pr) cs {p. \<exists>a\<in>f p. dialable pr a} =
      {p. \<exists>a\<in>fold announce_step cs f p. dialable pr a}" for f
    by (induction cs arbitrary: f) (simp_all only: fold_simps step)
  from this [of "\<lambda>_. {}"] show ?thesis by (simp add: reachable_peers_def announced_def)
qed

lemma command_tracked:
  "dom (ns_peers (sw_state (handle_discovery_command b pr now c sw))) =
     tracked_step pr c (dom (ns_peers (sw_state sw)))"
  by (cases c)
    (auto simp: Let_def dialable_def add_peer_def remove_peer_def split: option.split)

text \<open>Only cleanup and removal forget a peer: swarm events keep the set of tracked peers.\<close>

lemma swarm_event_tracked:
  "dom (ns_peers (sw_state (handle_swarm_event t e sw))) = dom (ns_peers (sw_state sw))"
  by (cases e)
    (auto simp: fold_calls_state mark_connected_def mark_disconnected_def update_peer_def
      split: option.split)

section \<open>Properties\<close>

text \<open>
  The event loop tracks the discovered peers: whatever connection, mDNS and identify events and cleanup
  ticks are interleaved, after any sequence of turns the entries of the network state are consistent and
  belong to peers for which the discovery commands have announced an address with IPv4 and TCP parts since
  they last removed them; without cleanup, to all of these.
\<close>

definition commands_of :: "('p, 'a) loop_input list \<Rightarrow> ('p, 'a) discovery_command list" where
  "commands_of inputs = List.map_filter (\<lambda>i. case i of Discovery_Command _ c \<Rightarrow> Some c | _ \<Rightarrow> None) inputs"

definition no_cleanup :: "('p, 'a) loop_input list \<Rightarrow> bool" where
  "no_cleanup inputs \<longleftrightarrow> list_all (\<lambda>i. case i of Cleanup_Tick _ _ \<Rightarrow> False | _ \<Rightarrow> True) inputs"

lemma loop_tracked:
  "dom (ns_peers (sw_state sw)) \<subseteq> S \<Longrightarrow>
     dom (ns_peers (sw_state (fold (event_loop_step b pr) inputs sw))) \<subseteq> fold (tracked_step pr) (commands_of inputs) S"
proof (induction inputs arbitrary: sw S)
  case (Cons i inputs)
  show ?case
  proof (cases i)
    case (Swarm_Event t e)
    with Cons.IH [of "handle_swarm_event t e sw" S] Cons.prems show ?thesis
      by (simp add: swarm_event_tracked commands_of_def map_filter_simps)
  next
    case (Discovery_Command now c)
    with Cons.IH [of "handle_discovery_command b pr now c sw" "tracked_step pr c S"] Cons.prems show ?thesis
      by (simp add: command_tracked commands_of_def map_filter_simps tracked_step_mono)
  next
    case (Cleanup_Tick clock keys)
    with Cons.IH [of "event_loop_step b pr i sw" S] Cons.prems cleanup_dom show ?thesis
      by (fastforce simp: commands_of_def map_filter_simps)
  qed
qed (simp add: commands_of_def map_filter_simps)

lemma event_loop_tracks_discovery:
  assumes "sw' = fold (event_loop_step b pr) inputs \<lparr>sw_calls = [], sw_state = network_state_new me cfg\<rparr>"
  shows "net_ok (sw_state sw')"
    and "dom (ns_peers (sw_state sw')) \<subseteq> reachable_peers pr (commands_of inputs)"
    and "no_cleanup inputs \<Longrightarrow> dom (ns_peers (sw_state sw')) = reachable_peers pr (commands_of inputs)"
proof -
  have "swarm_ok (fold (event_loop_step b pr) inputs \<lparr>sw_calls = [], sw_state = network_state_new me cfg\<rparr>)"
    by (rule event_loop.run_inv) (simp_all add: list.pred_True swarm_ok_def net_ok_new)
  then show "net_ok (sw_state sw')" by (simp add: assms swarm_ok_def)
  show "dom (ns_peers (sw_state sw')) \<subseteq> reachable_peers pr (commands_of inputs)"
    unfolding assms tracked_reachable [symmetric] by (rule loop_tracked) (simp add: network_state_new_def)
  assume "no_cleanup inputs"
  then have "dom (ns_peers (sw_state (fold (event_loop_step b pr) inputs sw))) =
      fold (tracked_step pr) (commands_of inputs) (dom (ns_peers (sw_state sw)))" for sw
    by (induction inputs arbitrary: sw)
      (auto simp: map_filter_simps command_tracked swarm_event_tracked no_cleanup_def commands_of_def
        split: loop_input.splits)
  then show "dom (ns_peers (sw_state sw')) = reachable_peers pr (commands_of inputs)"
    by (simp add: assms network_state_new_def flip: tracked_reachable)
qed

end
