(* ===== verification/Health.thy ===== *)
theory Health
  imports Network_State
begin

text \<open>
  Health monitoring: \<^verbatim>\<open>crates/neolaas-server/src/network/health/actor.rs\<close>, \<^verbatim>\<open>health/messages.rs\<close> and
  \<^verbatim>\<open>health/ping_loop.rs\<close>.

  The ping loop shares the network state with other tasks and gives up control at every await. What
  other tasks do to the shared state at each of these points of one iteration is part of the
  iteration's input (\<open>pg_before\<close>, \<open>pg_between\<close>, \<open>pg_during\<close>, \<open>pg_recheck\<close>), as are the clock readings and
  the peer's answer; so a run covers every interleaving.
\<close>

section \<open>The health actor\<close>

record 'p ping_message =
  pm_from_node :: string
  pm_from_peer :: 'p
  pm_sequence :: u64
  pm_timestamp :: timestamp

record pong_reply =
  po_from_node :: string
  po_received_sequence :: u64

record 'p broadcast_message =
  bm_from_node :: string
  bm_from_peer :: 'p
  bm_content :: string
  bm_timestamp :: timestamp

record ack_reply =
  ak_from_node :: string
  ak_success :: bool

record stats_reply =
  sr_node_id :: string
  sr_pings_received :: u64
  sr_pongs_sent :: u64

record health_actor =
  ha_node_id :: string
  ha_ping_count :: u64
  ha_pong_count :: u64

definition health_actor_new :: "string \<Rightarrow> health_actor" where
  "health_actor_new node_id = \<lparr>ha_node_id = node_id, ha_ping_count = 0, ha_pong_count = 0\<rparr>"

definition get_stats :: "health_actor \<Rightarrow> u64 \<times> u64" where
  "get_stats h = (ha_ping_count h, ha_pong_count h)"

definition handle_ping :: "'p ping_message \<Rightarrow> health_actor \<Rightarrow> health_actor \<times> pong_reply" where
  "handle_ping msg h =
     (let h = h\<lparr>ha_ping_count := ha_ping_count h + 1\<rparr>;
          from_node = ha_node_id h;
          h = h\<lparr>ha_pong_count := ha_pong_count h + 1\<rparr>
      in (h, \<lparr>po_from_node = from_node, po_received_sequence = pm_sequence msg\<rparr>))"

definition handle_broadcast :: "'p broadcast_message \<Rightarrow> health_actor \<Rightarrow> health_actor \<times> ack_reply" where
  "handle_broadcast msg h = (h, \<lparr>ak_from_node = ha_node_id h, ak_success = True\<rparr>)"

definition handle_get_stats :: "health_actor \<Rightarrow> health_actor \<times> stats_reply" where
  "handle_get_stats h =
     (h, \<lparr>sr_node_id = ha_node_id h, sr_pings_received = ha_ping_count h,
          sr_pongs_sent = ha_pong_count h\<rparr>)"

datatype 'p health_msg = Ping "'p ping_message" | Broadcast "'p broadcast_message" | Get_Stats

fun health_step :: "'p health_msg \<Rightarrow> health_actor \<Rightarrow> health_actor" where
  "health_step (Ping msg) h = fst (handle_ping msg h)"
| "health_step (Broadcast msg) h = fst (handle_broadcast msg h)"
| "health_step Get_Stats h = fst (handle_get_stats h)"

section \<open>The ping loop\<close>

text \<open>One element of the stream of registered health actors, with what happens while it is handled.\<close>

record 'p ping_item =
  pg_peer_id :: "'p option"
  pg_before :: "'p net_op list"
  pg_between :: "'p net_op list"
  pg_now :: instant
  pg_timestamp :: timestamp
  pg_during :: "'p net_op list"
  pg_reply :: "pong_reply option"
  pg_recheck :: "'p net_op list"
  pg_times :: "instant \<times> instant"

record 'p ping_round_state =
  pr_state :: "'p network_state"
  pr_sent_count :: nat
  pr_skipped_count :: nat
  pr_messages :: "('p \<times> 'p ping_message) list"

definition interfere :: "'p net_op list \<Rightarrow> 'p ping_round_state \<Rightarrow> 'p ping_round_state" where
  "interfere ops r = r\<lparr>pr_state := fold net_step ops (pr_state r)\<rparr>"

definition ping_one ::
  "'p \<Rightarrow> string \<Rightarrow> u64 \<Rightarrow> 'p ping_item \<Rightarrow> 'p ping_round_state \<Rightarrow> 'p ping_round_state" where
  "ping_one local_peer_id node_id sequence item r =
     (let r = interfere (pg_before item) r
      in if pg_peer_id item = Some local_peer_id then r
         else case pg_peer_id item of
           None \<Rightarrow> r
         | Some peer_id \<Rightarrow>
             if \<not> has_peer peer_id (pr_state r) then r\<lparr>pr_skipped_count := pr_skipped_count r + 1\<rparr>
             else
               (let r = interfere (pg_between item) r
                in if should_skip_ping (pg_now item) peer_id (pr_state r)
                   then r\<lparr>pr_skipped_count := pr_skipped_count r + 1\<rparr>
                   else
                     (let ping_msg = \<lparr>pm_from_node = node_id, pm_from_peer = local_peer_id,
                                      pm_sequence = sequence, pm_timestamp = pg_timestamp item\<rparr>;
                          r = r\<lparr>pr_messages := pr_messages r @ [(peer_id, ping_msg)]\<rparr>;
                          r = interfere (pg_during item) r
                      in case pg_reply item of
                           Some pong \<Rightarrow>
                             r\<lparr>pr_sent_count := pr_sent_count r + 1,
                               pr_state := mark_success (fst (pg_times item)) peer_id (pr_state r)\<rparr>
                         | None \<Rightarrow>
                             if \<not> has_peer peer_id (pr_state r) then r
                             else
                               (let r = interfere (pg_recheck item) r
                                in r\<lparr>pr_state := mark_failure (pg_times item) peer_id (pr_state r)\<rparr>))))"

text \<open>The stream ends at its end or at the first error (\<open>None\<close>).\<close>

fun ping_round ::
  "'p \<Rightarrow> string \<Rightarrow> u64 \<Rightarrow> 'p ping_item option list \<Rightarrow> 'p ping_round_state \<Rightarrow> 'p ping_round_state" where
  "ping_round local_peer_id node_id sequence [] r = r"
| "ping_round local_peer_id node_id sequence (None # items) r = r"
| "ping_round local_peer_id node_id sequence (Some item # items) r =
     ping_round local_peer_id node_id sequence items (ping_one local_peer_id node_id sequence item r)"

text \<open>One tick of the interval; the state is the last sequence number and the shared network state.\<close>

definition ping_tick ::
  "'p \<Rightarrow> string \<Rightarrow> 'p ping_item option list \<Rightarrow> u64 \<times> 'p network_state \<Rightarrow>
     (u64 \<times> 'p network_state) \<times> ('p \<times> 'p ping_message) list" where
  "ping_tick local_peer_id node_id items s =
     (let sequence = fst s + 1;
          r = ping_round local_peer_id node_id sequence items
                \<lparr>pr_state = snd s, pr_sent_count = 0, pr_skipped_count = 0, pr_messages = []\<rparr>
      in ((sequence, pr_state r), pr_messages r))"

fun ping_loop ::
  "'p \<Rightarrow> string \<Rightarrow> 'p ping_item option list list \<Rightarrow> u64 \<times> 'p network_state \<Rightarrow>
     (u64 \<times> 'p network_state) \<times> ('p \<times> 'p ping_message) list list" where
  "ping_loop local_peer_id node_id [] s = (s, [])"
| "ping_loop local_peer_id node_id (items # ticks) s =
     (let (s1, out) = ping_tick local_peer_id node_id items s;
          (s2, outs) = ping_loop local_peer_id node_id ticks s1
      in (s2, out # outs))"

section \<open>Lemmas\<close>

lemma interfere_simps [simp]:
  "pr_state (interfere ops r) = fold net_step ops (pr_state r)"
  "pr_messages (interfere ops r) = pr_messages r"
  by (simp_all add: interfere_def)

lemma net_ok_run: "net_ok ns \<Longrightarrow> net_ok (fold net_step es ns)"
  by (rule network.run_inv) (simp_all add: list.pred_True)

lemma net_ok_marks:
  "net_ok ns \<Longrightarrow> net_ok (mark_success now i ns)"
  "net_ok ns \<Longrightarrow> net_ok (mark_failure t i ns)"
  using net_ok_step [of ns "Mark_Success now i"] net_ok_step [of ns "Mark_Failure t i"] by simp_all

lemma ping_one_net_ok [inv_intros]:
  "net_ok (pr_state r) \<Longrightarrow> net_ok (pr_state (ping_one l n sq item r))"
  by (auto simp: ping_one_def Let_def net_ok_run net_ok_marks split: option.split)

lemma ping_round_net_ok [inv_intros]:
  "net_ok (pr_state r) \<Longrightarrow> net_ok (pr_state (ping_round l n sq items r))"
  by (induction l n sq items r rule: ping_round.induct) (simp_all add: ping_one_net_ok)

text \<open>A message of the round goes to a peer other than this node and carries the round's number.\<close>

definition ping_msg_ok :: "'p \<Rightarrow> string \<Rightarrow> u64 \<Rightarrow> 'p \<times> 'p ping_message \<Rightarrow> bool" where
  "ping_msg_ok l n sq x \<longleftrightarrow>
     fst x \<noteq> l \<and> pm_sequence (snd x) = sq \<and> pm_from_peer (snd x) = l \<and> pm_from_node (snd x) = n"

lemma ping_one_messages:
  "list_all (ping_msg_ok l n sq) (pr_messages r) \<Longrightarrow>
     list_all (ping_msg_ok l n sq) (pr_messages (ping_one l n sq item r))"
  by (auto simp: ping_one_def Let_def ping_msg_ok_def split: option.split)

lemma ping_round_messages:
  "list_all (ping_msg_ok l n sq) (pr_messages r) \<Longrightarrow>
     list_all (ping_msg_ok l n sq) (pr_messages (ping_round l n sq items r))"
  by (induction l n sq items r rule: ping_round.induct) (simp_all add: ping_one_messages)

lemma ping_loop_inv:
  "net_ok (snd s) \<Longrightarrow> ping_loop l n ticks s = (s', outs) \<Longrightarrow>
     net_ok (snd s') \<and> fst s' = fst s + of_nat (length ticks) \<and> length outs = length ticks \<and>
     (\<forall>k < length outs. list_all (ping_msg_ok l n (fst s + of_nat (Suc k))) (outs ! k))"
proof (induction ticks arbitrary: s s' outs)
  case Nil
  then show ?case by simp
next
  case (Cons items ticks)
  let ?r = "ping_round l n (fst s + 1) items
     \<lparr>pr_state = snd s, pr_sent_count = 0, pr_skipped_count = 0, pr_messages = []\<rparr>"
  obtain s2 outs2 where rest: "ping_loop l n ticks (fst s + 1, pr_state ?r) = (s2, outs2)"
    by (cases "ping_loop l n ticks (fst s + 1, pr_state ?r)")
  have out: "s' = s2" "outs = pr_messages ?r # outs2"
    using Cons.prems(2) rest by (simp_all add: ping_tick_def Let_def)
  have "net_ok (pr_state ?r)" using Cons.prems(1) by (intro ping_round_net_ok) simp
  with Cons.IH [of "(fst s + 1, pr_state ?r)"] rest
  have IH: "net_ok (snd s2)" "fst s2 = fst s + 1 + of_nat (length ticks)" "length outs2 = length ticks"
    "\<forall>k < length outs2. list_all (ping_msg_ok l n (fst s + 1 + of_nat (Suc k))) (outs2 ! k)"
    by simp_all
  have "list_all (ping_msg_ok l n (fst s + 1)) (pr_messages ?r)"
    by (rule ping_round_messages) simp
  with IH out show ?case by (auto simp: nth_Cons add.assoc split: nat.split)
qed

lemma health_counts:
  "ha_ping_count (fold health_step ms h) =
     ha_ping_count h + of_nat (length (filter (\<lambda>m. case m of Ping _ \<Rightarrow> True | _ \<Rightarrow> False) ms)) \<and>
   ha_pong_count (fold health_step ms h) =
     ha_pong_count h + of_nat (length (filter (\<lambda>m. case m of Ping _ \<Rightarrow> True | _ \<Rightarrow> False) ms)) \<and>
   ha_node_id (fold health_step ms h) = ha_node_id h"
proof (induction ms arbitrary: h)
  case Nil
  then show ?case by simp
next
  case (Cons m ms)
  from Cons [of "health_step m h"] show ?case
    by (cases m) (simp_all add: handle_ping_def handle_broadcast_def handle_get_stats_def Let_def)
qed

section \<open>Properties\<close>

text \<open>
  Statistics of the health actor: after any sequence of messages both counters equal the number of
  pings received (modulo \<open>2 ^ 64\<close>), so every ping has been answered, and the statistics reply reports
  them under the node's own name.
\<close>

lemma health_stats_correct:
  "snd (handle_get_stats (fold health_step ms (health_actor_new n))) =
     (let pings = of_nat (length (filter (\<lambda>m. case m of Ping _ \<Rightarrow> True | _ \<Rightarrow> False) ms))
      in \<lparr>sr_node_id = n, sr_pings_received = pings, sr_pongs_sent = pings\<rparr>)"
  using health_counts [of ms "health_actor_new n"]
  by (simp add: handle_get_stats_def health_actor_new_def Let_def)

text \<open>
  C27. The ping loop under arbitrary interference: starting with a consistent network state, whatever
  other tasks do to the shared state at every await of every iteration, the state stays consistent; the
  \<open>k\<close>-th tick uses sequence number \<open>k\<close>; every message of a tick carries the tick's number and this
  node's identity; and the node never pings itself.
\<close>

theorem ping_loop_sound:
  assumes "net_ok ns" and "ping_loop l n ticks (0, ns) = (s', outs)"
  shows "net_ok (snd s') \<and> fst s' = of_nat (length ticks) \<and> length outs = length ticks \<and>
    (\<forall>k < length outs. list_all (ping_msg_ok l n (of_nat (Suc k))) (outs ! k))"
  using ping_loop_inv [of "(0, ns)" l n ticks s' outs] assms by simp

theorem ping_loop_sound_witness:
  "fst (fst (ping_loop ''l'' ''n'' [[None], [], [None]]
     (0, network_state_new ''l'' network_config_default))) = 3"
proof -
  let ?ns = "network_state_new ''l'' network_config_default"
  obtain s outs where "ping_loop ''l'' ''n'' [[None], [], [None]] (0, ?ns) = (s, outs)"
    by (cases "ping_loop ''l'' ''n'' [[None], [], [None]] (0, ?ns)")
  with ping_loop_sound [OF net_ok_new this] show ?thesis by simp
qed

text \<open>
  The effect of pinging one peer when no other task interferes: the local node, unidentified
  actors, unknown peers and peers in backoff are left alone and get no message; any other peer is sent
  one message, and its entry records a success when it answers and a failure when it does not. All
  other entries are unchanged.
\<close>

lemma ping_one_effect:
  assumes "pg_before item = []" and "pg_between item = []" and "pg_during item = []"
    and "pg_recheck item = []" and "pg_peer_id item = Some i" and "ns_peers (pr_state r) i = Some p"
  shows "(if i = l \<or> peer_should_skip_ping (pg_now item) (ns_config (pr_state r)) p
     then pr_state (ping_one l n sq item r) = pr_state r \<and>
          pr_messages (ping_one l n sq item r) = pr_messages r
     else ns_peers (pr_state (ping_one l n sq item r)) =
            (ns_peers (pr_state r))(i \<mapsto>
               (if pg_reply item \<noteq> None then peer_mark_success (fst (pg_times item)) p
                else peer_mark_failure (pg_times item) (ns_config (pr_state r)) p)) \<and>
          map fst (pr_messages (ping_one l n sq item r)) = map fst (pr_messages r) @ [i])"
  using assms
  by (auto simp: ping_one_def Let_def has_peer_def should_skip_ping_def mark_success_def
      mark_failure_def update_peer_def split: option.split)

definition sample_ping_item :: "string ping_item" where
  "sample_ping_item =
     \<lparr>pg_peer_id = Some ''a'', pg_before = [], pg_between = [], pg_now = 0, pg_timestamp = 0,
      pg_during = [], pg_reply = None, pg_recheck = [], pg_times = (0, 0)\<rparr>"

end
