(* ===== verification/Api.thy ===== *)
theory Api
  imports Machine_Manager Health Discovery
begin

text \<open>
  The HTTP handlers of \<^verbatim>\<open>crates/neolaas-server/src/api/\<close> (\<^verbatim>\<open>state.rs\<close>, \<^verbatim>\<open>health.rs\<close>, \<^verbatim>\<open>machines.rs\<close>,
  \<^verbatim>\<open>metrics.rs\<close>, \<^verbatim>\<open>p2p.rs\<close>, the routes of \<^verbatim>\<open>mod.rs\<close>), the booking models of \<^verbatim>\<open>models.rs\<close>, the version texts of
  \<^verbatim>\<open>version.rs\<close> and the trace context of \<^verbatim>\<open>observability/tracing.rs\<close>.

  A handler gives a status code and a body. The answers of actors and of etcd are arguments; the
  constants that the build script generates are a parameter (\<open>build_env\<close>).
\<close>

section \<open>Probes\<close>

datatype status_code =
    OK | SERVICE_UNAVAILABLE | REQUEST_TIMEOUT | INTERNAL_SERVER_ERROR | CONFLICT | NOT_FOUND

datatype etcd_check = Check_Ok | Check_Failed string | Check_Timeout

definition health_check :: "etcd_check \<Rightarrow> status_code + string" where
  "health_check etcd_check =
     (case etcd_check of
        Check_Ok \<Rightarrow> Inr ''OK''
      | Check_Failed e \<Rightarrow> Inl SERVICE_UNAVAILABLE
      | Check_Timeout \<Rightarrow> Inl REQUEST_TIMEOUT)"

definition readiness_check :: "bool \<Rightarrow> status_code + string" where
  "readiness_check readiness = (if readiness then Inr ''READY'' else Inl SERVICE_UNAVAILABLE)"

definition get_metrics :: "string option \<Rightarrow> status_code \<times> string" where
  "get_metrics rendered =
     (case rendered of
        Some output \<Rightarrow> (OK, output)
      | None \<Rightarrow> (SERVICE_UNAVAILABLE, ''Metrics not initialized''))"

definition create_router :: "((string \<times> string) \<times> string) list" where
  "create_router =
     [((''GET'', ''/health''), ''health_check''),
      ((''GET'', ''/ready''), ''readiness_check''),
      ((''GET'', ''/metrics''), ''get_metrics''),
      ((''GET'', ''/actors/machines''), ''get_machines''),
      ((''GET'', ''/p2p/stats''), ''get_p2p_stats''),
      ((''POST'', ''/p2p/broadcast''), ''broadcast_message'')]"

section \<open>Machines\<close>

record machine_info =
  mi_machine_id :: string
  mi_state :: string
  mi_admin_state :: string
  mi_cluster :: string
  mi_current_booking :: "string option"
  mi_last_activity :: "timestamp option"

definition machine_info_of :: "machine_status \<Rightarrow> machine_info" where
  "machine_info_of s =
     \<lparr>mi_machine_id = st_machine_id s, mi_state = show_machine_state (st_state s),
      mi_admin_state = st_admin_state s, mi_cluster = st_cluster s,
      mi_current_booking = st_current_booking s, mi_last_activity = st_last_activity s\<rparr>"

text \<open>
  \<open>manager_env\<close> is \<open>None\<close> when there is no manager; \<open>reachable\<close> tells whether the ask reaches it. The
  manager's state changes as its handler says.
\<close>

definition get_machines ::
  "'p mgr_env option \<Rightarrow> bool \<Rightarrow> 'p manager \<Rightarrow> 'p manager \<times> status_code \<times> machine_info list" where
  "get_machines manager_env reachable m =
     (case manager_env of
        None \<Rightarrow> (m, SERVICE_UNAVAILABLE, [])
      | Some env \<Rightarrow>
          if reachable then
            (case handle_get_all_machine_statuses env m of
               (m, statuses) \<Rightarrow> (m, OK, map machine_info_of statuses))
          else (m, INTERNAL_SERVER_ERROR, []))"

section \<open>P2P\<close>

record local_stats =
  ls_pings_received :: u64
  ls_pongs_sent :: u64

record remote_peer_stats =
  rp_peer_id :: string
  rp_node_id :: string
  rp_pings_received :: u64
  rp_pongs_sent :: u64
  rp_reachable :: bool

record p2p_stats_response =
  ps_node_id :: string
  ps_peer_id :: string
  ps_local_stats :: local_stats
  ps_remote_peers :: "remote_peer_stats list"

text \<open>A registered remote actor: its peer, if known, and its answer to the request, if any.\<close>

type_synonym ('p, 'r) remote = "'p option \<times> 'r option"

definition peer_text :: "('p \<Rightarrow> string) \<Rightarrow> 'p option \<Rightarrow> string" where
  "peer_text to_base58 p = (case p of Some p \<Rightarrow> to_base58 p | None \<Rightarrow> ''unknown'')"

text \<open>As in the ping loop, the stream of actors ends at its end or at the first error (\<open>None\<close>).\<close>

fun collect_stats ::
  "('p \<Rightarrow> string) \<Rightarrow> 'p \<Rightarrow> ('p, stats_reply) remote option list \<Rightarrow> remote_peer_stats list" where
  "collect_stats to_base58 peer_id [] = []"
| "collect_stats to_base58 peer_id (None # rs) = []"
| "collect_stats to_base58 peer_id (Some (p, reply) # rs) =
     (if p = Some peer_id then collect_stats to_base58 peer_id rs
      else
        (case reply of
           Some stats \<Rightarrow>
             \<lparr>rp_peer_id = peer_text to_base58 p, rp_node_id = sr_node_id stats,
              rp_pings_received = sr_pings_received stats, rp_pongs_sent = sr_pongs_sent stats,
              rp_reachable = True\<rparr>
         | None \<Rightarrow>
             \<lparr>rp_peer_id = peer_text to_base58 p, rp_node_id = ''unknown'',
              rp_pings_received = 0, rp_pongs_sent = 0, rp_reachable = False\<rparr>)
        # collect_stats to_base58 peer_id rs)"

text \<open>\<open>ping_actor\<close> is \<open>None\<close> when there is no actor, \<open>Some (Inl e)\<close> when the ask fails.\<close>

definition get_p2p_stats ::
  "('p \<Rightarrow> string) \<Rightarrow> string \<Rightarrow> 'p option \<Rightarrow> (string + health_actor) option \<Rightarrow>
     ('p, stats_reply) remote option list \<Rightarrow> status_code \<times> string + p2p_stats_response" where
  "get_p2p_stats to_base58 node_id peer_id ping_actor remotes =
     (case peer_id of
        None \<Rightarrow> Inl (SERVICE_UNAVAILABLE, ''P2P network not initialized'')
      | Some peer_id \<Rightarrow>
          (case ping_actor of
             None \<Rightarrow> Inl (SERVICE_UNAVAILABLE, ''Ping actor not available'')
           | Some (Inl e) \<Rightarrow> Inl (INTERNAL_SERVER_ERROR, ''Failed to get local stats: '' @ e)
           | Some (Inr h) \<Rightarrow>
               (let local_stats_reply = snd (handle_get_stats h);
                    local_stats = \<lparr>ls_pings_received = sr_pings_received local_stats_reply,
                                   ls_pongs_sent = sr_pongs_sent local_stats_reply\<rparr>
                in Inr \<lparr>ps_node_id = node_id, ps_peer_id = to_base58 peer_id,
                        ps_local_stats = local_stats,
                        ps_remote_peers = collect_stats to_base58 peer_id remotes\<rparr>)))"

record broadcast_response =
  br_message :: string
  br_peers_reached :: nat
  br_peers_failed :: nat

fun broadcast_loop :: "'p \<Rightarrow> ('p, ack_reply) remote option list \<Rightarrow> nat \<times> nat \<Rightarrow> nat \<times> nat" where
  "broadcast_loop peer_id [] acc = acc"
| "broadcast_loop peer_id (None # rs) acc = acc"
| "broadcast_loop peer_id (Some (p, reply) # rs) (peers_reached, peers_failed) =
     (if p = Some peer_id then broadcast_loop peer_id rs (peers_reached, peers_failed)
      else
        (case reply of
           Some ack \<Rightarrow>
             if ak_success ack then broadcast_loop peer_id rs (peers_reached + 1, peers_failed)
             else broadcast_loop peer_id rs (peers_reached, peers_failed + 1)
         | None \<Rightarrow> broadcast_loop peer_id rs (peers_reached, peers_failed + 1)))"

definition broadcast_message ::
  "'p option \<Rightarrow> string \<Rightarrow> ('p, ack_reply) remote option list \<Rightarrow> status_code \<times> string + broadcast_response" where
  "broadcast_message peer_id content remotes =
     (case peer_id of
        None \<Rightarrow> Inl (SERVICE_UNAVAILABLE, ''P2P network not initialized'')
      | Some peer_id \<Rightarrow>
          (case broadcast_loop peer_id remotes (0, 0) of
             (peers_reached, peers_failed) \<Rightarrow>
               Inr \<lparr>br_message = ''Broadcast sent: '' @ [CHR 0x27] @ content @ [CHR 0x27],
                    br_peers_reached = peers_reached, br_peers_failed = peers_failed\<rparr>))"

section \<open>Booking models\<close>

datatype provision_state =
    State_Provisioning | State_Ready | State_Reprovisioning | State_Releasing | State_Released

record 'id host_allocation =
  ha_id :: 'id
  ha_host_id :: string
  ha_booking_id :: 'id
  ha_owner :: string
  ha_allocated_at :: timestamp
  ha_expires_at :: timestamp
  ha_provision_state :: provision_state
  ha_metadata :: string

definition host_is_expired :: "timestamp \<Rightarrow> 'id host_allocation \<Rightarrow> bool" where
  "host_is_expired now h \<longleftrightarrow> ha_expires_at h < now"

definition host_is_active :: "timestamp \<Rightarrow> 'id host_allocation \<Rightarrow> bool" where
  "host_is_active now h \<longleftrightarrow> \<not> host_is_expired now h \<and> ha_provision_state h \<noteq> State_Released"

datatype booking_status =
    Status_Scheduled | Status_Active | Status_Extending | Status_Expired | Status_Cancelled

record 'id booking =
  bk_id :: 'id
  bk_owner :: string
  bk_start_time :: timestamp
  bk_end_time :: timestamp
  bk_host_allocations :: "'id list"
  bk_vlan_allocations :: "'id list"
  bk_status :: booking_status
  bk_metadata :: string

definition booking_is_active :: "timestamp \<Rightarrow> 'id booking \<Rightarrow> bool" where
  "booking_is_active now b \<longleftrightarrow>
     bk_start_time b \<le> now \<and> now < bk_end_time b \<and> bk_status b = Status_Active"

definition booking_is_expired :: "timestamp \<Rightarrow> 'id booking \<Rightarrow> bool" where
  "booking_is_expired now b \<longleftrightarrow> bk_end_time b \<le> now"

record 'id vlan_allocation =
  va_id :: 'id
  va_vlan_id :: u16
  va_booking_id :: 'id
  va_purpose :: string
  va_allocated_at :: timestamp
  va_expires_at :: timestamp

section \<open>Version texts\<close>

record build_env =
  be_version :: string
  be_git_sha :: string
  be_git_commit_timestamp :: string
  be_git_branch :: string
  be_git_dirty :: string
  be_rustc_version :: string
  be_build_timestamp :: string
  be_target :: string

definition PROTOCOL_VERSION :: "build_env \<Rightarrow> string" where
  "PROTOCOL_VERSION b = ''/neolaas/'' @ be_version b"

definition full_version :: "build_env \<Rightarrow> string" where
  "full_version b =
     (let dirty = (if be_git_dirty b = ''true'' then '' dirty'' else [])
      in be_version b @ '' ('' @ be_git_sha b @ dirty @ '')'')"

definition build_info :: "build_env \<Rightarrow> string" where
  "build_info b =
     ''neolaas-server '' @ be_version b @ [CHR 0x0A] @
     ''commit: '' @ be_git_sha b @ '' ('' @ be_git_commit_timestamp b @ '')'' @ [CHR 0x0A] @
     ''branch: '' @ be_git_branch b @ [CHR 0x0A] @
     ''built:  '' @ be_build_timestamp b @ [CHR 0x0A] @
     ''rustc:  '' @ be_rustc_version b @ [CHR 0x0A] @
     ''target: '' @ be_target b"

section \<open>Trace context\<close>

record trace_context =
  tc_trace_id :: "string option"
  tc_span_id :: "string option"

definition trace_context_new :: trace_context where
  "trace_context_new = \<lparr>tc_trace_id = None, tc_span_id = None\<rparr>"

definition with_ids :: "string \<Rightarrow> string \<Rightarrow> trace_context" where
  "with_ids trace_id span_id = \<lparr>tc_trace_id = Some trace_id, tc_span_id = Some span_id\<rparr>"

definition trace_is_valid :: "trace_context \<Rightarrow> bool" where
  "trace_is_valid c \<longleftrightarrow> tc_trace_id c \<noteq> None \<and> tc_span_id c \<noteq> None"

record tracing_config =
  tg_otlp_endpoint :: "string option"
  tg_service_name :: string
  tg_log_format :: string

definition tracing_config_from_env :: "process_env \<Rightarrow> tracing_config" where
  "tracing_config_from_env env =
     \<lparr>tg_otlp_endpoint = env ''OTEL_EXPORTER_OTLP_ENDPOINT'',
      tg_service_name = (case env ''OTEL_SERVICE_NAME'' of Some n \<Rightarrow> n | None \<Rightarrow> ''neolaas-server''),
      tg_log_format = (case env ''LOG_FORMAT'' of Some f \<Rightarrow> f | None \<Rightarrow> ''text'')\<rparr>"

section \<open>Lemmas\<close>

text \<open>The remote actors a handler gets to see: those before the first error, other than its own.\<close>

fun visible :: "'p \<Rightarrow> ('p, 'r) remote option list \<Rightarrow> ('p, 'r) remote list" where
  "visible me [] = []"
| "visible me (None # rs) = []"
| "visible me (Some r # rs) = (if fst r = Some me then visible me rs else r # visible me rs)"

lemma broadcast_loop_counts:
  "broadcast_loop me rs (a, b) =
     (a + length (filter (\<lambda>r. case snd r of Some ack \<Rightarrow> ak_success ack | None \<Rightarrow> False) (visible me rs)),
      b + length (filter (\<lambda>r. case snd r of Some ack \<Rightarrow> \<not> ak_success ack | None \<Rightarrow> True) (visible me rs)))"
  by (induction me rs "(a, b)" arbitrary: a b rule: broadcast_loop.induct) (auto split: option.splits)

lemma collect_stats_visible:
  "map rp_peer_id (collect_stats to_base58 me rs) = map (\<lambda>r. peer_text to_base58 (fst r)) (visible me rs)"
  by (induction to_base58 me rs rule: collect_stats.induct) (auto split: option.split)

lemma collect_statuses_reply:
  assumes "distinct ids" and "set ids \<subseteq> dom (mg_actors m)" and "\<And>i. i \<in> set ids \<Longrightarrow> me_ask_actor env i"
    and "\<And>i a. mg_actors m i = Some a \<Longrightarrow> ma_machine_id a = i"
  shows "map st_machine_id (snd (collect_statuses env ids m)) = ids"
  using assms
proof (induction ids arbitrary: m)
  case Nil
  then show ?case by simp
next
  case (Cons i ids)
  obtain a where a: "mg_actors m i = Some a" using Cons.prems(2) by auto
  obtain a' ev st where h: "handle_get_machine_status (me_clock env i) a = (a', ev, st)"
    by (cases "handle_get_machine_status (me_clock env i) a")
  have ids: "st_machine_id st = ma_machine_id a" "ma_machine_id a' = ma_machine_id a"
    using h by (auto simp: actor_handler_defs split: if_splits)
  let ?m = "m\<lparr>mg_actors := (mg_actors m)(i \<mapsto> a'), mg_obs := fold emit ev (mg_obs m)\<rparr>"
  have "map st_machine_id (snd (collect_statuses env ids ?m)) = ids"
    using Cons.prems ids a by (intro Cons.IH) (auto split: if_splits)
  then show ?case
    using a h ids Cons.prems(3) [of i] Cons.prems(4) [OF a] by (simp add: Let_def case_prod_beta)
qed

section \<open>Properties\<close>

text \<open>
  C28. The machines endpoint is complete: with a reachable manager in a consistent state whose actors
  all answer, the response lists every running machine actor exactly once, under its own machine
  identifier, and nothing else; without a manager, or with an unreachable one, it is an error with an
  empty list and the manager is unchanged.
\<close>

theorem get_machines_complete:
  assumes "mgr_ok m" and "iteration_order (me_keys env)"
    and "\<And>i. i \<in> dom (mg_actors m) \<Longrightarrow> me_ask_actor env i"
  shows "(\<exists>m' infos. get_machines (Some env) True m = (m', OK, infos) \<and>
      distinct (map mi_machine_id infos) \<and> set (map mi_machine_id infos) = dom (mg_actors m)) \<and>
    get_machines (Some env) False m = (m, INTERNAL_SERVER_ERROR, []) \<and>
    get_machines None True m = (m, SERVICE_UNAVAILABLE, [])"
proof -
  let ?ids = "me_keys env (dom (mg_actors m))"
  note ids = iteration_orderD [OF assms(2) mgr_ok_finite_actors [OF assms(1)]]
  have "map st_machine_id (snd (collect_statuses env ?ids m)) = ?ids"
    using assms(1,3) ids by (intro collect_statuses_reply) (auto simp: mgr_ok_def)
  then have "map mi_machine_id (map machine_info_of (snd (collect_statuses env ?ids m))) = ?ids"
    by (simp add: machine_info_of_def comp_def)
  with ids show ?thesis
    by (simp add: get_machines_def handle_get_all_machine_statuses_def case_prod_beta
        del: set_map map_map)
qed

theorem get_machines_complete_witness:
  "\<exists>m' infos. get_machines (Some sample_env) True
      (spawn_machine_actor sample_env ''m1'' ''{}'' sample_manager) = (m', OK, infos)
    \<and> set (map mi_machine_id infos) = {''m1''}"
proof -
  let ?m = "spawn_machine_actor sample_env ''m1'' ''{}'' sample_manager"
  have "mgr_ok ?m"
    by (rule mgr_ok_spawn [OF mgr_ok_sample]) (simp_all add: sample_manager_def manager_new_def)
  moreover have "me_ask_actor sample_env i" for i by (simp add: sample_env_def)
  moreover have "dom (mg_actors ?m) = {''m1''}"
    by (simp add: spawn_machine_actor_actors fresh_actor_def sample_env_def sample_manager_def manager_new_def)
  ultimately show ?thesis
    using get_machines_complete [OF _ iteration_order_sample, of ?m] by fastforce
qed

end
