(* ===== verification/Hosts.thy ===== *)
theory Hosts
  imports Api
begin

text \<open>
  The host endpoints of \<^verbatim>\<open>crates/neolaas-server/src/api/hosts.rs\<close>. The router does not mount them yet, and
  the \<^verbatim>\<open>HostActor\<close> they refer to is not part of the repository: its constructor and its answers are
  parameters.

  Creating a host waits three times for the shared state: to look for an actor of the host, to store the
  allocation in etcd, and to insert the new actor. Between them other requests may run, so that the
  handler is a machine with a step for each (\<open>create_step\<close>); \<open>create_host_actor\<close> is the handler that is
  not interrupted.
\<close>

section \<open>Model\<close>

record 'id create_host_request =
  cr_host_id :: string
  cr_booking_id :: 'id
  cr_owner :: string
  cr_duration_hours :: u32

record 'id create_host_response =
  ch_host_id :: string
  ch_allocation_id :: 'id
  ch_message :: string

record ('id, 'h) host_state =
  hs_actors :: "string \<rightharpoonup> 'h"
  hs_etcd :: "string \<rightharpoonup> string"
  hs_node_id :: string

text \<open>
  The answers of the libraries to one request: a new identifier, the clock, the latest
  representable time (both in nanoseconds), serialisation, and the answer of etcd.
\<close>

record ('id, 'h) host_env =
  he_new_v4 :: 'id
  he_now :: timestamp
  he_max_utc :: timestamp
  he_show_id :: "'id \<Rightarrow> string"
  he_to_vec :: "'id host_allocation \<Rightarrow> string + string"
  he_put :: "string + unit"
  he_actor_new :: "string \<Rightarrow> 'id host_allocation \<Rightarrow> string \<Rightarrow> 'h"

datatype 'id create_pc =
    Create_Check
  | Create_Store "'id host_allocation"
  | Create_Insert "'id host_allocation"
  | Create_Returned "(status_code \<times> string) + 'id create_host_response"
  | Create_Panicked rust_panic

definition allocation_key :: "('id, 'h) host_env \<Rightarrow> 'id \<Rightarrow> string" where
  "allocation_key env i = ''/neolaas/host_allocations/'' @ he_show_id env i"

text \<open>\<^verbatim>\<open>chrono::Duration::hours(h as i64)\<close>; adding a duration to a time panics beyond the latest time.\<close>

definition duration_hours :: "u32 \<Rightarrow> int" where
  "duration_hours h = 3600 * 1000000000 * int (unat h)"

definition new_allocation :: "('id, 'h) host_env \<Rightarrow> 'id create_host_request \<Rightarrow> rust_panic + 'id host_allocation" where
  "new_allocation env req =
     (let expires_at = he_now env + duration_hours (cr_duration_hours req)
      in if he_max_utc env < expires_at then Inl (Expect_Panic ''`DateTime + TimeDelta` overflowed'')
         else Inr \<lparr>ha_id = he_new_v4 env, ha_host_id = cr_host_id req, ha_booking_id = cr_booking_id req,
                   ha_owner = cr_owner req, ha_allocated_at = he_now env, ha_expires_at = expires_at,
                   ha_provision_state = State_Provisioning, ha_metadata = ''{}''\<rparr>)"

fun create_step ::
  "('id, 'h) host_env \<Rightarrow> 'id create_host_request \<Rightarrow> 'id create_pc \<Rightarrow> ('id, 'h) host_state \<Rightarrow>
     'id create_pc \<times> ('id, 'h) host_state" where
  "create_step env req Create_Check s =
     (if hs_actors s (cr_host_id req) \<noteq> None
      then (Create_Returned (Inl (CONFLICT, ''Host actor for '' @ cr_host_id req @ '' already exists'')), s)
      else
        (case new_allocation env req of
           Inl p \<Rightarrow> (Create_Panicked p, s)
         | Inr allocation \<Rightarrow> (Create_Store allocation, s)))"
| "create_step env req (Create_Store allocation) s =
     (case he_to_vec env allocation of
        Inl e \<Rightarrow> (Create_Returned (Inl (INTERNAL_SERVER_ERROR, ''Failed to serialize allocation: '' @ e)), s)
      | Inr value \<Rightarrow>
          (case he_put env of
             Inl e \<Rightarrow> (Create_Returned (Inl (INTERNAL_SERVER_ERROR, ''Failed to store allocation in etcd: '' @ e)), s)
           | Inr _ \<Rightarrow>
               (Create_Insert allocation,
                s\<lparr>hs_etcd := (hs_etcd s)(allocation_key env (ha_id allocation) \<mapsto> value)\<rparr>)))"
| "create_step env req (Create_Insert allocation) s =
     (Create_Returned (Inr \<lparr>ch_host_id = cr_host_id req, ch_allocation_id = ha_id allocation,
                            ch_message = ''Host actor created successfully''\<rparr>),
      s\<lparr>hs_actors := (hs_actors s)(cr_host_id req \<mapsto>
          he_actor_new env (cr_host_id req) allocation (hs_node_id s))\<rparr>)"
| "create_step env req (Create_Returned r) s = (Create_Returned r, s)"
| "create_step env req (Create_Panicked p) s = (Create_Panicked p, s)"


record provision_reply =
  pv_message :: string
  pv_host_id :: string
  pv_image :: string

text \<open>\<open>ask_provision\<close> and \<open>ask_status\<close> are the answers of a host's actor.\<close>

definition provision_host ::
  "('h \<Rightarrow> string \<Rightarrow> string \<Rightarrow> string + string) \<Rightarrow> string \<Rightarrow> string \<Rightarrow> string option \<Rightarrow>
     ('id, 'h) host_state \<Rightarrow> (status_code \<times> string) + provision_reply" where
  "provision_host ask_provision host_id img config s =
     (case hs_actors s host_id of
        None \<Rightarrow> Inl (NOT_FOUND, ''Host actor '' @ host_id @ '' not found'')
      | Some actor \<Rightarrow>
          (case ask_provision actor img (case config of Some c \<Rightarrow> c | None \<Rightarrow> ''{}'') of
             Inl e \<Rightarrow> Inl (INTERNAL_SERVER_ERROR, ''Failed to send provision message: '' @ e)
           | Inr result \<Rightarrow> Inr \<lparr>pv_message = result, pv_host_id = host_id, pv_image = img\<rparr>))"


section \<open>Two requests at the same time\<close>

text \<open>A schedule of two requests: each element lets the first (\<open>False\<close>) or the second make a step.\<close>

fun interleave ::
  "('id, 'h) host_env \<times> 'id create_host_request \<Rightarrow> ('id, 'h) host_env \<times> 'id create_host_request \<Rightarrow> bool list \<Rightarrow>
     'id create_pc \<times> 'id create_pc \<times> ('id, 'h) host_state \<Rightarrow> 'id create_pc \<times> 'id create_pc \<times> ('id, 'h) host_state" where
  "interleave a b [] (pa, pb, s) = (pa, pb, s)"
| "interleave a b (False # bs) (pa, pb, s) =
     (case create_step (fst a) (snd a) pa s of (pa, s) \<Rightarrow> interleave a b bs (pa, pb, s))"
| "interleave a b (True # bs) (pa, pb, s) =
     (case create_step (fst b) (snd b) pb s of (pb, s) \<Rightarrow> interleave a b bs (pa, pb, s))"

text \<open>
  The check and the insertion are not atomic: two requests for the same host that both look for an actor
  before either has inserted one both succeed. Both allocations are stored, and the actor of the second
  replaces that of the first, which no later request reaches.
\<close>

lemma host_creation_race:
  assumes "hs_actors s h = None" and "cr_host_id r1 = h" and "cr_host_id r2 = h"
    and "new_allocation e1 r1 = Inr a1" and "he_to_vec e1 a1 = Inr v1" and "he_put e1 = Inr ()"
    and "new_allocation e2 r2 = Inr a2" and "he_to_vec e2 a2 = Inr v2" and "he_put e2 = Inr ()"
    and "allocation_key e1 (ha_id a1) \<noteq> allocation_key e2 (ha_id a2)"
  shows "\<exists>m1 m2 s'. interleave (e1, r1) (e2, r2) [False, True, False, True, False, True]
      (Create_Check, Create_Check, s) = (Create_Returned (Inr m1), Create_Returned (Inr m2), s') \<and>
    hs_etcd s' (allocation_key e1 (ha_id a1)) = Some v1 \<and> hs_etcd s' (allocation_key e2 (ha_id a2)) = Some v2 \<and>
    hs_actors s' h = Some (he_actor_new e2 h a2 (hs_node_id s))"
  using assms by simp

section \<open>Properties\<close>




end
