(* ===== verification/Node.thy ===== *)
theory Node
  imports Machine_Manager Discovery
begin

text \<open>
  One node of the cluster: how \<^verbatim>\<open>crates/neolaas-server/src/network/init.rs\<close> and
  \<^verbatim>\<open>spawn_machine_actor_manager_actor\<close> connect the sharding coordinator and the machine manager.

  The discovery controller sends peer lists on the sharding channel. A bridge task takes each list, asks
  the coordinator to rebuild its table and then notifies the manager on the topology channel; a second
  task turns each notification into a rebalance message; a third sends the initial sync when convergence
  is signalled, and the watch loop sends etcd events, both independently of the first two. All of them
  run concurrently: \<open>node_step\<close> is one step of any of them, and a handler of the manager may be
  overtaken by \<open>k\<close> bridge steps between its questions to the coordinator. The steps are those of a node
  whose manager is up; a handler that panics takes the manager down, which is a step of \<open>Cluster\<close>.
\<close>

section \<open>Model\<close>

record 'p node =
  nd_coordinator :: "'p sharding_coordinator"
  nd_sharding_rx :: "'p list list"
  nd_topology_rx :: nat
  nd_manager :: "'p manager"

definition node_init :: "'p naming \<Rightarrow> 'p \<Rightarrow> string \<Rightarrow> 'p node" where
  "node_init nm local_peer_id node_id =
     \<lparr>nd_coordinator = sharding_new nm local_peer_id [local_peer_id], nd_sharding_rx = [],
      nd_topology_rx = 0, nd_manager = manager_new local_peer_id node_id\<rparr>"

definition ask_coordinator ::
  "'p naming \<Rightarrow> 'p sharding_coordinator \<Rightarrow> string \<Rightarrow> 'p lookup_result option" where
  "ask_coordinator nm sc machine_id =
     (case handle_lookup_machine nm machine_id sc of Inr r \<Rightarrow> Some r | Inl _ \<Rightarrow> None)"

text \<open>The body of the bridge task, for the list it has received.\<close>

definition bridge_step :: "'p naming \<Rightarrow> 'p node \<Rightarrow> 'p node" where
  "bridge_step nm n =
     (case nd_sharding_rx n of
        [] \<Rightarrow> n
      | peers # rest \<Rightarrow>
          n\<lparr>nd_coordinator := fst (handle_topology_changed nm peers (nd_coordinator n)),
            nd_sharding_rx := rest, nd_topology_rx := nd_topology_rx n + 1\<rparr>)"

text \<open>
  The environment of a handler: when no bridge step intervenes, the coordinator answers from its
  current table; otherwise the answers are unconstrained.
\<close>

definition handler_env :: "'p naming \<Rightarrow> spec_parser \<Rightarrow> nat \<Rightarrow> 'p node \<Rightarrow> 'p mgr_env \<Rightarrow> bool" where
  "handler_env nm from_str k n env \<longleftrightarrow>
     iteration_order (me_keys env) \<and> me_from_str env = from_str \<and>
     (k = 0 \<longrightarrow> me_ask_sharding env = ask_coordinator nm (nd_coordinator n))"

text \<open>\<open>P\<close> is the set of peers that discovery may ever report.\<close>

inductive node_step ::
  "'p naming \<Rightarrow> spec_parser \<Rightarrow> 'p set \<Rightarrow> 'p node \<Rightarrow> 'p node \<Rightarrow> bool" for nm from_str P where
  notify: "set peers \<subseteq> P \<Longrightarrow>
    node_step nm from_str P n (n\<lparr>nd_sharding_rx := nd_sharding_rx n @ [peers]\<rparr>)"
| bridge: "nd_sharding_rx n \<noteq> [] \<Longrightarrow> node_step nm from_str P n (bridge_step nm n)"
| rebalance: "0 < nd_topology_rx n \<Longrightarrow> k \<le> length (nd_sharding_rx n) \<Longrightarrow>
    handler_env nm from_str k n env \<Longrightarrow>
    node_step nm from_str P n
      ((bridge_step nm ^^ k) (n\<lparr>nd_topology_rx := nd_topology_rx n - 1,
         nd_manager := rebalance_actors env (nd_manager n)\<rparr>))"
| message: "k \<le> length (nd_sharding_rx n) \<Longrightarrow> handler_env nm from_str k n env \<Longrightarrow>
    msg \<noteq> Rebalance_Actors \<Longrightarrow> mgr_handle msg env (nd_manager n) = Inr m' \<Longrightarrow>
    node_step nm from_str P n ((bridge_step nm ^^ k) (n\<lparr>nd_manager := m'\<rparr>))"

inductive node_reach ::
  "'p naming \<Rightarrow> spec_parser \<Rightarrow> 'p set \<Rightarrow> 'p node \<Rightarrow> 'p node \<Rightarrow> bool" for nm from_str P n0 where
  start: "node_reach nm from_str P n0 n0"
| step: "node_reach nm from_str P n0 n \<Longrightarrow> node_step nm from_str P n n' \<Longrightarrow> node_reach nm from_str P n0 n'"

section \<open>Lemmas\<close>

definition spec_ok :: "spec_parser \<Rightarrow> string \<Rightarrow> bool" where
  "spec_ok from_str j \<longleftrightarrow> (case from_str j of Inr _ \<Rightarrow> True | Inl _ \<Rightarrow> False)"

text \<open>
  The manager agrees with an ownership predicate: it runs actors only for owned machines, and for every
  owned machine whose cached spec parses.
\<close>

definition matched :: "spec_parser \<Rightarrow> (string \<Rightarrow> bool) \<Rightarrow> 'p manager \<Rightarrow> bool" where
  "matched from_str own m \<longleftrightarrow>
     (\<forall>i. mg_actors m i \<noteq> None \<longrightarrow> own i) \<and>
     (\<forall>i j. mg_machine_specs m i = Some j \<and> own i \<and> spec_ok from_str j \<longrightarrow> mg_actors m i \<noteq> None)"

lemma fresh_actor_spec_ok: "fresh_actor env n i j \<noteq> None \<longleftrightarrow> spec_ok (me_from_str env) j"
  by (simp add: fresh_actor_def spec_ok_def split: sum.split)

lemma matched_put:
  assumes "matched (me_from_str env) (owned env) m" and "\<And>i. me_ask_sharding env i \<noteq> None"
    and "handle_machine_put env i j m = Inr m'"
  shows "matched (me_from_str env) (owned env) m'"
proof -
  obtain r where r: "me_ask_sharding env i = Some r" using assms(2) by blast
  have own: "owned env i \<longleftrightarrow> lk_is_local r" by (simp add: owned_def r)
  have e: "mg_machine_specs m' = (mg_machine_specs m)(i \<mapsto> j)"
    "k \<noteq> i \<Longrightarrow> mg_actors m' k = mg_actors m k"
    "mg_actors m' i \<noteq> None \<longleftrightarrow> lk_is_local r \<and> (mg_actors m i \<noteq> None \<or> spec_ok (me_from_str env) j)" for k
    using handle_put_effect [OF assms(3)] fresh_actor_spec_ok [of env "mg_node_id m" i j] r
    by (auto split: option.splits sum.splits)
  show ?thesis
    unfolding matched_def
  proof (intro conjI allI impI)
    fix k assume "mg_actors m' k \<noteq> None"
    then show "owned env k"
      using assms(1) e(2,3) own by (cases "k = i") (auto simp: matched_def)
  next
    fix k j' assume "mg_machine_specs m' k = Some j' \<and> owned env k \<and> spec_ok (me_from_str env) j'"
    then show "mg_actors m' k \<noteq> None"
      using assms(1) e own by (cases "k = i") (auto simp: matched_def)
  qed
qed

lemma matched_puts:
  "matched (me_from_str env) (owned env) m \<Longrightarrow> (\<And>i. me_ask_sharding env i \<noteq> None) \<Longrightarrow>
     handle_puts env ps m = Inr m' \<Longrightarrow> matched (me_from_str env) (owned env) m'"
  by (induction env ps m rule: handle_puts.induct) (auto simp: and_then_eq_Inr dest: matched_put)

lemma matched_delete: "matched f own m \<Longrightarrow> matched f own (handle_machine_delete i m)"
  by (auto simp: matched_def handle_machine_delete_alt)

lemma collect_statuses_dom:
  "mg_machine_specs (fst (collect_statuses env ids m)) = mg_machine_specs m \<and>
   dom (mg_actors (fst (collect_statuses env ids m))) = dom (mg_actors m)"
proof (induction ids arbitrary: m)
  case Nil
  then show ?case by simp
next
  case (Cons i ids)
  then show ?case by (auto simp: Let_def case_prod_beta split: option.split if_splits)
qed

lemma matched_cong:
  "mg_machine_specs m' = mg_machine_specs m \<Longrightarrow> dom (mg_actors m') = dom (mg_actors m) \<Longrightarrow>
     matched f own m \<Longrightarrow> matched f own m'"
  unfolding matched_def by (metis domIff)

lemma matched_handle:
  assumes "matched (me_from_str env) (owned env) m" and "\<And>i. me_ask_sharding env i \<noteq> None"
    and "msg \<noteq> Rebalance_Actors" and "mgr_handle msg env m = Inr m'"
  shows "matched (me_from_str env) (owned env) m'"
proof (cases msg)
  case Rebalance_Actors
  with assms(3) show ?thesis by simp
next
  case (Etcd_Event e)
  with assms show ?thesis
    by (auto simp: handle_etcd_machine_event_def split: etcd_event_type.splits option.splits
        intro: matched_put matched_delete)
next
  case (Sync_All_Machines resp)
  with assms show ?thesis
    by (auto simp: handle_sync_all_machines_def sync_all_machines_def and_then_eq_Inr
        split: sum.splits intro: matched_puts)
next
  case Get_All_Statuses
  with assms(4) have "m' = fst (collect_statuses env (me_keys env (dom (mg_actors m))) m)"
    by (simp add: handle_get_all_machine_statuses_def)
  with assms(1) show ?thesis using collect_statuses_dom by (metis matched_cong)
qed

lemma matched_rebalance:
  assumes "mgr_ok m" and "iteration_order (me_keys env)" and "\<And>i. me_ask_sharding env i \<noteq> None"
  shows "matched (me_from_str env) (owned env) (rebalance_actors env m)"
proof -
  have sub: "mg_actors m i \<noteq> None \<Longrightarrow> mg_machine_specs m i \<noteq> None" for i
    using assms(1) by (auto simp: mgr_ok_def)
  have "(mg_actors (rebalance_actors env m) i \<noteq> None \<longrightarrow> owned env i) \<and>
      (mg_machine_specs m i = Some j \<and> owned env i \<and> spec_ok (me_from_str env) j \<longrightarrow>
         mg_actors (rebalance_actors env m) i \<noteq> None)" for i j
    using sub [of i] assms(3) [of i] fresh_actor_spec_ok [of env "mg_node_id m" i]
    by (auto simp: rebalance_actors_settled [OF assms(1,2)] settled_def owned_def split: option.splits)
  then show ?thesis by (auto simp: matched_def rebalance_actors_frame)
qed


section \<open>Quiescent nodes\<close>

definition coordinator_owns :: "'p naming \<Rightarrow> 'p sharding_coordinator \<Rightarrow> string \<Rightarrow> bool" where
  "coordinator_owns nm sc i \<longleftrightarrow>
     (case ask_coordinator nm sc i of Some r \<Rightarrow> lk_is_local r | None \<Rightarrow> False)"

definition table_ok :: "'p naming \<Rightarrow> 'p set \<Rightarrow> 'p \<Rightarrow> 'p node \<Rightarrow> bool" where
  "table_ok nm P me n \<longleftrightarrow>
     (\<exists>peers. nd_coordinator n = sharding_new nm me peers \<and> set peers \<subseteq> P) \<and>
     (\<forall>l\<in>set (nd_sharding_rx n). set l \<subseteq> P)"

definition node_ok :: "'p naming \<Rightarrow> spec_parser \<Rightarrow> 'p set \<Rightarrow> 'p \<Rightarrow> 'p node \<Rightarrow> bool" where
  "node_ok nm from_str P me n \<longleftrightarrow>
     table_ok nm P me n \<and> mgr_ok (nd_manager n) \<and>
     (nd_topology_rx n = 0 \<longrightarrow>
        matched from_str (coordinator_owns nm (nd_coordinator n)) (nd_manager n))"

lemma ask_coordinator_new:
  assumes "\<And>p. p \<in> P \<Longrightarrow> sliceable nm p" and "set peers \<subseteq> P"
  shows "ask_coordinator nm (sharding_new nm me peers) i =
    Some \<lparr>lk_machine_id = i, lk_owner_peer = hrw_owner nm peers i,
          lk_is_local = (hrw_owner nm peers i = Some me)\<rparr>"
  using assms by (subst ask_coordinator_def, subst handle_lookup_machine_new) auto

lemma table_ok_bridge: "table_ok nm P me n \<Longrightarrow> table_ok nm P me (bridge_step nm n)"
  by (auto simp: table_ok_def bridge_step_def topology_changed_new sharding_new_def split: list.split)

lemma bridge_step_manager [simp]: "nd_manager (bridge_step nm n) = nd_manager n"
  by (simp add: bridge_step_def split: list.split)

lemma bridge_steps:
  "table_ok nm P me n \<Longrightarrow> table_ok nm P me ((bridge_step nm ^^ k) n)"
  "nd_manager ((bridge_step nm ^^ k) n) = nd_manager n"
  by (induction k) (simp_all add: table_ok_bridge)

lemma bridge_topology_mono: "nd_topology_rx n \<le> nd_topology_rx (bridge_step nm n)"
  by (simp add: bridge_step_def split: list.split)

lemma bridge_steps_pending:
  assumes "0 < k" and "k \<le> length (nd_sharding_rx n)"
  shows "0 < nd_topology_rx ((bridge_step nm ^^ k) n)"
proof -
  obtain k' where k: "k = Suc k'" using assms(1) by (cases k) auto
  have "0 < nd_topology_rx (bridge_step nm n)"
    using assms by (auto simp: bridge_step_def split: list.split)
  moreover have "nd_topology_rx n1 \<le> nd_topology_rx ((bridge_step nm ^^ k') n1)" for n1
    by (induction k') (auto intro: le_trans bridge_topology_mono)
  ultimately show ?thesis unfolding k funpow_Suc_right by (simp add: less_le_trans)
qed

lemma node_ok_bridged:
  assumes "table_ok nm P me n" and "mgr_ok (nd_manager n)" and "k \<le> length (nd_sharding_rx n)"
    and "k = 0 \<Longrightarrow> node_ok nm from_str P me n"
  shows "node_ok nm from_str P me ((bridge_step nm ^^ k) n)"
proof (cases "k = 0")
  case False
  then have "0 < nd_topology_rx ((bridge_step nm ^^ k) n)"
    using assms(3) by (intro bridge_steps_pending) simp
  with assms(1,2) show ?thesis by (simp add: node_ok_def bridge_steps)
qed (use assms(4) in simp)

lemma handler_env_owned:
  assumes "handler_env nm from_str 0 n env" and "table_ok nm P me n" and "\<And>p. p \<in> P \<Longrightarrow> sliceable nm p"
  shows "owned env = coordinator_owns nm (nd_coordinator n)" and "me_ask_sharding env i \<noteq> None"
    and "me_from_str env = from_str"
  using assms ask_coordinator_new [of P nm]
  by (auto simp: handler_env_def owned_def coordinator_owns_def table_ok_def fun_eq_iff)

lemma node_ok_step:
  assumes "node_step nm from_str P n n'" and "node_ok nm from_str P me n"
    and slice: "\<And>p. p \<in> P \<Longrightarrow> sliceable nm p"
  shows "node_ok nm from_str P me n'"
  using assms(1,2)
proof (cases rule: node_step.cases)
  case (notify peers)
  with assms(2) show ?thesis by (auto simp: node_ok_def table_ok_def)
next
  case bridge
  have "node_ok nm from_str P me ((bridge_step nm ^^ 1) n)"
    using assms(2) bridge by (intro node_ok_bridged) (auto simp: node_ok_def Suc_le_eq)
  with bridge show ?thesis by simp
next
  case (rebalance k env)
  let ?n = "n\<lparr>nd_topology_rx := nd_topology_rx n - 1, nd_manager := rebalance_actors env (nd_manager n)\<rparr>"
  have ok: "table_ok nm P me n" "mgr_ok (nd_manager n)" using assms(2) by (simp_all add: node_ok_def)
  have ord: "iteration_order (me_keys env)" using rebalance(4) by (simp add: handler_env_def)
  have t: "table_ok nm P me ?n" using ok(1) by (simp add: table_ok_def)
  have m: "mgr_ok (rebalance_actors env (nd_manager n))" by (rule mgr_ok_rebalance [OF ok(2) ord])
  have "node_ok nm from_str P me ?n" if "k = 0"
    using handler_env_owned [OF rebalance(4) [unfolded that] ok(1) slice] matched_rebalance [OF ok(2) ord] t m
    by (simp add: node_ok_def)
  then show ?thesis unfolding rebalance(1)
    using t m rebalance(3) by (intro node_ok_bridged) simp_all
next
  case (message k env msg m')
  let ?n = "n\<lparr>nd_manager := m'\<rparr>"
  have ok: "table_ok nm P me n" "mgr_ok (nd_manager n)" using assms(2) by (simp_all add: node_ok_def)
  have t: "table_ok nm P me ?n" using ok(1) by (simp add: table_ok_def)
  have m: "mgr_ok m'"
    using mgr_ok_handle [OF _ ok(2) message(5)] message(3) by (simp add: handler_env_def)
  have "node_ok nm from_str P me ?n" if "k = 0"
    using handler_env_owned [OF message(3) [unfolded that] ok(1) slice]
      matched_handle [OF _ _ message(4,5)] assms(2) t m
    by (simp add: node_ok_def)
  then show ?thesis unfolding message(1)
    using t m message(2) by (intro node_ok_bridged) simp_all
qed

lemma node_ok_init: "me \<in> P \<Longrightarrow> node_ok nm from_str P me (node_init nm me node_id)"
  using mgr_ok_new [of me node_id]
  by (auto simp: node_ok_def node_init_def table_ok_def matched_def manager_new_def)

lemma node_reach_ok:
  "node_reach nm from_str P (node_init nm me node_id) n \<Longrightarrow> me \<in> P \<Longrightarrow>
     (\<And>p. p \<in> P \<Longrightarrow> sliceable nm p) \<Longrightarrow> node_ok nm from_str P me n"
  by (induction rule: node_reach.induct) (auto intro: node_ok_init node_ok_step)

text \<open>In a quiescent node the running actors are those of the machines the peer list assigns to it.\<close>

lemma quiescent_actors:
  assumes "node_ok nm from_str P me n" and "\<And>p. p \<in> P \<Longrightarrow> sliceable nm p" and "nd_topology_rx n = 0"
    and "nd_coordinator n = sharding_new nm me peers" and "set peers \<subseteq> P"
  shows "(mg_actors (nd_manager n) i \<noteq> None \<longrightarrow> hrw_owner nm peers i = Some me) \<and>
    (\<forall>j. mg_machine_specs (nd_manager n) i = Some j \<and> hrw_owner nm peers i = Some me \<and>
       spec_ok from_str j \<longrightarrow> mg_actors (nd_manager n) i \<noteq> None)"
proof -
  have "coordinator_owns nm (nd_coordinator n) k \<longleftrightarrow> hrw_owner nm peers k = Some me" for k
    by (simp add: coordinator_owns_def assms(4) ask_coordinator_new [OF assms(2,5)])
  with assms(1,3) show ?thesis by (auto simp: node_ok_def matched_def)
qed


lemma hrw_owner_single: "hrw_owner nm [p] key = Some p"
  using hrw_owner_in [of nm "[p]" key] hrw.owner_exists [of "[p]" nm key] by auto

section \<open>Properties\<close>

definition sample_node :: "string node" where
  "sample_node = node_init sample_naming (sample_peer CHR ''a'') ''n''"

definition sample_parser :: spec_parser where
  "sample_parser = (\<lambda>_. Inr sample_spec)"

definition sample_node_env :: "string mgr_env" where
  "sample_node_env =
     \<lparr>me_naming = sample_naming, me_from_str = sample_parser,
      me_ask_sharding = ask_coordinator sample_naming (nd_coordinator sample_node),
      me_ask_actor = (\<lambda>_. True), me_clock = (\<lambda>_. 0), me_keys = sorted_list_of_set\<rparr>"

text \<open>
  C5. Local convergence under concurrency: in every state a node can reach, however the tasks that send
  peer lists, rebuild the coordinator's table, rebalance, sync and deliver etcd events interleave (and
  even when the table is rebuilt in the middle of a rebalance), as long as no topology notification is
  pending the manager runs actors only for machines that rendezvous hashing over the coordinator's
  peers assigns to this node, and runs one for every such machine whose cached spec parses.
\<close>

theorem quiescent_node_matches_ownership:
  assumes "node_reach nm from_str P (node_init nm me node_id) n" and "me \<in> P"
    and "\<And>p. p \<in> P \<Longrightarrow> sliceable nm p"
    and "nd_topology_rx n = 0" and "nd_coordinator n = sharding_new nm me peers" and "set peers \<subseteq> P"
  shows "(mg_actors (nd_manager n) i \<noteq> None \<longrightarrow> hrw_owner nm peers i = Some me) \<and>
    (\<forall>j. mg_machine_specs (nd_manager n) i = Some j \<and> hrw_owner nm peers i = Some me \<and>
       spec_ok from_str j \<longrightarrow> mg_actors (nd_manager n) i \<noteq> None)"
  by (rule quiescent_actors [OF node_reach_ok [OF assms(1-3)] assms(3-6)])

theorem quiescent_node_matches_ownership_witness:
  "\<exists>n. node_reach sample_naming sample_parser {sample_peer CHR ''a''} sample_node n \<and>
     mg_actors (nd_manager n) ''m1'' \<noteq> None \<and>
     hrw_owner sample_naming [sample_peer CHR ''a''] ''m1'' = Some (sample_peer CHR ''a'')"
proof -
  let ?a = "sample_peer CHR ''a''"
  let ?e = "\<lparr>ee_machine_id = ''m1'', ee_event_type = Put, ee_spec_json = Some ''{}''\<rparr>"
  let ?m = "spawn_machine_actor sample_node_env ''m1'' ''{}''
    ((nd_manager sample_node)\<lparr>mg_machine_specs := [''m1'' \<mapsto> ''{}'']\<rparr>)"
  have ask: "me_ask_sharding sample_node_env ''m1'' =
      Some \<lparr>lk_machine_id = ''m1'', lk_owner_peer = Some ?a, lk_is_local = True\<rparr>"
    using ask_coordinator_new [of "{?a}" sample_naming "[?a]" ?a "''m1''"]
    by (simp add: sample_node_env_def sample_node_def node_init_def sliceable_sample_peer hrw_owner_single)
  have m: "mgr_handle (Etcd_Event ?e) sample_node_env (nd_manager sample_node) = Inr ?m"
    using ask
    by (simp add: handle_etcd_machine_event_def handle_machine_put_def sample_node_def node_init_def
        manager_new_def)
  have "node_step sample_naming sample_parser {?a} sample_node
      ((bridge_step sample_naming ^^ 0) (sample_node\<lparr>nd_manager := ?m\<rparr>))"
    by (rule node_step.message [OF _ _ _ m])
      (simp_all add: handler_env_def sample_node_env_def iteration_order_sorted)
  then have reach: "node_reach sample_naming sample_parser {?a} sample_node (sample_node\<lparr>nd_manager := ?m\<rparr>)"
    by (intro node_reach.step [OF node_reach.start]) simp
  have actor: "mg_actors ?m ''m1'' \<noteq> None"
    by (simp add: spawn_machine_actor_actors fresh_actor_def sample_node_env_def sample_parser_def)
  have "hrw_owner sample_naming [?a] ''m1'' = Some ?a"
    using quiescent_node_matches_ownership [OF reach [unfolded sample_node_def], of "[?a]" "''m1''"] actor
    by (simp add: sample_node_def node_init_def sliceable_sample_peer)
  with reach actor show ?thesis by (intro exI [of _ "sample_node\<lparr>nd_manager := ?m\<rparr>"]) simp
qed

text \<open>
  C37. Machines are not held back until the topology is known: while a discovered peer list that assigns
  a machine to another peer is still waiting for the bridge task, an etcd event for the machine makes
  the node spawn an actor for it, because the coordinator still knows only the local peer.
\<close>

theorem spawns_before_topology_known:
  assumes "n = (node_init nm me node_id)\<lparr>nd_sharding_rx := [peers]\<rparr>"
    and "hrw_owner nm peers i = Some q" and "q \<noteq> me" and "sliceable nm me" and "from_str j = Inr s"
    and "handler_env nm from_str 0 n env"
  shows "\<exists>n'. node_step nm from_str P n n' \<and> mg_actors (nd_manager n') i \<noteq> None"
proof -
  let ?m = "nd_manager n"
  let ?e = "\<lparr>ee_machine_id = i, ee_event_type = Put, ee_spec_json = Some j\<rparr>"
  have ask: "me_ask_sharding env i =
      Some \<lparr>lk_machine_id = i, lk_owner_peer = Some me, lk_is_local = True\<rparr>"
    and parser: "me_from_str env = from_str"
    using assms(1,4,6) ask_coordinator_new [of "{me}" nm "[me]" me i]
    by (auto simp: handler_env_def node_init_def hrw_owner_single)
  have none: "mg_actors ?m i = None" by (simp add: assms(1) node_init_def manager_new_def)
  obtain m' where put: "handle_machine_put env i j ?m = Inr m'"
    using none ask by (simp add: handle_machine_put_def)
  have "mg_actors m' i \<noteq> None"
    using handle_put_effect [OF put] none ask assms(5) parser by (simp add: fresh_actor_def)
  moreover have "node_step nm from_str P n ((bridge_step nm ^^ 0) (n\<lparr>nd_manager := m'\<rparr>))"
    using put assms(6)
    by (intro node_step.message [where env = env and msg = "Etcd_Event ?e"])
      (auto simp: handle_etcd_machine_event_def)
  ultimately show ?thesis by (intro exI conjI) (assumption, simp)
qed

theorem spawns_before_topology_known_witness:
  "\<exists>n'. node_step sample_naming sample_parser UNIV
      (sample_node\<lparr>nd_sharding_rx := [[sample_peer CHR ''b'']]\<rparr>) n' \<and>
    mg_actors (nd_manager n') ''m1'' \<noteq> None"
proof -
  have "handler_env sample_naming sample_parser 0
      (sample_node\<lparr>nd_sharding_rx := [[sample_peer CHR ''b'']]\<rparr>) sample_node_env"
    by (simp add: handler_env_def sample_node_env_def iteration_order_sorted)
  moreover have "sample_peer CHR ''b'' \<noteq> sample_peer CHR ''a''" by (simp add: sample_peer_def)
  ultimately show ?thesis
    using spawns_before_topology_known [where nm = sample_naming and me = "sample_peer CHR ''a''"
        and node_id = "''n''" and peers = "[sample_peer CHR ''b'']" and i = "''m1''"
        and q = "sample_peer CHR ''b''" and from_str = sample_parser and j = "''{}''" and s = sample_spec
        and env = sample_node_env and P = UNIV, OF refl]
    by (simp add: sample_node_def hrw_owner_single sliceable_sample_peer sample_parser_def)
qed

end
