(* ===== verification/Cluster.thy ===== *)
theory Cluster
  imports Node
begin

text \<open>
  The whole system: etcd, the nodes with their discovery controllers, watches and managers, and
  whoever writes machine entries (\<^verbatim>\<open>discovery/controller.rs\<close>, \<^verbatim>\<open>network/init.rs\<close> and
  \<^verbatim>\<open>machines/manager.rs\<close> composed).

  Of etcd the code relies on three documented guarantees: a range request returns the current entries
  under a prefix; a watch that is open delivers every later change under its prefix, once and in
  order; and a watch can end at any time, after which nothing of it is delivered. The store is the map
  \<open>cl_store\<close>, and each change is appended to the open watches (\<open>observe\<close>). Peer entries are written only
  by registrations and disappear with their lease; machine entries and all others change arbitrarily.

  A node's channels are explicit: the discovery watch, the peer lists and topology notifications of
  \<open>node\<close>, the machine watch, the manager's mailbox of etcd events, and the pending initial sync.
  \<open>cn_manager_up\<close> ends when a handler of the manager panics: the manager's actor stops, as kameo does
  where \<^verbatim>\<open>on_panic\<close> is not overridden, the machine actors that only it refers to stop with it, and nothing
  in the program starts it again; the other tasks go on and their messages to it fail. The state of a
  manager that is down is that of an empty one. Two history variables, which no step reads, record what
  went wrong: \<open>cn_peers_intact\<close> ends when the registry changed between the node's range request and the
  opening of its watch, when the watch broke, or when the node's own entry was deleted;
  \<open>cn_machines_intact\<close> ends when the machine watch broke or was not open at the initial sync, or when the
  manager panicked.
\<close>

section \<open>Model\<close>

type_synonym etcd_store = "string \<rightharpoonup> string"

record ('p, 'a) cnode =
  cn_controller :: "('p, 'a) controller"
  cn_peer_watch :: "watch_event list option"
  cn_node :: "'p node"
  cn_machine_watch :: "watch_event list option"
  cn_mailbox :: "etcd_machine_event list"
  cn_manager_up :: bool
  cn_sync_pending :: bool
  cn_loaded :: bool
  cn_peers_intact :: bool
  cn_machines_intact :: bool

record ('p, 'a) cluster =
  cl_store :: etcd_store
  cl_nodes :: "'p \<Rightarrow> ('p, 'a) cnode"

definition cnode_init ::
  "'p naming \<Rightarrow> string \<Rightarrow> network_config \<Rightarrow> 'p \<Rightarrow> 'a \<Rightarrow> string \<Rightarrow> ('p, 'a) cnode" where
  "cnode_init nm cluster_id config p addr node_id =
     \<lparr>cn_controller = controller_new (phases_new cluster_id p addr True config True True) True,
      cn_peer_watch = None, cn_node = node_init nm p node_id, cn_machine_watch = None,
      cn_mailbox = [], cn_manager_up = True, cn_sync_pending = True, cn_loaded = False,
      cn_peers_intact = True, cn_machines_intact = True\<rparr>"

definition cluster_init ::
  "'p naming \<Rightarrow> string \<Rightarrow> network_config \<Rightarrow> ('p \<Rightarrow> 'a) \<Rightarrow> ('p \<Rightarrow> string) \<Rightarrow> ('p, 'a) cluster" where
  "cluster_init nm cluster_id config addr name =
     \<lparr>cl_store = Map.empty, cl_nodes = (\<lambda>p. cnode_init nm cluster_id config p (addr p) (name p))\<rparr>"

subsection \<open>etcd as the nodes see it\<close>

definition change_event :: "string \<Rightarrow> string option \<Rightarrow> watch_event" where
  "change_event key v =
     (case v of
        Some value \<Rightarrow> \<lparr>we_event_type = Event_Put, we_kv = Some (Some key, Some value)\<rparr>
      | None \<Rightarrow> \<lparr>we_event_type = Event_Delete, we_kv = Some (Some key, None)\<rparr>)"

definition has_prefix :: "string \<Rightarrow> string \<Rightarrow> bool" where
  "has_prefix pre key \<longleftrightarrow> strip_prefix key pre \<noteq> None"

definition range_answer :: "etcd_store \<Rightarrow> string \<Rightarrow> etcd_kv list \<Rightarrow> bool" where
  "range_answer st pre kvs \<longleftrightarrow>
     set kvs = {(Some k, Some v) | k v. st k = Some v \<and> has_prefix pre k} \<and> distinct kvs"

definition observe ::
  "('p, 'a) disc_env \<Rightarrow> string \<Rightarrow> string option \<Rightarrow> ('p, 'a) cnode \<Rightarrow> ('p, 'a) cnode" where
  "observe env key v n =
     (let ph = ct_phases (cn_controller n);
          pc = ct_pc (cn_controller n);
          in_peers = has_prefix (peers_prefix (dp_cluster_id ph)) key;
          in_machines = has_prefix MACHINES_PREFIX key;
          own_delete = (key = peer_key env (dp_cluster_id ph) (dp_local_peer_id ph) \<and> v = None)
      in n\<lparr>cn_peer_watch :=
             (if in_peers then map_option (\<lambda>es. es @ [change_event key v]) (cn_peer_watch n)
              else cn_peer_watch n),
           cn_machine_watch :=
             (if in_machines then map_option (\<lambda>es. es @ [change_event key v]) (cn_machine_watch n)
              else cn_machine_watch n),
           cn_peers_intact :=
             (cn_peers_intact n \<and> \<not> (in_peers \<and> pc = At_Enter) \<and>
              \<not> (own_delete \<and> pc \<in> {At_Enter, At_Loop}))\<rparr>)"

subsection \<open>Steps of a node\<close>

text \<open>The lists that a controller step has sent arrive in the channel of the bridge task.\<close>

definition sent_lists :: "('p, 'a) controller \<Rightarrow> 'p list list" where
  "sent_lists c = (case dp_sharding_tx (ct_phases c) of Some tx \<Rightarrow> tx | None \<Rightarrow> [])"

definition advance :: "('p, 'a) controller \<Rightarrow> ('p, 'a) cnode \<Rightarrow> ('p, 'a) cnode" where
  "advance c' n =
     n\<lparr>cn_controller := c',
       cn_node := (cn_node n)\<lparr>nd_sharding_rx := nd_sharding_rx (cn_node n) @
         drop (length (sent_lists (cn_controller n))) (sent_lists c')\<rparr>\<rparr>"

text \<open>A message of the manager, during which the bridge task may take up to \<open>k\<close> lists.\<close>

definition manager_does ::
  "'p naming \<Rightarrow> spec_parser \<Rightarrow> mgr_msg \<Rightarrow> 'p node \<Rightarrow> 'p node \<Rightarrow> bool" where
  "manager_does nm from_str msg n n' \<longleftrightarrow>
     (\<exists>k env m'. k \<le> length (nd_sharding_rx n) \<and> handler_env nm from_str k n env \<and>
        mgr_handle msg env (nd_manager n) = Inr m' \<and>
        n' = (bridge_step nm ^^ k) (n\<lparr>nd_manager := m'\<rparr>))"

text \<open>
  A message whose handler panics, on answers from the tables the coordinator has in the meantime: the
  manager is gone, with its cache and its actors.
\<close>

definition manager_panics ::
  "'p naming \<Rightarrow> spec_parser \<Rightarrow> mgr_msg \<Rightarrow> 'p node \<Rightarrow> 'p node \<Rightarrow> bool" where
  "manager_panics nm from_str msg n n' \<longleftrightarrow>
     (\<exists>k env e. k \<le> length (nd_sharding_rx n) \<and> handler_env nm from_str k n env \<and> me_naming env = nm \<and>
        (\<forall>i. \<exists>j\<le>k. me_ask_sharding env i =
           ask_coordinator nm (nd_coordinator ((bridge_step nm ^^ j) n)) i) \<and>
        mgr_handle msg env (nd_manager n) = Inl e \<and>
        n' = (bridge_step nm ^^ k) (n\<lparr>nd_manager :=
          manager_new (mg_local_peer_id (nd_manager n)) (mg_node_id (nd_manager n))\<rparr>))"

text \<open>The steps that work off what is pending. Messages to a manager that is down fail.\<close>

inductive work_step ::
  "'p naming \<Rightarrow> spec_parser \<Rightarrow> ('p, 'a) disc_env \<Rightarrow> etcd_store \<Rightarrow>
     ('p, 'a) cnode \<Rightarrow> ('p, 'a) cnode \<Rightarrow> bool" for nm from_str env st where
  peer_events: "cn_peer_watch n = Some (es @ rest) \<Longrightarrow> es \<noteq> [] \<Longrightarrow>
    ctl_step env (In_Watch (Watch_Response False es) r) (cn_controller n) = Some c' \<Longrightarrow>
    work_step nm from_str env st n ((advance c' n)\<lparr>cn_peer_watch := Some rest\<rparr>)"
| bridge: "nd_sharding_rx (cn_node n) \<noteq> [] \<Longrightarrow>
    work_step nm from_str env st n (n\<lparr>cn_node := bridge_step nm (cn_node n)\<rparr>)"
| rebalance: "cn_manager_up n \<Longrightarrow> 0 < nd_topology_rx (cn_node n) \<Longrightarrow>
    manager_does nm from_str Rebalance_Actors
      ((cn_node n)\<lparr>nd_topology_rx := nd_topology_rx (cn_node n) - 1\<rparr>) n' \<Longrightarrow>
    work_step nm from_str env st n (n\<lparr>cn_node := n'\<rparr>)"
| rebalance_dropped: "\<not> cn_manager_up n \<Longrightarrow> 0 < nd_topology_rx (cn_node n) \<Longrightarrow>
    work_step nm from_str env st n
      (n\<lparr>cn_node := (cn_node n)\<lparr>nd_topology_rx := nd_topology_rx (cn_node n) - 1\<rparr>\<rparr>)"
| forward: "cn_machine_watch n = Some (e # es) \<Longrightarrow>
    work_step nm from_str env st n
      (n\<lparr>cn_machine_watch := Some es,
         cn_mailbox := cn_mailbox n @ (case watch_message e of Some m \<Rightarrow> [m] | None \<Rightarrow> [])\<rparr>)"
| event: "cn_manager_up n \<Longrightarrow> cn_mailbox n = m # ms \<Longrightarrow>
    manager_does nm from_str (Etcd_Event m) (cn_node n) n' \<Longrightarrow>
    work_step nm from_str env st n (n\<lparr>cn_mailbox := ms, cn_node := n'\<rparr>)"
| event_panic: "cn_manager_up n \<Longrightarrow> cn_mailbox n = m # ms \<Longrightarrow>
    manager_panics nm from_str (Etcd_Event m) (cn_node n) n' \<Longrightarrow>
    work_step nm from_str env st n
      (n\<lparr>cn_mailbox := ms, cn_node := n', cn_manager_up := False, cn_machines_intact := False\<rparr>)"
| event_dropped: "\<not> cn_manager_up n \<Longrightarrow> cn_mailbox n = m # ms \<Longrightarrow>
    work_step nm from_str env st n (n\<lparr>cn_mailbox := ms\<rparr>)"
| sync: "cn_manager_up n \<Longrightarrow> ct_converged (cn_controller n) \<Longrightarrow> cn_sync_pending n \<Longrightarrow>
    range_answer st MACHINES_PREFIX kvs \<Longrightarrow>
    manager_does nm from_str (Sync_All_Machines (Inr kvs)) (cn_node n) n' \<Longrightarrow>
    work_step nm from_str env st n
      (n\<lparr>cn_sync_pending := False, cn_loaded := True, cn_node := n',
         cn_machines_intact := (cn_machines_intact n \<and> cn_machine_watch n \<noteq> None)\<rparr>)"
| sync_panic: "cn_manager_up n \<Longrightarrow> ct_converged (cn_controller n) \<Longrightarrow> cn_sync_pending n \<Longrightarrow>
    range_answer st MACHINES_PREFIX kvs \<Longrightarrow>
    manager_panics nm from_str (Sync_All_Machines (Inr kvs)) (cn_node n) n' \<Longrightarrow>
    work_step nm from_str env st n
      (n\<lparr>cn_sync_pending := False, cn_node := n', cn_manager_up := False, cn_machines_intact := False\<rparr>)"
| sync_dropped: "\<not> cn_manager_up n \<Longrightarrow> ct_converged (cn_controller n) \<Longrightarrow> cn_sync_pending n \<Longrightarrow>
    work_step nm from_str env st n (n\<lparr>cn_sync_pending := False\<rparr>)"

text \<open>All other steps: start-up, shutdown, status queries and failures of the connection to etcd.\<close>

inductive life_step ::
  "'p naming \<Rightarrow> spec_parser \<Rightarrow> ('p, 'a) disc_env \<Rightarrow> etcd_store \<Rightarrow>
     ('p, 'a) cnode \<Rightarrow> ('p, 'a) cnode \<Rightarrow> bool" for nm from_str env st where
  initialize: "ctl_step env (In_Status s) (cn_controller n) = Some c' \<Longrightarrow>
    life_step nm from_str env st n (advance c' n)"
| register_failed: "ctl_step env (In_Register g ka put) (cn_controller n) = Some c' \<Longrightarrow>
    ct_pc c' = Returned (Inl e) \<Longrightarrow> life_step nm from_str env st n (advance c' n)"
| converge: "range_answer st (peers_prefix (dp_cluster_id (ct_phases (cn_controller n)))) kvs \<Longrightarrow>
    ctl_step env (In_Peers (Inr kvs)) (cn_controller n) = Some c' \<Longrightarrow>
    life_step nm from_str env st n (advance c' n)"
| converge_failed: "ctl_step env (In_Peers (Inl e)) (cn_controller n) = Some c' \<Longrightarrow>
    life_step nm from_str env st n (advance c' n)"
| enter: "ctl_step env (In_Watch_Open w) (cn_controller n) = Some c' \<Longrightarrow>
    life_step nm from_str env st n
      ((advance c' n)\<lparr>cn_peer_watch := (if w = Inr () then Some [] else None)\<rparr>)"
| peers_broken: "(\<exists>e. msg = Watch_Error e) \<or> (\<exists>es. msg = Watch_Response True es) \<Longrightarrow>
    ctl_step env (In_Watch msg r) (cn_controller n) = Some c' \<Longrightarrow>
    life_step nm from_str env st n
      ((advance c' n)\<lparr>cn_peer_watch := (if r = Inr () then Some [] else None), cn_peers_intact := False\<rparr>)"
| peers_ended: "ctl_step env (In_Watch Watch_End r) (cn_controller n) = Some c' \<Longrightarrow>
    life_step nm from_str env st n ((advance c' n)\<lparr>cn_peer_watch := None, cn_peers_intact := False\<rparr>)"
| shutdown: "i = In_Shutdown rv \<or> i = In_Keepalive_Failed rv \<Longrightarrow>
    ctl_step env i (cn_controller n) = Some c' \<Longrightarrow> life_step nm from_str env st n (advance c' n)"
| machines_opened: "cn_machine_watch n = None \<Longrightarrow>
    life_step nm from_str env st n (n\<lparr>cn_machine_watch := Some []\<rparr>)"
| machines_lost: "cn_machine_watch n = Some es \<Longrightarrow>
    life_step nm from_str env st n (n\<lparr>cn_machine_watch := None, cn_machines_intact := False\<rparr>)"
| sync_failed: "cn_manager_up n \<Longrightarrow> ct_converged (cn_controller n) \<Longrightarrow> cn_sync_pending n \<Longrightarrow>
    manager_does nm from_str (Sync_All_Machines (Inl e)) (cn_node n) n' \<Longrightarrow>
    life_step nm from_str env st n (n\<lparr>cn_sync_pending := False, cn_node := n'\<rparr>)"
| query: "cn_manager_up n \<Longrightarrow> manager_does nm from_str Get_All_Statuses (cn_node n) n' \<Longrightarrow>
    life_step nm from_str env st n (n\<lparr>cn_node := n'\<rparr>)"

subsection \<open>Steps of the cluster\<close>

definition etcd_change ::
  "('p, 'a) disc_env \<Rightarrow> string \<Rightarrow> string option \<Rightarrow> ('p, 'a) cluster \<Rightarrow> ('p, 'a) cluster" where
  "etcd_change env key v c =
     c\<lparr>cl_store := (cl_store c)(key := v), cl_nodes := observe env key v \<circ> cl_nodes c\<rparr>"

definition update_node ::
  "'p \<Rightarrow> ('p, 'a) cnode \<Rightarrow> ('p, 'a) cluster \<Rightarrow> ('p, 'a) cluster" where
  "update_node p n c = c\<lparr>cl_nodes := (cl_nodes c)(p := n)\<rparr>"

text \<open>\<open>P\<close> are the peers of the cluster \<open>cl\<close>. A deletion of a missing entry is not a change.\<close>

inductive cluster_step ::
  "'p naming \<Rightarrow> spec_parser \<Rightarrow> ('p, 'a) disc_env \<Rightarrow> string \<Rightarrow> 'p set \<Rightarrow>
     ('p, 'a) cluster \<Rightarrow> ('p, 'a) cluster \<Rightarrow> bool" for nm from_str env cl P where
  register: "p \<in> P \<Longrightarrow>
    ctl_step env (In_Register g ka put) (cn_controller (cl_nodes c p)) = Some c' \<Longrightarrow>
    ct_pc c' = At_Converge \<Longrightarrow> ct_registered c' = Some (key, v) \<Longrightarrow>
    cluster_step nm from_str env cl P c
      (etcd_change env key (Some v) (update_node p (advance c' (cl_nodes c p)) c))"
| expire: "cl_store c (peer_key env cl q) \<noteq> None \<Longrightarrow>
    cluster_step nm from_str env cl P c (etcd_change env (peer_key env cl q) None c)"
| machine: "v \<noteq> None \<or> cl_store c (MACHINES_PREFIX @ i) \<noteq> None \<Longrightarrow>
    cluster_step nm from_str env cl P c (etcd_change env (MACHINES_PREFIX @ i) v c)"
| other: "\<not> has_prefix (peers_prefix cl) key \<Longrightarrow> \<not> has_prefix MACHINES_PREFIX key \<Longrightarrow>
    cluster_step nm from_str env cl P c (etcd_change env key v c)"
| work: "p \<in> P \<Longrightarrow> work_step nm from_str env (cl_store c) (cl_nodes c p) n' \<Longrightarrow>
    cluster_step nm from_str env cl P c (update_node p n' c)"
| life: "p \<in> P \<Longrightarrow> life_step nm from_str env (cl_store c) (cl_nodes c p) n' \<Longrightarrow>
    cluster_step nm from_str env cl P c (update_node p n' c)"

inductive cluster_reach ::
  "'p naming \<Rightarrow> spec_parser \<Rightarrow> ('p, 'a) disc_env \<Rightarrow> string \<Rightarrow> 'p set \<Rightarrow>
     ('p, 'a) cluster \<Rightarrow> ('p, 'a) cluster \<Rightarrow> bool" for nm from_str env cl P c0 where
  start: "cluster_reach nm from_str env cl P c0 c0"
| step: "cluster_reach nm from_str env cl P c0 c \<Longrightarrow> cluster_step nm from_str env cl P c c' \<Longrightarrow>
    cluster_reach nm from_str env cl P c0 c'"

lemma cluster_reach_trans:
  "cluster_reach nm from_str env cl P c1 c2 \<Longrightarrow> cluster_reach nm from_str env cl P c0 c1 \<Longrightarrow>
     cluster_reach nm from_str env cl P c0 c2"
  by (induction rule: cluster_reach.induct) (auto intro: cluster_reach.step)

end
