(* ===== verification/Etcd_Connection.thy ===== *)
theory Etcd_Connection
  imports Network_State
begin

text \<open>
  Connecting to etcd: \<^verbatim>\<open>create_resolved_channel\<close> and \<^verbatim>\<open>create_etcd_client\<close> of
  \<^verbatim>\<open>crates/neolaas-server/src/network/discovery/etcd.rs\<close>.

  The host names of the configured endpoints are resolved before the channel is built. Parsing of URIs
  and addresses, the DNS resolver, the constructor of transport endpoints and the channel that takes
  them are library code: the record \<open>dns_env\<close> holds their answers. An endpoint is its text, a channel
  the list of the endpoints inserted into it, in order.
\<close>

section \<open>Model\<close>

record uri =
  ur_scheme_str :: "string option"
  ur_host :: "string option"
  ur_port_u16 :: "u16 option"

datatype connect_error = Invalid_Uri string | Io_Error string | Invalid_Args string

record dns_env =
  dn_resolver :: "string + unit"
  dn_parse_uri :: "string \<Rightarrow> string + uri"
  dn_is_ip :: "string \<Rightarrow> bool"
  dn_lookup_ip :: "string \<Rightarrow> string + ip_addr list"
  dn_show_ip :: "ip_addr \<Rightarrow> string"
  dn_from_shared :: "string \<Rightarrow> string + unit"
  dn_insert :: "string \<Rightarrow> string + unit"
  dn_from_channel :: "string list \<Rightarrow> connect_error + unit"

definition endpoint_from_shared :: "dns_env \<Rightarrow> string \<Rightarrow> string \<Rightarrow> connect_error + string" where
  "endpoint_from_shared env context text =
     (case dn_from_shared env text of
        Inl e \<Rightarrow> Inl (Io_Error (context @ '': '' @ e))
      | Inr _ \<Rightarrow> Inr text)"

definition is_ipv6 :: "ip_addr \<Rightarrow> bool" where
  "is_ipv6 ip = (case ip of V4 _ \<Rightarrow> False | V6 _ \<Rightarrow> True)"

definition resolved_uri :: "dns_env \<Rightarrow> string \<Rightarrow> u16 \<Rightarrow> ip_addr \<Rightarrow> string" where
  "resolved_uri env scheme port ip =
     (if is_ipv6 ip
      then scheme @ ''://['' @ dn_show_ip env ip @ '']:'' @ show_nat (unat port)
      else scheme @ ''://'' @ dn_show_ip env ip @ '':'' @ show_nat (unat port))"

fun push_resolved ::
  "dns_env \<Rightarrow> string \<Rightarrow> u16 \<Rightarrow> ip_addr list \<Rightarrow> string list \<Rightarrow> connect_error + string list" where
  "push_resolved env scheme port [] acc = Inr acc"
| "push_resolved env scheme port (ip # ips) acc =
     (case endpoint_from_shared env ''invalid resolved endpoint'' (resolved_uri env scheme port ip) of
        Inl e \<Rightarrow> Inl e
      | Inr endpoint \<Rightarrow> push_resolved env scheme port ips (acc @ [endpoint]))"

definition resolve_endpoint :: "dns_env \<Rightarrow> string \<Rightarrow> string list \<Rightarrow> connect_error + string list" where
  "resolve_endpoint env endpoint_str acc =
     (case dn_parse_uri env endpoint_str of
        Inl e \<Rightarrow> Inl (Invalid_Uri e)
      | Inr u \<Rightarrow>
          (let scheme = case_option ''http'' id (ur_scheme_str u);
               port = case_option 2379 id (ur_port_u16 u)
           in case ur_host u of
                Some host \<Rightarrow>
                  if dn_is_ip env host then
                    (case endpoint_from_shared env ''invalid endpoint'' endpoint_str of
                       Inl e \<Rightarrow> Inl e
                     | Inr endpoint \<Rightarrow> Inr (acc @ [endpoint]))
                  else
                    (case dn_lookup_ip env host of
                       Inr ips \<Rightarrow> push_resolved env scheme port ips acc
                     | Inl _ \<Rightarrow>
                         (case endpoint_from_shared env ''invalid fallback endpoint'' endpoint_str of
                            Inl e \<Rightarrow> Inl e
                          | Inr endpoint \<Rightarrow> Inr (acc @ [endpoint])))
              | None \<Rightarrow>
                  (case endpoint_from_shared env ''invalid endpoint without host'' endpoint_str of
                     Inl e \<Rightarrow> Inl e
                   | Inr endpoint \<Rightarrow> Inr (acc @ [endpoint]))))"

fun resolve_endpoints :: "dns_env \<Rightarrow> string list \<Rightarrow> string list \<Rightarrow> connect_error + string list" where
  "resolve_endpoints env [] acc = Inr acc"
| "resolve_endpoints env (endpoint_str # rest) acc =
     (case resolve_endpoint env endpoint_str acc of
        Inl e \<Rightarrow> Inl e
      | Inr acc \<Rightarrow> resolve_endpoints env rest acc)"

fun insert_endpoints :: "dns_env \<Rightarrow> string list \<Rightarrow> string list \<Rightarrow> connect_error + string list" where
  "insert_endpoints env [] channel = Inr channel"
| "insert_endpoints env (endpoint # rest) channel =
     (case dn_insert env endpoint of
        Inl e \<Rightarrow> Inl (Io_Error (''failed to add endpoint: '' @ e))
      | Inr _ \<Rightarrow> insert_endpoints env rest (channel @ [endpoint]))"

definition create_resolved_channel :: "dns_env \<Rightarrow> string list \<Rightarrow> connect_error + string list" where
  "create_resolved_channel env endpoints =
     (case dn_resolver env of
        Inl e \<Rightarrow> Inl (Io_Error e)
      | Inr _ \<Rightarrow>
          (case resolve_endpoints env endpoints [] of
             Inl e \<Rightarrow> Inl e
           | Inr resolved_endpoints \<Rightarrow>
               if resolved_endpoints = [] then Inl (Invalid_Args ''no valid endpoints'')
               else insert_endpoints env resolved_endpoints []))"

definition create_etcd_client :: "dns_env \<Rightarrow> string list \<Rightarrow> connect_error + string list" where
  "create_etcd_client env endpoints =
     (case create_resolved_channel env endpoints of
        Inl e \<Rightarrow> Inl e
      | Inr channel \<Rightarrow>
          (case dn_from_channel env channel of
             Inl e \<Rightarrow> Inl e
           | Inr _ \<Rightarrow> Inr channel))"

text \<open>
  \<^verbatim>\<open>EtcdOperations::connect\<close>. The backoff library decides, from the schedule it is given, how often the
  connection is attempted; \<open>retries\<close> gives the attempts, each with the answers of the libraries at that
  time. Every error is transient, so that only the end of the schedule ends the attempts.
\<close>

record exponential_backoff =
  eb_initial_interval :: duration
  eb_max_interval :: duration
  eb_max_elapsed_time :: "duration option"
  eb_multiplier :: real

definition connect_backoff :: "network_config \<Rightarrow> exponential_backoff" where
  "connect_backoff config =
     \<lparr>eb_initial_interval = cf_etcd_backoff_initial config, eb_max_interval = cf_etcd_backoff_max config,
      eb_max_elapsed_time = Some (cf_etcd_backoff_max_elapsed config),
      eb_multiplier = cf_etcd_backoff_multiplier config\<rparr>"

fun retry_connect :: "dns_env list \<Rightarrow> string list \<Rightarrow> connect_error \<Rightarrow> connect_error + string list" where
  "retry_connect [] endpoints e = Inl e"
| "retry_connect (env # envs) endpoints e =
     (case create_etcd_client env endpoints of
        Inr client \<Rightarrow> Inr client
      | Inl e \<Rightarrow> retry_connect envs endpoints e)"

definition connect ::
  "(exponential_backoff \<Rightarrow> dns_env \<times> dns_env list) \<Rightarrow> string list \<Rightarrow> network_config \<Rightarrow>
     connect_error + string list" where
  "connect retries endpoints config =
     (case retries (connect_backoff config) of
        (first, rest) \<Rightarrow>
          (case create_etcd_client first endpoints of
             Inr client \<Rightarrow> Inr client
           | Inl e \<Rightarrow> retry_connect rest endpoints e))"

section \<open>Lemmas\<close>

text \<open>A connection results exactly from the first attempt that succeeds.\<close>

lemma retry_connect_Inr:
  "retry_connect envs endpoints e = Inr client \<longleftrightarrow>
     (\<exists>env. find (\<lambda>env. \<not> isl (create_etcd_client env endpoints)) envs = Some env \<and>
        create_etcd_client env endpoints = Inr client)"
  by (induction envs arbitrary: e) (auto split: sum.split)

lemma connect_Inr:
  assumes "retries (connect_backoff config) = (first, rest)"
  shows "connect retries endpoints config = Inr client \<longleftrightarrow>
    (\<exists>env. find (\<lambda>env. \<not> isl (create_etcd_client env endpoints)) (first # rest) = Some env \<and>
       create_etcd_client env endpoints = Inr client)"
  by (auto simp: connect_def assms retry_connect_Inr split: sum.split)

text \<open>The endpoints that a configured endpoint stands for.\<close>

definition targets :: "dns_env \<Rightarrow> string \<Rightarrow> string list" where
  "targets env e =
     (case dn_parse_uri env e of
        Inl _ \<Rightarrow> []
      | Inr u \<Rightarrow>
          (case Option.bind (ur_host u) (\<lambda>h. if dn_is_ip env h then None else Some (dn_lookup_ip env h)) of
             Some (Inr ips) \<Rightarrow>
               map (resolved_uri env (case_option ''http'' id (ur_scheme_str u))
                 (case_option 2379 id (ur_port_u16 u))) ips
           | _ \<Rightarrow> [e]))"

definition uri_ok :: "dns_env \<Rightarrow> string \<Rightarrow> bool" where
  "uri_ok env e \<longleftrightarrow> (case dn_parse_uri env e of Inr _ \<Rightarrow> True | Inl _ \<Rightarrow> False)"

definition accepted :: "dns_env \<Rightarrow> string \<Rightarrow> bool" where
  "accepted env e \<longleftrightarrow> dn_from_shared env e = Inr ()"

lemma endpoint_accepted: "accepted env t \<Longrightarrow> endpoint_from_shared env c t = Inr t"
  by (simp add: endpoint_from_shared_def accepted_def)

lemma endpoint_rejected:
  "\<not> accepted env t \<Longrightarrow> \<exists>e. endpoint_from_shared env c t = Inl (Io_Error e)"
  by (cases "dn_from_shared env t") (simp_all add: endpoint_from_shared_def accepted_def)

lemma push_resolved_accepted:
  "list_all (accepted env) (map (resolved_uri env sc p) ips) \<Longrightarrow>
     push_resolved env sc p ips acc = Inr (acc @ map (resolved_uri env sc p) ips)"
  by (induction ips arbitrary: acc) (simp_all add: endpoint_accepted)

lemma push_resolved_rejected:
  "\<not> list_all (accepted env) (map (resolved_uri env sc p) ips) \<Longrightarrow>
     \<exists>e. push_resolved env sc p ips acc = Inl (Io_Error e)"
proof (induction ips arbitrary: acc)
  case Nil
  then show ?case by simp
next
  case (Cons ip ips)
  let ?t = "resolved_uri env sc p ip"
  show ?case
    using Cons endpoint_rejected [of env ?t "''invalid resolved endpoint''"]
    by (cases "accepted env ?t") (auto simp: endpoint_accepted)
qed

text \<open>A configured endpoint is either used as it is or replaced by its addresses.\<close>

lemma resolve_endpoint_cases:
  assumes "dn_parse_uri env e = Inr u"
  obtains (direct) c where "targets env e = [e]"
    "\<And>acc. resolve_endpoint env e acc =
       (case endpoint_from_shared env c e of Inl x \<Rightarrow> Inl x | Inr t \<Rightarrow> Inr (acc @ [t]))"
  | (resolved) sc p ips where "targets env e = map (resolved_uri env sc p) ips"
    "\<And>acc. resolve_endpoint env e acc = push_resolved env sc p ips acc"
proof (cases "ur_host u")
  case None
  then show thesis
    by (intro direct) (simp_all only: targets_def resolve_endpoint_def assms Let_def sum.case option.case Option.bind.simps)
next
  case (Some h)
  note eqs = targets_def resolve_endpoint_def assms Some Let_def sum.case option.case Option.bind.simps
  show thesis
  proof (cases "dn_is_ip env h")
    case True
    then show ?thesis by (intro direct) (simp_all only: eqs if_True option.case)
  next
    case False
    show ?thesis
    proof (cases "dn_lookup_ip env h")
      case (Inl x)
      then show ?thesis using False by (intro direct) (simp_all only: eqs if_False)
    next
      case (Inr ips)
      then show ?thesis using False by (intro resolved) (simp_all only: eqs if_False)
    qed
  qed
qed

lemma resolve_endpoint_ok:
  assumes "uri_ok env e" and "list_all (accepted env) (targets env e)"
  shows "resolve_endpoint env e acc = Inr (acc @ targets env e)"
proof -
  from assms(1) obtain u where "dn_parse_uri env e = Inr u" by (auto simp: uri_ok_def split: sum.splits)
  then show ?thesis
    using assms(2)
    by (cases rule: resolve_endpoint_cases) (simp_all add: endpoint_accepted push_resolved_accepted)
qed

lemma resolve_endpoint_error:
  assumes "\<not> (uri_ok env e \<and> list_all (accepted env) (targets env e))"
  shows "\<exists>x. resolve_endpoint env e acc = Inl x"
proof (cases "dn_parse_uri env e")
  case (Inl x)
  then show ?thesis by (simp add: resolve_endpoint_def)
next
  case (Inr u)
  then have bad: "\<not> list_all (accepted env) (targets env e)" using assms by (simp add: uri_ok_def)
  from Inr show ?thesis
  proof (cases rule: resolve_endpoint_cases)
    case (direct c)
    with bad endpoint_rejected [of env e c] show ?thesis by auto
  next
    case (resolved sc p ips)
    with bad push_resolved_rejected [of env sc p ips acc] show ?thesis by auto
  qed
qed

lemma resolve_endpoints_ok:
  "list_all (uri_ok env) es \<Longrightarrow> list_all (accepted env) (concat (map (targets env) es)) \<Longrightarrow>
     resolve_endpoints env es acc = Inr (acc @ concat (map (targets env) es))"
  by (induction es arbitrary: acc) (simp_all add: resolve_endpoint_ok)

lemma resolve_endpoints_error:
  "\<not> (list_all (uri_ok env) es \<and> list_all (accepted env) (concat (map (targets env) es))) \<Longrightarrow>
     \<exists>x. resolve_endpoints env es acc = Inl x"
proof (induction es arbitrary: acc)
  case Nil
  then show ?case by simp
next
  case (Cons e es)
  show ?case
  proof (cases "uri_ok env e \<and> list_all (accepted env) (targets env e)")
    case True
    with Cons show ?thesis by (simp add: resolve_endpoint_ok)
  next
    case False
    from resolve_endpoint_error [OF this, of acc] show ?thesis by auto
  qed
qed

lemma insert_endpoints_ok:
  "list_all (\<lambda>e. dn_insert env e = Inr ()) es \<Longrightarrow> insert_endpoints env es ch = Inr (ch @ es)"
  by (induction es arbitrary: ch) simp_all

section \<open>Properties\<close>

text \<open>
  C29. Resolution of the etcd endpoints: when the resolver exists and the channel takes every endpoint, a
  channel results exactly when every configured URI parses, the transport accepts all resulting
  endpoints and there is at least one; it then holds, in the configured order, one endpoint per
  resolved address of a host name, and the configured endpoint itself where the host is an address, is
  missing, or cannot be resolved.
\<close>

theorem resolved_channel_complete:
  assumes "dn_resolver env = Inr ()" and "\<And>e. dn_insert env e = Inr ()"
  shows "create_resolved_channel env es = Inr ch \<longleftrightarrow>
    list_all (uri_ok env) es \<and> list_all (accepted env) ch \<and> ch \<noteq> [] \<and>
    ch = concat (map (targets env) es)"
proof (cases "list_all (uri_ok env) es \<and> list_all (accepted env) (concat (map (targets env) es))")
  case True
  with assms show ?thesis
    by (auto simp: create_resolved_channel_def resolve_endpoints_ok insert_endpoints_ok list_all_iff)
next
  case False
  with resolve_endpoints_error [OF False, of "[]"] assms(1) show ?thesis
    by (auto simp: create_resolved_channel_def)
qed

definition sample_dns :: dns_env where
  "sample_dns =
     \<lparr>dn_resolver = Inr (),
      dn_parse_uri = (\<lambda>_. Inr \<lparr>ur_scheme_str = None, ur_host = Some ''etcd'', ur_port_u16 = None\<rparr>),
      dn_is_ip = (\<lambda>_. False), dn_lookup_ip = (\<lambda>_. Inr [V4 1, V6 2]), dn_show_ip = (\<lambda>_. ''a''),
      dn_from_shared = (\<lambda>_. Inr ()), dn_insert = (\<lambda>_. Inr ()), dn_from_channel = (\<lambda>_. Inr ())\<rparr>"

lemma show_2379: "show_nat 2379 = ''2379''"
  by code_simp

theorem resolved_channel_complete_witness:
  "create_resolved_channel sample_dns [''etcd''] = Inr [''http://a:2379'', ''http://[a]:2379'']"
proof -
  have "concat (map (targets sample_dns) [''etcd'']) = [''http://a:2379'', ''http://[a]:2379'']"
    by (simp add: sample_dns_def targets_def resolved_uri_def is_ipv6_def show_2379)
  with resolved_channel_complete [of sample_dns "[''etcd'']" "[''http://a:2379'', ''http://[a]:2379'']"]
  show ?thesis by (simp add: sample_dns_def uri_ok_def accepted_def)
qed

end
