(* ===== verification/Startup.thy ===== *)
theory Startup
  imports Cluster Health Api Etcd_Connection "HOL-Library.Sublist"
begin

text \<open>
  The build script, and start-up and shutdown of the server process: \<^verbatim>\<open>init_tracing\<close> and \<^verbatim>\<open>shutdown_tracing\<close> of
  \<^verbatim>\<open>observability/tracing.rs\<close>, \<^verbatim>\<open>init_metrics\<close> of \<^verbatim>\<open>observability/metrics.rs\<close>, \<^verbatim>\<open>swarm/builder.rs\<close>,
  \<^verbatim>\<open>behaviour.rs\<close>, \<^verbatim>\<open>network/init.rs\<close>, the construction of the discovery controller in
  \<^verbatim>\<open>discovery/controller.rs\<close>, and \<^verbatim>\<open>main.rs\<close>.

  A function that performs effects gives the list of the effects it has performed, in order, and how it
  ended (\<open>run\<close>). The answers of the libraries are the record \<open>start_env\<close>. A log line that slices a peer's
  name evaluates the slice only when its level is enabled.
\<close>

section \<open>Build script\<close>

text \<open>
  \<^verbatim>\<open>build.rs\<close> collects the constants of the version texts. The answers of its library, in the order of the
  calls, and the environment of the build are arguments; without information from git the variables of
  the environment are used.
\<close>

record git_info =
  gi_sha :: string
  gi_branch :: string
  gi_commit_timestamp :: string
  gi_dirty :: string

record build_answers =
  ba_build_timestamp :: "string + string"
  ba_target :: "string + string"
  ba_rustc :: "string + string"
  ba_git :: "string + git_info"
  ba_add :: "string + unit"
  ba_add_git :: "string + unit"
  ba_emit :: "string + unit"

definition env_or :: "process_env \<Rightarrow> string \<Rightarrow> string \<Rightarrow> string" where
  "env_or vars name fallback = (case vars name of Some v \<Rightarrow> v | None \<Rightarrow> fallback)"

definition build_git :: "build_answers \<Rightarrow> process_env \<Rightarrow> string + git_info" where
  "build_git ba vars =
     (case ba_git ba of
        Inr git \<Rightarrow> and_then (ba_add_git ba) (\<lambda>_. Inr git)
      | Inl _ \<Rightarrow>
          Inr \<lparr>gi_sha = env_or vars ''VERGEN_GIT_SHA'' ''unknown'',
               gi_branch = env_or vars ''VERGEN_GIT_BRANCH'' ''unknown'',
               gi_commit_timestamp = env_or vars ''VERGEN_GIT_COMMIT_TIMESTAMP'' ''unknown'',
               gi_dirty = env_or vars ''VERGEN_GIT_DIRTY'' ''false''\<rparr>)"

definition build_main :: "string \<Rightarrow> build_answers \<Rightarrow> process_env \<Rightarrow> string + build_env" where
  "build_main version ba vars =
     and_then (ba_build_timestamp ba) (\<lambda>timestamp.
     and_then (ba_target ba) (\<lambda>target.
     and_then (ba_rustc ba) (\<lambda>rustc.
     and_then (ba_add ba) (\<lambda>_.
     and_then (build_git ba vars) (\<lambda>git.
     and_then (ba_emit ba) (\<lambda>_.
     Inr \<lparr>be_version = version, be_git_sha = gi_sha git, be_git_commit_timestamp = gi_commit_timestamp git,
          be_git_branch = gi_branch git, be_git_dirty = gi_dirty git, be_rustc_version = rustc,
          be_build_timestamp = timestamp, be_target = target\<rparr>))))))"

text \<open>A build outside of a repository that is not told otherwise is of an unknown commit, and clean.\<close>

lemma full_version_without_git:
  assumes "build_main version ba Map.empty = Inr b" and "ba_git ba = Inl e"
  shows "full_version b = version @ '' (unknown)''"
  using assms by (auto simp: build_main_def build_git_def env_or_def and_then_eq_Inr full_version_def)

section \<open>Tracing and metrics\<close>

datatype layer = Env_Filter string | Otel_Layer string | Fmt_Layer bool

record tracer_provider =
  tp_endpoint :: string
  tp_service_name :: string

text \<open>The global subscriber, the cell \<^verbatim>\<open>TRACER_PROVIDER\<close>, and whether the provider has been shut down.\<close>

record tracing_state =
  ts_subscriber :: "layer list option"
  ts_provider :: "tracer_provider option"
  ts_provider_down :: bool

definition tracing_none :: tracing_state where
  "tracing_none = \<lparr>ts_subscriber = None, ts_provider = None, ts_provider_down = False\<rparr>"

datatype stop =
    Tracing_Error string
  | Etcd_Failed connect_error
  | Swarm_Error string
  | Register_Error string
  | Io_Failed string
  | Panicked rust_panic

text \<open>
  \<^verbatim>\<open>str::to_lowercase\<close> on the letters of ASCII; no other character has a lower case among the letters of
  the word it is compared with.
\<close>

definition ascii_lower :: "string \<Rightarrow> string" where
  "ascii_lower s = map (\<lambda>c. if 65 \<le> (of_char c :: nat) \<and> (of_char c :: nat) \<le> 90
                           then char_of (of_char c + 32 :: nat) else c) s"

definition install_subscriber :: "layer list \<Rightarrow> tracing_state \<Rightarrow> tracing_state \<times> (stop + unit)" where
  "install_subscriber layers ts =
     (case ts_subscriber ts of
        Some _ \<Rightarrow> (ts, Inl (Panicked (Expect_Panic ''failed to set global default subscriber'')))
      | None \<Rightarrow> (ts\<lparr>ts_subscriber := Some layers\<rparr>, Inr ()))"

definition init_tracing ::
  "string + unit \<Rightarrow> tracing_config \<Rightarrow> tracing_state \<Rightarrow> tracing_state \<times> (stop + unit)" where
  "init_tracing exporter config ts =
     (let is_json = (ascii_lower (tg_log_format config) = ''json'')
      in case tg_otlp_endpoint config of
           Some endpoint \<Rightarrow>
             (case exporter of
                Inl e \<Rightarrow> (ts, Inl (Tracing_Error e))
              | Inr _ \<Rightarrow>
                  (let provider = \<lparr>tp_endpoint = endpoint, tp_service_name = tg_service_name config\<rparr>;
                       ts = (case ts_provider ts of
                               None \<Rightarrow> ts\<lparr>ts_provider := Some provider\<rparr>
                             | Some _ \<Rightarrow> ts)
                   in install_subscriber [Env_Filter ''info'', Otel_Layer ''neolaas-server'', Fmt_Layer is_json] ts))
         | None \<Rightarrow> install_subscriber [Env_Filter ''info'', Fmt_Layer is_json] ts)"

definition shutdown_tracing :: "tracing_state \<Rightarrow> tracing_state" where
  "shutdown_tracing ts =
     (case ts_provider ts of
        Some _ \<Rightarrow> ts\<lparr>ts_provider_down := True\<rparr>
      | None \<Rightarrow> ts)"

definition init_metrics :: "string + unit \<Rightarrow> string + (metric_kind \<times> string \<times> string) list" where
  "init_metrics recorder =
     (case recorder of Inl e \<Rightarrow> Inl e | Inr _ \<Rightarrow> Inr register_metric_descriptions)"

section \<open>Effects\<close>

record behaviour =
  nb_kameo_request_timeout :: duration
  nb_kameo_max_streams :: u32
  nb_identify_protocol :: string
  nb_identify_agent :: string
  nb_kad_query_timeout :: duration
  nb_kad_parallelism :: nat
  nb_kad_publication_interval :: "duration option"
  nb_kad_provider_ttl :: "duration option"
  nb_kad_manual_inserts :: bool
  nb_kad_server :: bool

record swarm =
  sm_behaviour :: behaviour
  sm_idle_connection_timeout :: duration
  sm_listen_addr :: string

datatype effect =
    Tracing_Initialized
  | Metrics_Initialized bool
  | Etcd_Connected "string list"
  | Kameo_Global
  | Swarm_Listening string
  | Coordinator_Spawned
  | Manager_Spawned
  | Topology_Task
  | Sync_Task
  | Watch_Task
  | Bridge_Task
  | Discovery_Task
  | Event_Loop_Task
  | Cleanup_Task
  | Slept duration
  | Health_Spawned
  | Health_Registered string
  | Ping_Task
  | Listening string
  | Serving
  | Signal_Received
  | Shutdown_Sent
  | Tracing_Shut_Down

type_synonym 'a run = "effect list \<times> (stop + 'a)"

definition run_then :: "'a run \<Rightarrow> ('a \<Rightarrow> 'b run) \<Rightarrow> 'b run" where
  "run_then r f =
     (case snd r of
        Inl e \<Rightarrow> (fst r, Inl e)
      | Inr a \<Rightarrow> (fst r @ fst (f a), snd (f a)))"

definition performing :: "effect list \<Rightarrow> unit run" where
  "performing es = (es, Inr ())"

definition attempt :: "stop + 'a \<Rightarrow> 'a run" where
  "attempt r = ([], r)"

definition failing :: "('e \<Rightarrow> stop) \<Rightarrow> 'e + 'a \<Rightarrow> 'a run" where
  "failing err r = ([], case r of Inl e \<Rightarrow> Inl (err e) | Inr a \<Rightarrow> Inr a)"

datatype log_level = Level_Info | Level_Debug

record ('p, 'a) start_env =
  se_vars :: process_env
  se_enabled :: "log_level \<Rightarrow> bool"
  se_build :: build_env
  se_exporter :: "string + unit"
  se_recorder :: "string + unit"
  se_uuid :: string
  se_main_dns :: dns_env
  se_retries :: "exponential_backoff \<Rightarrow> dns_env \<times> dns_env list"
  se_identity :: 'p
  se_transport :: "string + unit"
  se_mdns :: "string + unit"
  se_parse_addr :: "string \<Rightarrow> string + 'a"
  se_listen_on :: "string \<Rightarrow> string + unit"
  se_register :: "string + unit"
  se_bind :: "string \<Rightarrow> string + unit"
  se_sigterm :: "string + unit"
  se_sigint :: "string + unit"

definition peer_id_short :: "'p naming \<Rightarrow> ('p, 'a) start_env \<Rightarrow> log_level \<Rightarrow> 'p \<Rightarrow> unit run" where
  "peer_id_short nm env level p =
     (if se_enabled env level
      then failing Panicked (map_sum id (\<lambda>_. ()) (slice_from (nm_to_base58 nm p) 46))
      else performing [])"

section \<open>The swarm\<close>

definition behaviour_new :: "build_env \<Rightarrow> string + unit \<Rightarrow> network_config \<Rightarrow> string + behaviour" where
  "behaviour_new build mdns config =
     (case mdns of
        Inl e \<Rightarrow> Inl e
      | Inr _ \<Rightarrow>
          Inr \<lparr>nb_kameo_request_timeout = cf_kameo_request_timeout config,
               nb_kameo_max_streams = cf_kameo_max_streams config,
               nb_identify_protocol = PROTOCOL_VERSION build,
               nb_identify_agent = full_version build,
               nb_kad_query_timeout = cf_kademlia_query_timeout config,
               nb_kad_parallelism = cf_kademlia_parallelism config,
               nb_kad_publication_interval = Some (cf_kademlia_publication_interval config),
               nb_kad_provider_ttl = Some (cf_kademlia_provider_ttl config),
               nb_kad_manual_inserts = True, nb_kad_server = True\<rparr>)"

definition build_swarm :: "('p, 'a) start_env \<Rightarrow> network_config \<Rightarrow> (swarm \<times> 'p) run" where
  "build_swarm env config =
     run_then (failing Swarm_Error (se_transport env)) (\<lambda>_.
     run_then (failing (\<lambda>_. Panicked (Expect_Panic ''Failed to create NetworkBehaviour''))
                 (behaviour_new (se_build env) (se_mdns env) config)) (\<lambda>behaviour.
     run_then (performing [Kameo_Global]) (\<lambda>_.
     let local_peer_id = se_identity env;
         listen_addr = ''/ip4/0.0.0.0/tcp/'' @ show_nat (unat (cf_p2p_port config))
     in run_then (failing Swarm_Error (se_parse_addr env listen_addr)) (\<lambda>_.
        run_then (failing Swarm_Error (se_listen_on env listen_addr)) (\<lambda>_.
        run_then (performing [Swarm_Listening listen_addr]) (\<lambda>_.
        attempt (Inr (\<lparr>sm_behaviour = behaviour,
                       sm_idle_connection_timeout = cf_connection_idle_timeout config,
                       sm_listen_addr = listen_addr\<rparr>, local_peer_id))))))))"

section \<open>The network\<close>

definition spawn_machine_actor_manager_actor :: "'p \<Rightarrow> string \<Rightarrow> 'p manager run" where
  "spawn_machine_actor_manager_actor local_peer_id node_id =
     run_then (performing [Manager_Spawned, Topology_Task, Sync_Task, Watch_Task]) (\<lambda>_.
     attempt (Inr (manager_new local_peer_id node_id)))"

text \<open>
  References to what several tasks share: the three actors and the readiness flag, one \<^verbatim>\<open>AtomicBool\<close> that the
  discovery controller alone sets and the API reads. What a reference leads to is looked up when it is
  used: the content of the flag is the cell of the discovery controller (\<open>dp_readiness\<close>), and \<open>False\<close>, with
  which the flag is created, until there is one.
\<close>

datatype shared_ref = Health_Ref | Coordinator_Ref | Manager_Ref | Readiness_Ref

definition load_readiness :: "shared_ref \<Rightarrow> ('p, 'a) controller option \<Rightarrow> bool" where
  "load_readiness r discovery \<longleftrightarrow>
     r = Readiness_Ref \<and> (case discovery of Some c \<Rightarrow> dp_readiness (ct_phases c) | None \<Rightarrow> False)"

text \<open>
  What \<^verbatim>\<open>initialize_p2p_network\<close> creates. \<open>nw_node\<close>, \<open>nw_network_state\<close> and \<open>nw_health\<close> are the actors, channels
  and shared state as they are created; the tasks started before the initialisation delay may have
  changed them by the time the function returns. Its result are the references.
\<close>

record ('p, 'a) network =
  nw_peer_id :: 'p
  nw_swarm :: swarm
  nw_node :: "'p node"
  nw_network_state :: "'p network_state"
  nw_health :: health_actor
  nw_ping_actor :: shared_ref
  nw_sharding_coordinator :: shared_ref
  nw_machine_manager :: shared_ref
  nw_readiness :: shared_ref
  nw_multiaddr :: 'a
  nw_config :: network_config

definition initialize_p2p_network ::
  "'p naming \<Rightarrow> ('p, 'a) start_env \<Rightarrow> string \<Rightarrow> ('p, 'a) network run" where
  "initialize_p2p_network nm env node_id =
     (let config = from_env (se_vars env)
      in run_then (build_swarm env config) (\<lambda>(swarm, local_peer_id).
         run_then (peer_id_short nm env Level_Info local_peer_id) (\<lambda>_.
         let network_state = network_state_new local_peer_id config;
             local_addr = ''/ip4/'' @ cf_pod_ip config @ ''/tcp/'' @ show_nat (unat (cf_p2p_port config))
         in run_then (failing (\<lambda>_. Panicked (Expect_Panic ''Failed to parse local multiaddr''))
                        (se_parse_addr env local_addr)) (\<lambda>local_multiaddr.
            let sharding_coordinator = sharding_new nm local_peer_id [local_peer_id]
            in run_then (performing [Coordinator_Spawned]) (\<lambda>_.
               run_then (peer_id_short nm env Level_Debug local_peer_id) (\<lambda>_.
               run_then (spawn_machine_actor_manager_actor local_peer_id node_id) (\<lambda>machine_manager.
               run_then (performing [Bridge_Task, Discovery_Task, Event_Loop_Task, Cleanup_Task,
                               Slept (cf_initialization_delay config), Health_Spawned]) (\<lambda>_.
               let health_actor = health_actor_new node_id
               in run_then (failing Register_Error (se_register env)) (\<lambda>_.
                  run_then (performing [Health_Registered ''ping'', Ping_Task]) (\<lambda>_.
                  attempt (Inr
                    \<lparr>nw_peer_id = local_peer_id, nw_swarm = swarm,
                     nw_node = \<lparr>nd_coordinator = sharding_coordinator, nd_sharding_rx = [],
                                nd_topology_rx = 0, nd_manager = machine_manager\<rparr>,
                     nw_network_state = network_state, nw_health = health_actor,
                     nw_ping_actor = Health_Ref, nw_sharding_coordinator = Coordinator_Ref,
                     nw_machine_manager = Manager_Ref, nw_readiness = Readiness_Ref,
                     nw_multiaddr = local_multiaddr, nw_config = config\<rparr>)))))))))))"

text \<open>
  The discovery task: \<^verbatim>\<open>run_discovery_controller\<close> creates the controller, which connects to etcd, and
  runs it; all channels it is given are open.
\<close>

definition discovery_controller_new ::
  "'p naming \<Rightarrow> ('p, 'a) start_env \<Rightarrow> string \<Rightarrow> 'p \<Rightarrow> 'a \<Rightarrow> string list \<Rightarrow> network_config \<Rightarrow>
     ('p, 'a) controller run" where
  "discovery_controller_new nm env cluster_id local_peer_id local_addr etcd_endpoints config =
     run_then (peer_id_short nm env Level_Debug local_peer_id) (\<lambda>_.
     run_then (failing Etcd_Failed (connect (se_retries env) etcd_endpoints config)) (\<lambda>etcd_client.
     run_then (performing [Etcd_Connected etcd_client]) (\<lambda>_.
     attempt (Inr (controller_new (phases_new cluster_id local_peer_id local_addr True config True True) True)))))"

definition run_discovery_controller ::
  "'p naming \<Rightarrow> ('p, 'a) start_env \<Rightarrow> ('p, 'a) network \<Rightarrow> ('p, 'a) controller run" where
  "run_discovery_controller nm env nw =
     discovery_controller_new nm env (cf_cluster_id (nw_config nw)) (nw_peer_id nw) (nw_multiaddr nw)
       (cf_etcd_endpoints (nw_config nw)) (nw_config nw)"

section \<open>The process\<close>

definition main_endpoints :: "process_env \<Rightarrow> string list" where
  "main_endpoints vars =
     split_on CHR '','' (case vars ''ETCD_ENDPOINTS'' of Some e \<Rightarrow> e | None \<Rightarrow> ''http://127.0.0.1:2379'')"

definition main_bind_addr :: "process_env \<Rightarrow> string" where
  "main_bind_addr vars = (case vars ''BIND_ADDR'' of Some a \<Rightarrow> a | None \<Rightarrow> ''0.0.0.0:8080'')"

definition main_node_id :: "process_env \<Rightarrow> string \<Rightarrow> string" where
  "main_node_id vars uuid = (case vars ''NODE_ID'' of Some n \<Rightarrow> n | None \<Rightarrow> ''neolaas-node-'' @ uuid)"

record 'p app_state =
  as_node_id :: string
  as_peer_id :: "'p option"
  as_ping_actor :: "shared_ref option"
  as_sharding_coordinator :: "shared_ref option"
  as_machine_manager :: "shared_ref option"
  as_readiness :: shared_ref
  as_metrics_state :: "(metric_kind \<times> string \<times> string) list option"

definition app_state_of :: "string \<Rightarrow> (metric_kind \<times> string \<times> string) list option \<Rightarrow>
    ('p, 'a) network \<Rightarrow> 'p app_state" where
  "app_state_of node_id metrics_state nw =
     \<lparr>as_node_id = node_id, as_peer_id = Some (nw_peer_id nw), as_ping_actor = Some (nw_ping_actor nw),
      as_sharding_coordinator = Some (nw_sharding_coordinator nw),
      as_machine_manager = Some (nw_machine_manager nw), as_readiness = nw_readiness nw,
      as_metrics_state = metrics_state\<rparr>"

text \<open>
  \<^verbatim>\<open>main\<close>, up to its end after a signal, with the tracing state of the process and the state given to the
  API, which exists once the network does.
\<close>

definition server_main ::
  "'p naming \<Rightarrow> ('p, 'a) start_env \<Rightarrow> tracing_state \<times> 'p app_state run" where
  "server_main nm env =
     (case init_tracing (se_exporter env) (tracing_config_from_env (se_vars env)) tracing_none of
        (ts, Inl e) \<Rightarrow> (ts, [], Inl e)
      | (ts, Inr _) \<Rightarrow>
          (let metrics_state = (case init_metrics (se_recorder env) of Inr s \<Rightarrow> Some s | Inl _ \<Rightarrow> None);
               bind_addr = main_bind_addr (se_vars env);
               node_id = main_node_id (se_vars env) (se_uuid env);
               r =
                 run_then (performing [Tracing_Initialized, Metrics_Initialized (metrics_state \<noteq> None)]) (\<lambda>_.
                 run_then (failing Etcd_Failed (create_etcd_client (se_main_dns env) (main_endpoints (se_vars env))))
                   (\<lambda>etcd_client.
                 run_then (performing [Etcd_Connected etcd_client]) (\<lambda>_.
                 run_then (initialize_p2p_network nm env node_id) (\<lambda>nw.
                 let state = app_state_of node_id metrics_state nw
                 in run_then (failing Io_Failed (se_bind env bind_addr)) (\<lambda>_.
                    run_then (performing [Listening bind_addr, Serving]) (\<lambda>_.
                    run_then (failing Io_Failed (se_sigterm env)) (\<lambda>_.
                    run_then (failing Io_Failed (se_sigint env)) (\<lambda>_.
                    run_then (performing [Signal_Received, Shutdown_Sent, Tracing_Shut_Down, Slept (from_secs 7)]) (\<lambda>_.
                    attempt (Inr state))))))))))
           in (case snd r of Inr _ \<Rightarrow> shutdown_tracing ts | Inl _ \<Rightarrow> ts, r)))"

section \<open>Lemmas\<close>

lemma run_then_eq_Inr:
  "run_then r f = (es, Inr b) \<longleftrightarrow> (\<exists>es1 a es2. r = (es1, Inr a) \<and> f a = (es2, Inr b) \<and> es = es1 @ es2)"
  by (cases r; cases "snd r"; cases "f (projr (snd r))") (auto simp: run_then_def)

lemma performing_eq_Inr: "performing es = (es', Inr u) \<longleftrightarrow> es' = es"
  by (auto simp: performing_def)

lemma attempt_eq_Inr: "attempt r = (es, Inr a) \<longleftrightarrow> es = [] \<and> r = Inr a"
  by (auto simp: attempt_def)

lemma failing_eq_Inr: "failing err r = (es, Inr a) \<longleftrightarrow> es = [] \<and> r = Inr a"
  by (auto simp: failing_def split: sum.split)

lemmas run_eq_Inr = run_then_eq_Inr performing_eq_Inr attempt_eq_Inr failing_eq_Inr

text \<open>
  Effects up to the first failure: a run keeps to a plan when its effects are an initial part of it, and
  are all of it exactly when the run ends well.
\<close>

definition keeps_to :: "effect list \<Rightarrow> 'a run \<Rightarrow> bool" where
  "keeps_to plan r \<longleftrightarrow> prefix (fst r) plan \<and> (\<not> isl (snd r) \<longleftrightarrow> fst r = plan)"

lemma keeps_to_then:
  assumes "keeps_to plan r" and "\<And>a. snd r = Inr a \<Longrightarrow> keeps_to plan' (f a)"
  shows "keeps_to (plan @ plan') (run_then r f)"
  using assms by (cases "snd r") (auto simp: keeps_to_def run_then_def prefix_def)

lemma keeps_to_performing: "keeps_to es (performing es)"
  by (simp add: keeps_to_def performing_def)

lemma keeps_to_attempt: "keeps_to [] (attempt (Inr a))"
  by (simp add: keeps_to_def attempt_def)

lemma keeps_to_failing:
  assumes "plan \<noteq> []" and "\<And>a. x = Inr a \<Longrightarrow> keeps_to plan (f a)"
  shows "keeps_to plan (run_then (failing err x) f)"
  using assms by (cases x) (auto simp: keeps_to_def run_then_def failing_def)

lemma keeps_to_short:
  assumes "plan \<noteq> []" and "keeps_to plan (f ())"
  shows "keeps_to plan (run_then (peer_id_short nm env level p) f)"
proof (cases "se_enabled env level")
  case True
  have "keeps_to plan (run_then (failing Panicked x) f)" for x :: "rust_panic + unit"
    by (rule keeps_to_failing [OF assms(1)]) (simp add: assms(2))
  with True show ?thesis by (simp add: peer_id_short_def)
next
  case False
  then show ?thesis using assms(2) by (simp add: peer_id_short_def performing_def run_then_def)
qed

lemmas keeps_to_intros = keeps_to_then [OF keeps_to_performing] keeps_to_failing keeps_to_short keeps_to_attempt

definition swarm_plan :: "network_config \<Rightarrow> effect list" where
  "swarm_plan config =
     [Kameo_Global] @ [Swarm_Listening (''/ip4/0.0.0.0/tcp/'' @ show_nat (unat (cf_p2p_port config)))] @ []"

definition manager_plan :: "effect list" where
  "manager_plan = [Manager_Spawned, Topology_Task, Sync_Task, Watch_Task] @ []"

definition network_plan :: "network_config \<Rightarrow> effect list" where
  "network_plan config =
     swarm_plan config @ [Coordinator_Spawned] @ manager_plan @
     [Bridge_Task, Discovery_Task, Event_Loop_Task, Cleanup_Task,
      Slept (cf_initialization_delay config), Health_Spawned] @
     [Health_Registered ''ping'', Ping_Task] @ []"

definition startup_plan :: "bool \<Rightarrow> string list \<Rightarrow> network_config \<Rightarrow> string \<Rightarrow> effect list" where
  "startup_plan metrics client config bind_addr =
     [Tracing_Initialized, Metrics_Initialized metrics] @ [Etcd_Connected client] @ network_plan config @
     [Listening bind_addr, Serving] @
     [Signal_Received, Shutdown_Sent, Tracing_Shut_Down, Slept (from_secs 7)] @ []"

lemma swarm_keeps_to: "keeps_to (swarm_plan config) (build_swarm env config)"
  unfolding build_swarm_def swarm_plan_def Let_def by (intro keeps_to_intros) simp_all

lemma manager_keeps_to: "keeps_to manager_plan (spawn_machine_actor_manager_actor p node_id)"
  unfolding spawn_machine_actor_manager_actor_def manager_plan_def by (intro keeps_to_intros)

lemma network_keeps_to: "keeps_to (network_plan (from_env (se_vars env))) (initialize_p2p_network nm env node_id)"
  unfolding initialize_p2p_network_def network_plan_def Let_def
  by (rule keeps_to_then [OF swarm_keeps_to], simp only: split_paired_all prod.case,
      intro keeps_to_intros keeps_to_then [OF manager_keeps_to]) (simp_all add: manager_plan_def)

lemma tracing_first_init:
  assumes "exporter = Inr () \<or> tg_otlp_endpoint config = None"
  shows "\<exists>ts. init_tracing exporter config tracing_none = (ts, Inr ()) \<and>
    ts_provider ts = map_option (\<lambda>e. \<lparr>tp_endpoint = e, tp_service_name = tg_service_name config\<rparr>)
      (tg_otlp_endpoint config)"
  using assms
  by (cases "tg_otlp_endpoint config")
    (auto simp: init_tracing_def tracing_none_def install_subscriber_def Let_def)

section \<open>Properties\<close>

text \<open>
  C21. Start-up is ordered and stops at the first failure: whatever the libraries answer, the effects of
  the process are an initial part of one fixed sequence (tracing and metrics, the client of etcd, the
  swarm, the coordinator before the manager before the tasks that use them, the health actor before the
  ping loop, the network before the API, and on a signal the shutdown of the controller, then of tracing,
  then the grace period), and all of it exactly when the process ends without an error. Metrics that
  cannot be installed do not stop it.
\<close>

theorem startup_ordered:
  "server_main nm env = (ts, es, r) \<Longrightarrow>
    \<exists>client. prefix es (startup_plan (se_recorder env = Inr ()) client (from_env (se_vars env))
        (main_bind_addr (se_vars env))) \<and>
      ((\<exists>state. r = Inr state) \<longleftrightarrow>
        es = startup_plan (se_recorder env = Inr ()) client (from_env (se_vars env)) (main_bind_addr (se_vars env)))"
proof -
  assume main: "server_main nm env = (ts, es, r)"
  let ?plan = "\<lambda>client. startup_plan (se_recorder env = Inr ()) client (from_env (se_vars env))
      (main_bind_addr (se_vars env))"
  obtain ts0 ok where tr: "init_tracing (se_exporter env) (tracing_config_from_env (se_vars env)) tracing_none = (ts0, ok)"
    by (cases "init_tracing (se_exporter env) (tracing_config_from_env (se_vars env)) tracing_none")
  have m: "(case init_metrics (se_recorder env) of Inr s \<Rightarrow> Some s | Inl _ \<Rightarrow> None) \<noteq> None \<longleftrightarrow> se_recorder env = Inr ()"
    by (cases "se_recorder env") (simp_all add: init_metrics_def)
  have "\<exists>client. keeps_to (?plan client) (es, r)"
  proof (cases ok)
    case (Inl e)
    then show ?thesis using main tr by (auto simp: server_main_def keeps_to_def startup_plan_def)
  next
    case (Inr u)
    define client where "client = (case create_etcd_client (se_main_dns env) (main_endpoints (se_vars env)) of
        Inr c \<Rightarrow> c | Inl _ \<Rightarrow> [])"
    have "(es, r) = snd (server_main nm env)" by (simp add: main)
    also have "keeps_to (?plan client) (snd (server_main nm env))"
      unfolding server_main_def tr Inr prod.case sum.case Let_def startup_plan_def m snd_conv
      by (intro keeps_to_intros keeps_to_then [OF network_keeps_to] keeps_to_then)
        (simp_all add: client_def keeps_to_performing)
    finally show ?thesis by blast
  qed
  then obtain client where "keeps_to (?plan client) (es, r)" ..
  then show ?thesis by (intro exI [of _ client]) (cases r; simp add: keeps_to_def)
qed

definition sample_start_env :: "(string, string) start_env" where
  "sample_start_env =
     \<lparr>se_vars = Map.empty, se_enabled = (\<lambda>_. True),
      se_build = \<lparr>be_version = ''1'', be_git_sha = ''s'', be_git_commit_timestamp = ''t'', be_git_branch = ''b'',
                   be_git_dirty = ''false'', be_rustc_version = ''r'', be_build_timestamp = ''u'', be_target = ''x''\<rparr>,
      se_exporter = Inr (), se_recorder = Inl ''taken'', se_uuid = ''u'', se_main_dns = sample_dns,
      se_retries = (\<lambda>_. (sample_dns, [])), se_identity = sample_peer CHR ''a'', se_transport = Inr (),
      se_mdns = Inr (), se_parse_addr = Inr, se_listen_on = (\<lambda>_. Inr ()), se_register = Inr (),
      se_bind = (\<lambda>_. Inr ()), se_sigterm = Inr (), se_sigint = Inr ()\<rparr>"

theorem startup_ordered_witness:
  "\<exists>ts es r client. server_main sample_naming sample_start_env = (ts, es, r) \<and>
    prefix es (startup_plan False client network_config_default ''0.0.0.0:8080'')"
proof -
  obtain ts es r where m: "server_main sample_naming sample_start_env = (ts, es, r)"
    by (cases "server_main sample_naming sample_start_env")
  from startup_ordered [OF this] show ?thesis
    using m by (auto simp: sample_start_env_def main_bind_addr_def from_env_def)
qed

text \<open>
  A started process is a node of the cluster model: what initialisation and the discovery task create is
  the initial state of the node, with the peer identity of the swarm, the cluster and settings of the
  environment and the address built from them. The API holds the flag of this controller, so it reports
  the node ready exactly when the controller has done so.
\<close>

lemma started_node_is_initial:
  assumes "initialize_p2p_network nm env node_id = (es, Inr nw)"
    and "run_discovery_controller nm env nw = (es', Inr k)"
    and "config = from_env (se_vars env)"
  shows "cnode_init nm (cf_cluster_id config) config (se_identity env) (nw_multiaddr nw) node_id =
      \<lparr>cn_controller = k, cn_peer_watch = None, cn_node = nw_node nw, cn_machine_watch = None, cn_mailbox = [],
       cn_manager_up = True, cn_sync_pending = True, cn_loaded = False, cn_peers_intact = True,
       cn_machines_intact = True\<rparr>"
    and "readiness_check (load_readiness (as_readiness (app_state_of node_id metrics_state nw)) (Some c)) =
      (if dp_readiness (ct_phases c) then Inr ''READY'' else Inl SERVICE_UNAVAILABLE)"
  using assms(1,2)
  by (auto simp: initialize_p2p_network_def build_swarm_def Let_def run_eq_Inr assms(3) load_readiness_def
      run_discovery_controller_def discovery_controller_new_def spawn_machine_actor_manager_actor_def
      cnode_init_def node_init_def readiness_check_def app_state_of_def)

text \<open>
  C39. The two clients of etcd in one process: the client of the machine manager and that of the discovery
  controller connect to the same endpoints exactly when \<^verbatim>\<open>ETCD_ENDPOINTS\<close> is set; their defaults differ.
\<close>

theorem etcd_clients_agree:
  "main_endpoints vars = cf_etcd_endpoints (from_env vars) \<longleftrightarrow> vars ''ETCD_ENDPOINTS'' \<noteq> None"
  by (auto simp: main_endpoints_def from_env_def Let_def network_config_default_def split: option.split)

end
