(* ===== verification/Cluster_Machines.thy ===== *)
theory Cluster_Machines
  imports Cluster
begin

text \<open>
  The manager's cache follows the machine entries in etcd: the cached specs, with the events that are
  still in the mailbox and in the machine watch applied to them, are the current entries. Before the
  initial sync this holds for the machines the manager has heard of.
\<close>

section \<open>Pending events\<close>

fun apply_machine_event :: "etcd_machine_event \<Rightarrow> (string \<rightharpoonup> string) \<Rightarrow> (string \<rightharpoonup> string)" where
  "apply_machine_event e specs =
     (case ee_event_type e of
        Put \<Rightarrow> (case ee_spec_json e of Some j \<Rightarrow> specs(ee_machine_id e \<mapsto> j) | None \<Rightarrow> specs)
      | Delete \<Rightarrow> specs(ee_machine_id e := None))"

declare apply_machine_event.simps [simp del]

definition definite :: "etcd_machine_event \<Rightarrow> bool" where
  "definite e \<longleftrightarrow> ee_event_type e = Put \<longrightarrow> ee_spec_json e \<noteq> None"

definition pending_events :: "('p, 'a) cnode \<Rightarrow> etcd_machine_event list" where
  "pending_events n =
     cn_mailbox n @ List.map_filter watch_message (case cn_machine_watch n of Some es \<Rightarrow> es | None \<Rightarrow> [])"

abbreviation specs_of :: "'p node \<Rightarrow> string \<rightharpoonup> string" where
  "specs_of nd \<equiv> mg_machine_specs (nd_manager nd)"

definition touched :: "etcd_machine_event list \<Rightarrow> string set" where
  "touched es = ee_machine_id ` set es"

lemma apply_event_other: "i \<noteq> ee_machine_id e \<Longrightarrow> apply_machine_event e m i = m i"
  by (auto simp: apply_machine_event.simps split: etcd_event_type.split option.split)

lemma replay_untouched: "i \<notin> touched es \<Longrightarrow> fold apply_machine_event es m i = m i"
  by (induction es arbitrary: m) (auto simp: touched_def apply_event_other)

lemma apply_event_determined:
  "definite e \<Longrightarrow> apply_machine_event e m (ee_machine_id e) = apply_machine_event e m' (ee_machine_id e)"
  by (auto simp: apply_machine_event.simps definite_def split: etcd_event_type.split option.split)

text \<open>Where an event is pending, the cached value does not matter.\<close>

lemma replay_touched:
  "list_all definite es \<Longrightarrow> i \<in> touched es \<Longrightarrow>
     fold apply_machine_event es m i = fold apply_machine_event es m' i"
proof (induction es arbitrary: m m')
  case Nil
  then show ?case by (simp add: touched_def)
next
  case (Cons e es)
  show ?case
  proof (cases "i \<in> touched es")
    case True
    with Cons show ?thesis by simp
  next
    case False
    then have "i = ee_machine_id e" using Cons.prems(2) by (auto simp: touched_def)
    with False Cons.prems(1) apply_event_determined [of e m m'] show ?thesis
      by (simp add: replay_untouched)
  qed
qed

lemma machines_prefix_iff: "has_prefix MACHINES_PREFIX key \<longleftrightarrow> (\<exists>i. key = MACHINES_PREFIX @ i)"
  by (auto simp: has_prefix_def strip_prefix_eq_Some)

lemma watch_message_change [simp]:
  "watch_message (change_event (MACHINES_PREFIX @ i) v) =
     Some \<lparr>ee_machine_id = i, ee_event_type = (if v = None then Delete else Put), ee_spec_json = v\<rparr>"
  by (simp add: watch_message_def change_event_def Let_def split: option.split)

section \<open>What a message of the manager does to its cache\<close>

lemma bridge_steps_specs [simp]: "specs_of ((bridge_step nm ^^ k) n) = specs_of n"
  by (simp add: bridge_steps)

lemma manager_does_event:
  assumes "manager_does nm from_str (Etcd_Event e) n n'"
  shows "specs_of n' = apply_machine_event e (specs_of n)"
proof -
  from assms obtain k env m' where h: "handle_etcd_machine_event env e (nd_manager n) = Inr m'"
    and n': "n' = (bridge_step nm ^^ k) (n\<lparr>nd_manager := m'\<rparr>)"
    by (auto simp: manager_does_def)
  have "mg_machine_specs m' = apply_machine_event e (specs_of n)"
    using h by (auto simp: handle_etcd_machine_event_def apply_machine_event.simps handle_machine_delete_alt
        dest: handle_put_effect split: etcd_event_type.splits option.splits)
  with n' show ?thesis by simp
qed

lemma manager_does_quiet:
  assumes "manager_does nm from_str msg n n'"
    and "msg = Rebalance_Actors \<or> msg = Get_All_Statuses \<or> msg = Sync_All_Machines (Inl e)"
  shows "specs_of n' = specs_of n"
  using assms
  by (auto simp: collect_statuses_dom manager_does_def rebalance_actors_frame handle_get_all_machine_statuses_def
      handle_sync_all_machines_def sync_all_machines_def)

lemma handle_puts_specs:
  "handle_puts env ps m = Inr m' \<Longrightarrow> mg_machine_specs m' = mg_machine_specs m ++ map_of (rev ps)"
proof (induction env ps m rule: handle_puts.induct)
  case (2 env i j ps m)
  then obtain m1 where m1: "handle_machine_put env i j m = Inr m1" "handle_puts env ps m1 = Inr m'"
    by (auto simp: and_then_eq_Inr)
  then have "mg_machine_specs m' = mg_machine_specs m1 ++ map_of (rev ps)" using 2(1) by blast
  with handle_put_effect [OF m1(1)] show ?case by simp
qed simp

lemma collect_machines_listed:
  assumes "\<And>kv. kv \<in> set kvs \<Longrightarrow> \<exists>i j. kv = (Some (MACHINES_PREFIX @ i), Some j)"
  shows "\<exists>ps. collect_machines kvs = Inr ps \<and> kvs = map (\<lambda>(i, j). (Some (MACHINES_PREFIX @ i), Some j)) ps"
  using assms
proof (induction kvs)
  case Nil
  then show ?case by simp
next
  case (Cons kv kvs)
  obtain i j where kv: "kv = (Some (MACHINES_PREFIX @ i), Some j)" using Cons.prems [of kv] by auto
  obtain ps where "collect_machines kvs = Inr ps"
    "kvs = map (\<lambda>(i, j). (Some (MACHINES_PREFIX @ i), Some j)) ps"
    using Cons.IH Cons.prems by auto
  with kv show ?case by (intro exI [of _ "(i, j) # ps"]) simp
qed

text \<open>The answer to the range request over the machines, decoded: one entry per machine.\<close>

lemma range_answer_machines:
  assumes "range_answer st MACHINES_PREFIX kvs"
  obtains ps where "collect_machines kvs = Inr ps"
    "map_of (rev ps) = (\<lambda>i. st (MACHINES_PREFIX @ i))"
proof -
  have kvs: "set kvs = {(Some k, Some v) | k v. st k = Some v \<and> has_prefix MACHINES_PREFIX k}"
    "distinct kvs" using assms by (simp_all add: range_answer_def)
  have "\<exists>i j. kv = (Some (MACHINES_PREFIX @ i), Some j)" if "kv \<in> set kvs" for kv
    using that kvs(1) by (auto simp: machines_prefix_iff)
  from collect_machines_listed [of kvs, OF this] obtain ps where ps: "collect_machines kvs = Inr ps"
    "kvs = map (\<lambda>(i, j). (Some (MACHINES_PREFIX @ i), Some j)) ps" by blast
  have mem: "(i, j) \<in> set ps \<longleftrightarrow> st (MACHINES_PREFIX @ i) = Some j" for i j
  proof -
    have "(i, j) \<in> set ps \<longleftrightarrow> (Some (MACHINES_PREFIX @ i), Some j) \<in> set kvs"
      unfolding ps(2) by force
    then show ?thesis unfolding kvs(1) by (auto simp: machines_prefix_iff)
  qed
  have "map_of (rev ps) i = st (MACHINES_PREFIX @ i)" for i
  proof (cases "map_of (rev ps) i")
    case None
    then have "(i, j) \<notin> set ps" for j by (force simp: map_of_eq_None_iff)
    with None mem show ?thesis by (cases "st (MACHINES_PREFIX @ i)") auto
  next
    case (Some j)
    then have "(i, j) \<in> set ps" using map_of_SomeD by fastforce
    with Some mem show ?thesis by simp
  qed
  with ps(1) that show thesis by blast
qed

lemma manager_does_sync:
  assumes "manager_does nm from_str (Sync_All_Machines (Inr kvs)) n n'"
    and "range_answer st MACHINES_PREFIX kvs"
  shows "specs_of n' = specs_of n ++ (\<lambda>i. st (MACHINES_PREFIX @ i))"
proof -
  from assms(2) obtain ps where ps: "collect_machines kvs = Inr ps"
    "map_of (rev ps) = (\<lambda>i. st (MACHINES_PREFIX @ i))" by (rule range_answer_machines)
  from assms(1) ps(1) obtain env m' k where "handle_puts env ps (nd_manager n) = Inr m'"
    "n' = (bridge_step nm ^^ k) (n\<lparr>nd_manager := m'\<rparr>)"
    by (auto simp: manager_does_def handle_sync_all_machines_def sync_all_machines_def and_then_eq_Inr)
  with handle_puts_specs ps(2) show ?thesis by fastforce
qed

section \<open>The invariant\<close>

definition machines_follow :: "etcd_store \<Rightarrow> ('p, 'a) cnode \<Rightarrow> bool" where
  "machines_follow st n \<longleftrightarrow>
     cn_machines_intact n \<longrightarrow>
       cn_manager_up n \<and>
       (cn_machine_watch n = None \<longrightarrow>
          cn_mailbox n = [] \<and> specs_of (cn_node n) = Map.empty \<and> \<not> cn_loaded n) \<and>
       list_all definite (pending_events n) \<and>
       (\<forall>i. fold apply_machine_event (pending_events n) (specs_of (cn_node n)) i = st (MACHINES_PREFIX @ i) \<or>
            \<not> cn_loaded n \<and> i \<notin> touched (pending_events n) \<and> specs_of (cn_node n) i = None)"

lemma machines_follow_init: "machines_follow st (cnode_init nm cl cfg p a name)"
  by (simp add: machines_follow_def cnode_init_def node_init_def manager_new_def pending_events_def
      touched_def map_filter_simps)

lemma machines_follow_cong:
  assumes "machines_follow st n" and "specs_of (cn_node n') = specs_of (cn_node n)"
    and "cn_machine_watch n' = cn_machine_watch n" and "cn_mailbox n' = cn_mailbox n"
    and "cn_manager_up n' = cn_manager_up n" and "cn_loaded n' = cn_loaded n" and "cn_machines_intact n' = cn_machines_intact n"
  shows "machines_follow st n'"
  using assms by (simp add: machines_follow_def pending_events_def)

lemma machines_follow_advance: "machines_follow st n \<Longrightarrow> machines_follow st (advance c' n)"
  by (erule machines_follow_cong) (simp_all add: advance_def)

lemma machines_follow_observe:
  assumes "machines_follow st n"
  shows "machines_follow (st(key := v)) (observe env key v n)"
proof (cases "has_prefix MACHINES_PREFIX key")
  case False
  then have "(st(key := v)) (MACHINES_PREFIX @ i) = st (MACHINES_PREFIX @ i)" for i
    by (auto simp: machines_prefix_iff)
  with False assms show ?thesis
    by (simp add: machines_follow_def observe_def pending_events_def Let_def)
next
  case True
  then obtain i where key: "key = MACHINES_PREFIX @ i" by (auto simp: machines_prefix_iff)
  let ?e = "\<lparr>ee_machine_id = i, ee_event_type = (if v = None then Delete else Put), ee_spec_json = v\<rparr>"
  have e: "definite ?e" by (simp add: definite_def)
  have app: "apply_machine_event ?e m = m(i := v)" for m
    by (cases v) (simp_all add: apply_machine_event.simps)
  show ?thesis
  proof (cases "cn_machine_watch n")
    case None
    with assms show ?thesis
      by (auto simp: machines_follow_def observe_def pending_events_def touched_def Let_def map_filter_simps)
  next
    case (Some es)
    have pend: "pending_events (observe env key v n) = pending_events n @ [?e]"
      using Some True
      by (simp add: pending_events_def observe_def Let_def map_filter_def key
          del: watch_message_change) (simp add: key)
    have rest: "specs_of (cn_node (observe env key v n)) = specs_of (cn_node n)"
      "cn_loaded (observe env key v n) = cn_loaded n"
      "cn_manager_up (observe env key v n) = cn_manager_up n"
      "cn_machines_intact (observe env key v n) = cn_machines_intact n"
      "cn_machine_watch (observe env key v n) \<noteq> None"
      using Some by (simp_all add: observe_def Let_def)
    have store: "(st(key := v)) (MACHINES_PREFIX @ k) = (if k = i then v else st (MACHINES_PREFIX @ k))" for k
      by (simp add: key)
    show ?thesis
      using assms e rest(5)
      by (auto simp: machines_follow_def pend rest(1-4) app touched_def store simp del: fun_upd_apply)
        (auto simp: fun_upd_apply)
  qed
qed

lemma machines_follow_work:
  assumes "work_step nm from_str env st n n'" and "machines_follow st n"
  shows "machines_follow st n'"
  using assms(1)
proof (cases rule: work_step.cases)
  case (peer_events es rest r c')
  then show ?thesis
    using machines_follow_advance [OF assms(2), of c'] by (auto elim: machines_follow_cong)
next
  case bridge
  then show ?thesis using assms(2) by (auto elim: machines_follow_cong)
next
  case (rebalance nd)
  with assms(2) manager_does_quiet [OF rebalance(4)] show ?thesis by (auto elim: machines_follow_cong)
next
  case rebalance_dropped
  with assms(2) show ?thesis by (simp add: machines_follow_def)
next
  case (forward e es)
  then have "pending_events n' = pending_events n"
    by (simp add: pending_events_def map_filter_simps split: option.split)
  with forward assms(2) show ?thesis by (simp add: machines_follow_def)
next
  case (event m ms nd)
  have pend: "pending_events n = m # pending_events n'" using event by (simp add: pending_events_def)
  have specs: "specs_of (cn_node n') = apply_machine_event m (specs_of (cn_node n))"
    using event manager_does_event [OF event(4)] by simp
  have "apply_machine_event m (specs_of (cn_node n)) i = None"
    if "i \<notin> touched (pending_events n)" "specs_of (cn_node n) i = None" for i
    using that pend by (simp add: touched_def apply_event_other)
  with event assms(2) pend specs show ?thesis
    by (auto simp: machines_follow_def touched_def)
next
  case (sync kvs nd)
  let ?snap = "\<lambda>i. st (MACHINES_PREFIX @ i)"
  have pend: "pending_events n' = pending_events n" using sync by (simp add: pending_events_def)
  have specs: "specs_of (cn_node n') = specs_of (cn_node n) ++ ?snap"
    using sync manager_does_sync [OF sync(6,5)] by simp
  show ?thesis
  proof (cases "cn_machines_intact n \<and> cn_machine_watch n \<noteq> None")
    case False
    with sync show ?thesis by (auto simp: machines_follow_def)
  next
    case True
    with assms(2) have def: "list_all definite (pending_events n)"
      and each: "\<And>i. fold apply_machine_event (pending_events n) (specs_of (cn_node n)) i = ?snap i \<or>
        i \<notin> touched (pending_events n) \<and> specs_of (cn_node n) i = None"
      by (auto simp: machines_follow_def)
    have "fold apply_machine_event (pending_events n) (specs_of (cn_node n) ++ ?snap) i = ?snap i" for i
    proof (cases "i \<in> touched (pending_events n)")
      case True
      with each [of i] replay_touched [OF def True, of "specs_of (cn_node n) ++ ?snap" "specs_of (cn_node n)"]
      show ?thesis by auto
    next
      case False
      with each [of i] show ?thesis by (auto simp: replay_untouched map_add_def split: option.split)
    qed
    with True def sync(1,2) pend specs show ?thesis by (simp add: machines_follow_def)
  qed
qed (use assms(2) in \<open>simp_all add: machines_follow_def\<close>)

lemma machines_follow_life:
  assumes "life_step nm from_str env st n n'" and "machines_follow st n"
  shows "machines_follow st n'"
  using assms(1)
proof (cases rule: life_step.cases)
  case machines_opened
  with assms(2) show ?thesis
    by (auto simp: machines_follow_def pending_events_def map_filter_simps touched_def)
next
  case (machines_lost es)
  then show ?thesis by (simp add: machines_follow_def)
next
  case (sync_failed e nd)
  with assms(2) manager_does_quiet [OF sync_failed(5)] show ?thesis by (auto elim: machines_follow_cong)
next
  case (query nd)
  with assms(2) manager_does_quiet [OF query(3)] show ?thesis by (auto elim: machines_follow_cong)
qed (auto intro!: machines_follow_cong [OF assms(2)] simp: advance_def)

end
