(* ===== verification/Cluster_Peers.thy ===== *)
theory Cluster_Peers
  imports Cluster
begin

text \<open>
  The membership of a node follows the registrations in etcd, and its coordinator follows the
  membership: the known peers, with the events of the discovery watch that are still unread applied to
  them, are the registered peers and the node itself; and the coordinator's table is the last list of
  those sent that the bridge task has taken.
\<close>

section \<open>Registrations and their events\<close>

definition joins_as :: "('p, 'a) disc_env \<Rightarrow> string \<Rightarrow> 'p \<Rightarrow> string \<Rightarrow> bool" where
  "joins_as env cl q v \<longleftrightarrow>
     (\<forall>me. me \<noteq> q \<longrightarrow> (\<exists>a. decode_put env cl me (Some (peer_key env cl q), Some v) = Join q a))"

definition registry_ok :: "('p, 'a) disc_env \<Rightarrow> string \<Rightarrow> 'p set \<Rightarrow> etcd_store \<Rightarrow> bool" where
  "registry_ok env cl P st \<longleftrightarrow>
     (\<forall>k v. st k = Some v \<and> has_prefix (peers_prefix cl) k \<longrightarrow>
        (\<exists>q\<in>P. k = peer_key env cl q \<and> joins_as env cl q v))"

definition registered :: "('p, 'a) disc_env \<Rightarrow> string \<Rightarrow> etcd_store \<Rightarrow> 'p set" where
  "registered env cl st = {q. st (peer_key env cl q) \<noteq> None}"

definition peer_event_ok :: "('p, 'a) disc_env \<Rightarrow> string \<Rightarrow> 'p set \<Rightarrow> watch_event \<Rightarrow> bool" where
  "peer_event_ok env cl P e \<longleftrightarrow>
     (\<exists>q\<in>P. \<exists>v. e = change_event (peer_key env cl q) v \<and> (\<forall>w. v = Some w \<longrightarrow> joins_as env cl q w))"

lemma peer_key_prefix [simp]: "has_prefix (peers_prefix cl) (peer_key env cl q)"
  by (simp add: has_prefix_def strip_peer_key)

lemma peer_key_inj:
  assumes "parsers_ok env"
  shows "peer_key env cl p = peer_key env cl q \<longleftrightarrow> p = q"
proof
  assume "peer_key env cl p = peer_key env cl q"
  then have "de_parse_peer env (de_to_base58 env p) = de_parse_peer env (de_to_base58 env q)"
    by (simp add: peer_key_def)
  with assms show "p = q" by (simp add: parsers_ok_def)
qed simp

lemma machine_key_not_peer [simp]: "\<not> has_prefix (peers_prefix cl) (MACHINES_PREFIX @ i)"
  by (simp add: has_prefix_def strip_prefix_def peers_prefix_def MACHINES_PREFIX_def)

lemma decode_own_put:
  "parsers_ok env \<Longrightarrow> decode_put env cl q (Some (peer_key env cl q), v) = (if v = None then Malformed else Ignore)"
  by (auto simp: decode_put_def strip_peer_key parsers_ok_def split: option.split)

lemma decode_change:
  assumes "parsers_ok env" and "\<And>w. v = Some w \<Longrightarrow> joins_as env cl q w"
  shows "(v = None \<and> decode_event env cl me (change_event (peer_key env cl q) v) = Leave q) \<or>
    (v \<noteq> None \<and> q = me \<and> decode_event env cl me (change_event (peer_key env cl q) v) = Ignore) \<or>
    (v \<noteq> None \<and> q \<noteq> me \<and> (\<exists>a. decode_event env cl me (change_event (peer_key env cl q) v) = Join q a))"
proof (cases v)
  case None
  with assms(1) show ?thesis by (simp add: decode_event_def change_event_def strip_peer_key parsers_ok_def)
next
  case (Some w)
  then have "decode_event env cl me (change_event (peer_key env cl q) v) =
      decode_put env cl me (Some (peer_key env cl q), Some w)"
    by (simp add: decode_event_def change_event_def)
  with Some assms decode_own_put [OF assms(1), of cl q "Some w"] show ?thesis
    by (cases "q = me") (auto simp: joins_as_def)
qed

lemma registered_update:
  assumes "parsers_ok env"
  shows "registered env cl (st(peer_key env cl q := v)) =
    (if v = None then registered env cl st - {q} else insert q (registered env cl st))"
  by (auto simp: registered_def peer_key_inj [OF assms])

lemma registered_other:
  "\<not> has_prefix (peers_prefix cl) key \<Longrightarrow> registered env cl (st(key := v)) = registered env cl st"
  by (auto simp: registered_def)

text \<open>An event changes the membership of a node as the registry changed.\<close>

lemma member_change_registered:
  assumes "parsers_ok env" and "\<And>w. v = Some w \<Longrightarrow> joins_as env cl q w" and "v = None \<Longrightarrow> q \<noteq> me"
  shows "member_change (decode_event env cl me (change_event (peer_key env cl q) v))
      (insert me (registered env cl st)) =
    insert me (registered env cl (st(peer_key env cl q := v)))"
  using decode_change [OF assms(1), of v cl q me] assms(2,3)
  by (auto simp: registered_update [OF assms(1)])

section \<open>Lists sent by the controller\<close>

definition tx_of :: "('p, 'a) phases \<Rightarrow> 'p list list" where
  "tx_of s = (case dp_sharding_tx s of Some tx \<Rightarrow> tx | None \<Rightarrow> [])"

lemma sent_lists_tx: "sent_lists c = tx_of (ct_phases c)"
  by (simp add: sent_lists_def tx_of_def)

definition channel_up :: "('p, 'a) phases \<Rightarrow> bool" where
  "channel_up s \<longleftrightarrow> dp_sharding_open s \<and> dp_sharding_tx s \<noteq> None"

lemma notify_lists:
  assumes "channel_up s"
  shows "channel_up (notify_sharding env s)"
    and "tx_of (notify_sharding env s) = tx_of s @ [de_keys env (dp_known_peers s)]"
  using assms by (auto simp: channel_up_def notify_sharding_def tx_of_def Let_def)

lemma change_lists:
  assumes "channel_up s" and "Q (dp_known_peers s)" and "Q (member_change c (dp_known_peers s))"
  shows "channel_up (apply_change env c s)"
    and "\<exists>extra. tx_of (apply_change env c s) = tx_of s @ extra \<and> (\<forall>l\<in>set extra. \<exists>K. Q K \<and> l = de_keys env K)"
proof -
  let ?s = "\<lambda>cmd K. (send_swarm cmd s)\<lparr>dp_known_peers := K\<rparr>"
  have up: "channel_up (?s cmd K)" "tx_of (?s cmd K) = tx_of s" for cmd K
    using assms(1) by (simp_all add: channel_up_def tx_of_def)
  show "channel_up (apply_change env c s)"
    using assms(1) by (cases c) (simp_all add: up notify_lists)
  show "\<exists>extra. tx_of (apply_change env c s) = tx_of s @ extra \<and> (\<forall>l\<in>set extra. \<exists>K. Q K \<and> l = de_keys env K)"
    using assms(2,3) by (cases c) (auto simp: up notify_lists)
qed

lemma changes_lists:
  assumes "channel_up s" and "Q (dp_known_peers s)"
    and "\<And>c K. c \<in> set cs \<Longrightarrow> Q K \<Longrightarrow> Q (member_change c K)"
  shows "channel_up (fold (apply_change env) cs s) \<and> Q (dp_known_peers (fold (apply_change env) cs s)) \<and>
    (\<exists>extra. tx_of (fold (apply_change env) cs s) = tx_of s @ extra \<and>
       (\<forall>l\<in>set extra. \<exists>K. Q K \<and> l = de_keys env K))"
  using assms
proof (induction cs arbitrary: s)
  case Nil
  then show ?case by simp
next
  case (Cons c cs)
  have Q: "Q (member_change c (dp_known_peers s))" using Cons.prems by simp
  note up = change_lists [OF Cons.prems(1), of Q c env, OF Cons.prems(2) Q]
  from up(2) obtain e1 where e1: "tx_of (apply_change env c s) = tx_of s @ e1"
    "\<forall>l\<in>set e1. \<exists>K. Q K \<and> l = de_keys env K" by blast
  have "Q (dp_known_peers (apply_change env c s))" using Q by simp
  from Cons.IH [OF up(1) this] Cons.prems(3) obtain e2 where
    "channel_up (fold (apply_change env) cs (apply_change env c s))"
    "Q (dp_known_peers (fold (apply_change env) cs (apply_change env c s)))"
    "tx_of (fold (apply_change env) cs (apply_change env c s)) = tx_of s @ e1 @ e2"
    "\<forall>l\<in>set e2. \<exists>K. Q K \<and> l = de_keys env K"
    using e1(1) by auto
  with e1(2) show ?case
    by (intro conjI exI [of _ "e1 @ e2"]) (auto simp del: fold_apply_change)
qed

lemma admits_lists:
  assumes "channel_up s" and "Q (dp_known_peers s)"
    and "\<And>c K. c \<in> set cs \<Longrightarrow> Q K \<Longrightarrow> Q (member_change c K)" and "\<And>q. Leave q \<notin> set cs"
  shows "channel_up (fold admit cs s) \<and> Q (dp_known_peers (fold admit cs s)) \<and>
    tx_of (fold admit cs s) = tx_of s"
  using assms
proof (induction cs arbitrary: s)
  case Nil
  then show ?case by simp
next
  case (Cons c cs)
  have "dp_known_peers (admit c s) = member_change c (dp_known_peers s)"
    using Cons.prems(4) [of undefined] Cons.prems(4) by (cases c) auto
  moreover have "channel_up (admit c s)" using Cons.prems(1) by (simp add: channel_up_def)
  moreover have "tx_of (admit c s) = tx_of s" by (simp add: tx_of_def)
  ultimately show ?case using Cons.IH [of "admit c s"] Cons.prems by auto
qed

text \<open>The changes that an input of the controller means.\<close>

fun input_changes :: "('p, 'a) disc_env \<Rightarrow> string \<Rightarrow> 'p \<Rightarrow> disc_input \<Rightarrow> ('p, 'a) change list" where
  "input_changes env cl me (In_Peers (Inr kvs)) = map (decode_put env cl me) kvs"
| "input_changes env cl me (In_Watch (Watch_Response False es) r) = map (decode_event env cl me) es"
| "input_changes env cl me _ = []"

lemma converge_lists:
  assumes "channel_up s" and "Q (dp_known_peers s)" and "converge env (Inr kvs) s = (s', r)"
    and "\<And>c K. c \<in> set (map (decode_put env (dp_cluster_id s) (dp_local_peer_id s)) kvs) \<Longrightarrow> Q K \<Longrightarrow>
      Q (member_change c K)"
  shows "channel_up s' \<and> Q (dp_known_peers s') \<and>
    (\<exists>extra. tx_of s' = tx_of s @ extra \<and> (\<forall>l\<in>set extra. \<exists>K. Q K \<and> l = de_keys env K))"
proof -
  let ?cs = "map (decode_put env (dp_cluster_id s) (dp_local_peer_id s)) kvs"
  have leave: "Leave q \<notin> set (wellformed ?cs)" for q
    by (auto dest!: set_takeWhileD simp: decode_put_not_Leave [symmetric])
  have "channel_up (fold admit (wellformed ?cs) s) \<and> Q (dp_known_peers (fold admit (wellformed ?cs) s)) \<and>
      tx_of (fold admit (wellformed ?cs) s) = tx_of s"
    using assms(1,2,4) leave by (intro admits_lists) (auto dest: set_takeWhileD)
  moreover have "channel_up (t\<lparr>dp_readiness := b\<rparr>) = channel_up t" "tx_of (t\<lparr>dp_readiness := b\<rparr>) = tx_of t"
    for t :: "('a, 'b) phases" and b
    by (simp_all add: channel_up_def tx_of_def)
  ultimately show ?thesis
    using assms(3) notify_lists [of "fold admit (wellformed ?cs) s" env]
    by (auto simp: converge_alt Let_def split: if_splits)
qed

lemma watch_lists:
  assumes "channel_up s" and "Q (dp_known_peers s)"
    and "process_watch_event env (Watch_Response False es) s = (s', r)"
    and "\<And>c K. c \<in> set (map (decode_event env (dp_cluster_id s) (dp_local_peer_id s)) es) \<Longrightarrow> Q K \<Longrightarrow>
      Q (member_change c K)"
  shows "channel_up s' \<and> Q (dp_known_peers s') \<and>
    (\<exists>extra. tx_of s' = tx_of s @ extra \<and> (\<forall>l\<in>set extra. \<exists>K. Q K \<and> l = de_keys env K))"
proof -
  let ?cs = "wellformed (map (decode_event env (dp_cluster_id s) (dp_local_peer_id s)) es)"
  have "s' = fold (apply_change env) ?cs s"
    using assms(3) by (auto simp: process_events_alt Let_def)
  moreover have "Q (member_change c K)" if "c \<in> set ?cs" "Q K" for c K
    using that assms(4) by (meson set_takeWhileD)
  ultimately show ?thesis using changes_lists [of s Q ?cs env] assms(1,2) by blast
qed

lemma ctl_step_static:
  assumes "ctl_step env i c = Some c'"
  shows "dp_cluster_id (ct_phases c') = dp_cluster_id (ct_phases c) \<and>
    dp_local_peer_id (ct_phases c') = dp_local_peer_id (ct_phases c)"
proof (cases i)
  case (In_Peers resp)
  with assms show ?thesis
    by (cases resp) (auto simp: converge_alt converge_def [of _ "Inl _"] Let_def split: if_splits)
next
  case (In_Watch msg r)
  with assms show ?thesis
    by (cases msg) (auto simp: process_events_alt enter_maintenance_def Let_def split: if_splits sum.splits)
qed (use assms in \<open>auto simp: shutdown_def Let_def split: if_splits sum.splits option.splits prod.splits\<close>)

lemma ctl_step_lists:
  assumes "ctl_step env i c = Some c'" and "channel_up (ct_phases c)" and "Q (dp_known_peers (ct_phases c))"
    and "\<And>ch K. ch \<in> set (input_changes env (dp_cluster_id (ct_phases c)) (dp_local_peer_id (ct_phases c)) i) \<Longrightarrow>
      Q K \<Longrightarrow> Q (member_change ch K)"
  shows "channel_up (ct_phases c') \<and> Q (dp_known_peers (ct_phases c')) \<and>
    (\<exists>extra. sent_lists c' = sent_lists c @ extra \<and> (\<forall>l\<in>set extra. \<exists>K. Q K \<and> l = de_keys env K))"
proof (cases i)
  case (In_Peers resp)
  show ?thesis
  proof (cases resp)
    case (Inl e)
    with assms In_Peers show ?thesis by (auto simp: converge_def sent_lists_tx split: if_splits)
  next
    case (Inr kvs)
    obtain s r where conv: "converge env (Inr kvs) (ct_phases c) = (s, r)"
      by (cases "converge env (Inr kvs) (ct_phases c)")
    have "ct_phases c' = s"
      using assms(1) In_Peers Inr conv by (auto simp: Let_def split: if_splits sum.splits)
    with converge_lists [of "ct_phases c" Q env kvs s r] assms(2-4) conv In_Peers Inr show ?thesis
      by (simp add: sent_lists_tx)
  qed
next
  case (In_Watch msg reopen)
  obtain s r where watch: "process_watch_event env msg (ct_phases c) = (s, r)"
    by (cases "process_watch_event env msg (ct_phases c)")
  have s: "ct_phases c' = s"
    using assms(1) In_Watch watch by (auto split: if_splits sum.splits)
  show ?thesis
  proof (cases "\<exists>es. msg = Watch_Response False es")
    case True
    then obtain es where "msg = Watch_Response False es" by blast
    with watch_lists [of "ct_phases c" Q env es s r] assms(2-4) watch In_Watch s show ?thesis
      by (simp add: sent_lists_tx)
  next
    case False
    then have "s = ct_phases c" using watch by (cases msg) (auto split: if_splits)
    with s assms(2,3) show ?thesis by (simp add: sent_lists_tx)
  qed
qed (use assms(1-3) in \<open>auto simp: shutdown_def sent_lists_tx channel_up_def tx_of_def Let_def
      split: if_splits sum.splits option.splits prod.splits\<close>)

section \<open>The coordinator follows the lists\<close>

definition chan_ok :: "'p naming \<Rightarrow> 'p \<Rightarrow> 'p list list \<Rightarrow> 'p node \<Rightarrow> bool" where
  "chan_ok nm p tx nd \<longleftrightarrow>
     (\<exists>taken. tx = taken @ nd_sharding_rx nd \<and> nd_coordinator nd = sharding_new nm p (last ([p] # taken)))"

lemma chan_ok_bridge: "chan_ok nm p tx nd \<Longrightarrow> chan_ok nm p tx (bridge_step nm nd)"
proof (cases "nd_sharding_rx nd")
  case (Cons l ls)
  moreover assume "chan_ok nm p tx nd"
  then obtain taken where "tx = taken @ nd_sharding_rx nd"
    "nd_coordinator nd = sharding_new nm p (last ([p] # taken))" by (auto simp: chan_ok_def)
  ultimately show ?thesis
    unfolding chan_ok_def
    by (intro exI [of _ "taken @ [l]"]) (simp add: bridge_step_def topology_changed_new sharding_new_def)
qed (simp add: bridge_step_def)

lemma chan_ok_bridges:
  "chan_ok nm p tx nd \<Longrightarrow> chan_ok nm p tx ((bridge_step nm ^^ k) (nd\<lparr>nd_manager := m\<rparr>))"
proof -
  have "chan_ok nm p tx n \<Longrightarrow> chan_ok nm p tx ((bridge_step nm ^^ k) n)" for n
    by (induction k) (simp_all add: chan_ok_bridge)
  moreover assume "chan_ok nm p tx nd"
  then have "chan_ok nm p tx (nd\<lparr>nd_manager := m\<rparr>)" by (simp add: chan_ok_def)
  ultimately show ?thesis by blast
qed

lemma chan_ok_manager: "manager_does nm from_str msg nd nd' \<Longrightarrow> chan_ok nm p tx nd \<Longrightarrow> chan_ok nm p tx nd'"
  by (auto simp: manager_does_def chan_ok_bridges)

lemma chan_ok_panics: "manager_panics nm from_str msg nd nd' \<Longrightarrow> chan_ok nm p tx nd \<Longrightarrow> chan_ok nm p tx nd'"
  by (auto simp: manager_panics_def chan_ok_bridges)

lemma node_ok_manager:
  assumes "manager_does nm from_str msg nd nd'" and "node_ok nm from_str P p nd"
    and "\<And>p. p \<in> P \<Longrightarrow> sliceable nm p" and "msg \<noteq> Rebalance_Actors"
  shows "node_ok nm from_str P p nd'"
proof -
  from assms(1) obtain k env m' where "k \<le> length (nd_sharding_rx nd)" "handler_env nm from_str k nd env"
    "mgr_handle msg env (nd_manager nd) = Inr m'" "nd' = (bridge_step nm ^^ k) (nd\<lparr>nd_manager := m'\<rparr>)"
    by (auto simp: manager_does_def)
  with node_step.message [of k nd nm from_str env msg m' P] node_ok_step [OF _ assms(2,3)] assms(4)
  show ?thesis by blast
qed

text \<open>A manager with no actors and no cached specs agrees with every owner.\<close>

definition manager_empty :: "'p node \<Rightarrow> bool" where
  "manager_empty nd \<longleftrightarrow>
     mg_actors (nd_manager nd) = Map.empty \<and> mg_machine_specs (nd_manager nd) = Map.empty"

lemma node_ok_empty:
  "node_ok nm from_str P p nd \<Longrightarrow> manager_empty nd \<Longrightarrow> node_ok nm from_str P p (nd\<lparr>nd_topology_rx := t\<rparr>)"
  by (simp add: node_ok_def manager_empty_def table_ok_def matched_def)

lemma manager_panicked:
  assumes "manager_panics nm from_str msg nd nd'"
  shows "manager_empty nd'" and "node_ok nm from_str P p nd \<Longrightarrow> node_ok nm from_str P p nd'"
    and "mg_local_peer_id (nd_manager nd') = mg_local_peer_id (nd_manager nd)"
proof -
  let ?m = "manager_new (mg_local_peer_id (nd_manager nd)) (mg_node_id (nd_manager nd))"
  obtain k where k: "k \<le> length (nd_sharding_rx nd)" "nd' = (bridge_step nm ^^ k) (nd\<lparr>nd_manager := ?m\<rparr>)"
    using assms by (auto simp: manager_panics_def)
  then show "manager_empty nd'" "mg_local_peer_id (nd_manager nd') = mg_local_peer_id (nd_manager nd)"
    by (simp_all add: manager_empty_def bridge_steps manager_new_def)
  assume ok: "node_ok nm from_str P p nd"
  have "mgr_ok ?m" by (rule mgr_ok_new)
  moreover from ok have "table_ok nm P p (nd\<lparr>nd_manager := ?m\<rparr>)" by (simp add: node_ok_def table_ok_def)
  moreover have "matched from_str own ?m" for own by (simp add: matched_def manager_new_def)
  ultimately show "node_ok nm from_str P p nd'"
    unfolding k(2) using k(1) by (intro node_ok_bridged) (simp_all add: node_ok_def)
qed

lemma node_ok_rebalance:
  assumes "manager_does nm from_str Rebalance_Actors (nd\<lparr>nd_topology_rx := nd_topology_rx nd - 1\<rparr>) nd'"
    and "node_ok nm from_str P p nd" and "\<And>p. p \<in> P \<Longrightarrow> sliceable nm p" and "0 < nd_topology_rx nd"
  shows "node_ok nm from_str P p nd'"
proof -
  from assms(1) obtain k env where "k \<le> length (nd_sharding_rx nd)" "handler_env nm from_str k nd env"
    "nd' = (bridge_step nm ^^ k) (nd\<lparr>nd_topology_rx := nd_topology_rx nd - 1,
       nd_manager := rebalance_actors env (nd_manager nd)\<rparr>)"
    by (auto simp: manager_does_def handler_env_def)
  with node_step.rebalance [OF assms(4), of k nm from_str env] node_ok_step [OF _ assms(2,3)]
  show ?thesis by simp
qed

section \<open>The invariant\<close>

definition good_peers :: "'p set \<Rightarrow> 'p \<Rightarrow> bool \<Rightarrow> 'p set \<Rightarrow> bool" where
  "good_peers P p intact K \<longleftrightarrow> finite K \<and> K \<subseteq> P \<and> (intact \<longrightarrow> p \<in> K)"

fun good_change :: "'p set \<Rightarrow> 'p \<Rightarrow> bool \<Rightarrow> ('p, 'a) change \<Rightarrow> bool" where
  "good_change P p intact (Join q a) = (q \<in> P)"
| "good_change P p intact (Leave q) = (intact \<longrightarrow> q \<noteq> p)"
| "good_change P p intact _ = True"

lemma good_member_change:
  "good_change P p intact ch \<Longrightarrow> good_peers P p intact K \<Longrightarrow> good_peers P p intact (member_change ch K)"
  by (cases ch) (auto simp: good_peers_def)

definition wired ::
  "'p naming \<Rightarrow> spec_parser \<Rightarrow> string \<Rightarrow> 'p set \<Rightarrow> 'p \<Rightarrow> ('p, 'a) cnode \<Rightarrow> bool" where
  "wired nm from_str cl P p n \<longleftrightarrow>
     (let ph = ct_phases (cn_controller n)
      in dp_cluster_id ph = cl \<and> dp_local_peer_id ph = p \<and> channel_up ph \<and> ctl_ok (cn_controller n) \<and>
         good_peers P p (cn_peers_intact n) (dp_known_peers ph) \<and>
         (\<forall>l\<in>set (sent_lists (cn_controller n)). good_peers P p (cn_peers_intact n) (set l)) \<and>
         chan_ok nm p (sent_lists (cn_controller n)) (cn_node n) \<and>
         node_ok nm from_str P p (cn_node n))"

definition peers_follow ::
  "('p, 'a) disc_env \<Rightarrow> string \<Rightarrow> 'p set \<Rightarrow> 'p \<Rightarrow> etcd_store \<Rightarrow> ('p, 'a) cnode \<Rightarrow> bool" where
  "peers_follow env cl P p st n \<longleftrightarrow>
     (let pc = ct_pc (cn_controller n); known = dp_known_peers (ct_phases (cn_controller n))
      in (pc \<in> {At_Initialize, At_Register, At_Converge} \<longrightarrow> known = {p}) \<and>
         (\<forall>es. cn_peer_watch n = Some es \<longrightarrow> list_all (peer_event_ok env cl P) es) \<and>
         (cn_peers_intact n \<longrightarrow>
            (pc = At_Enter \<longrightarrow> known = insert p (registered env cl st)) \<and>
            (pc = At_Loop \<longrightarrow>
               (\<exists>es. cn_peer_watch n = Some es \<and> Leave p \<notin> decode_event env cl p ` set es \<and>
                  fold member_change (map (decode_event env cl p) es) known =
                    insert p (registered env cl st)))))"

lemma wired_cong:
  assumes "wired nm from_str cl P p n" and "cn_controller n' = cn_controller n"
    and "cn_node n' = cn_node n" and "cn_peers_intact n' \<Longrightarrow> cn_peers_intact n"
  shows "wired nm from_str cl P p n'"
  using assms by (auto simp: wired_def good_peers_def Let_def)

lemma wired_init:
  assumes "p \<in> P"
  shows "wired nm from_str cl P p (cnode_init nm cl cfg p a name)"
proof -
  have "chan_ok nm p [] (node_init nm p name)" by (simp add: chan_ok_def node_init_def)
  with assms show ?thesis
    by (simp add: wired_def cnode_init_def ctl_ok_new node_ok_init good_peers_def)
      (simp add: controller_new_def phases_new_def channel_up_def sent_lists_def)
qed

lemma peers_follow_init: "peers_follow env cl P p st (cnode_init nm cl cfg p a name)"
  by (simp add: peers_follow_def cnode_init_def controller_new_def phases_new_def)

text \<open>A step of the controller, for an input whose changes keep the membership good.\<close>

lemma wired_advance:
  assumes "ctl_step env i (cn_controller n) = Some c'" and "wired nm from_str cl P p n"
    and "iteration_order (de_keys env)"
    and "list_all (good_change P p (cn_peers_intact n)) (input_changes env cl p i)"
  shows "wired nm from_str cl P p (advance c' n)"
proof -
  let ?c = "cn_controller n" and ?Q = "good_peers P p (cn_peers_intact n)"
  have w: "dp_cluster_id (ct_phases ?c) = cl" "dp_local_peer_id (ct_phases ?c) = p"
    "channel_up (ct_phases ?c)" "ctl_ok ?c" "?Q (dp_known_peers (ct_phases ?c))"
    "\<forall>l\<in>set (sent_lists ?c). ?Q (set l)" "chan_ok nm p (sent_lists ?c) (cn_node n)"
    "node_ok nm from_str P p (cn_node n)"
    using assms(2) by (simp_all add: wired_def Let_def)
  have "?Q (member_change ch K)" if "ch \<in> set (input_changes env cl p i)" "?Q K" for ch K
    using that assms(4) by (auto simp: list_all_iff intro: good_member_change)
  with ctl_step_lists [OF assms(1) w(3), of ?Q] w(1,2,5) obtain extra where
    up: "channel_up (ct_phases c')" "?Q (dp_known_peers (ct_phases c'))"
      "sent_lists c' = sent_lists ?c @ extra" "\<forall>l\<in>set extra. \<exists>K. ?Q K \<and> l = de_keys env K"
    by auto
  have extra: "\<forall>l\<in>set extra. ?Q (set l)"
    using up(4) assms(3) unfolding good_peers_def by (metis iteration_orderD(2) List.finite_set)
  have rx: "nd_sharding_rx (cn_node (advance c' n)) = nd_sharding_rx (cn_node n) @ extra"
    by (simp add: advance_def up(3))
  have co: "nd_coordinator (cn_node (advance c' n)) = nd_coordinator (cn_node n)"
    by (simp add: advance_def)
  from w(7) obtain taken where "sent_lists ?c = taken @ nd_sharding_rx (cn_node n)"
    "nd_coordinator (cn_node n) = sharding_new nm p (last ([p] # taken))"
    unfolding chan_ok_def by blast
  then have "chan_ok nm p (sent_lists c') (cn_node (advance c' n))"
    unfolding chan_ok_def up(3) rx co by (intro exI [of _ taken]) simp
  moreover have "node_ok nm from_str P p (cn_node (advance c' n))"
    using w(8) extra by (auto simp: node_ok_def table_ok_def advance_def up(3) good_peers_def)
  moreover have "cn_controller (advance c' n) = c'" "cn_peers_intact (advance c' n) = cn_peers_intact n"
    by (simp_all add: advance_def)
  moreover have "\<forall>l\<in>set (sent_lists c'). ?Q (set l)" using w(6) extra unfolding up(3) set_append by blast
  ultimately show ?thesis
    using up(1,2) w(1,2) ctl_step_static [OF assms(1)] ctl_ok_step [OF assms(3) w(4) assms(1)]
    by (simp add: wired_def Let_def)
qed

lemma wired_node:
  assumes "wired nm from_str cl P p n" and "node_ok nm from_str P p nd"
    and "chan_ok nm p (sent_lists (cn_controller n)) nd"
  shows "wired nm from_str cl P p (n\<lparr>cn_node := nd\<rparr>)"
  using assms by (simp add: wired_def Let_def)

end
