(* ===== verification/Cluster_Invariant.thy ===== *)
theory Cluster_Invariant
  imports Cluster_Machines Cluster_Peers
begin

text \<open>
  The invariant of the whole system, for every reachable state: each node is wired consistently, its
  membership follows the registry and its cache follows the machine entries; a manager that has panicked
  has nothing left.
\<close>

text \<open>What is relied on of the libraries and of the names of the peers.\<close>

definition libraries_ok :: "'p naming \<Rightarrow> ('p, 'a) disc_env \<Rightarrow> 'p set \<Rightarrow> bool" where
  "libraries_ok nm env P \<longleftrightarrow>
     parsers_ok env \<and> iteration_order (de_keys env) \<and> (\<forall>p\<in>P. sliceable nm p)"

definition node_inv ::
  "'p naming \<Rightarrow> spec_parser \<Rightarrow> ('p, 'a) disc_env \<Rightarrow> string \<Rightarrow> 'p set \<Rightarrow> etcd_store \<Rightarrow> 'p \<Rightarrow>
     ('p, 'a) cnode \<Rightarrow> bool" where
  "node_inv nm from_str env cl P st p n \<longleftrightarrow>
     wired nm from_str cl P p n \<and> peers_follow env cl P p st n \<and> machines_follow st n \<and>
     (\<not> cn_manager_up n \<longrightarrow> manager_empty (cn_node n))"

section \<open>Changes in etcd\<close>

lemma wired_observe: "wired nm from_str cl P p n \<Longrightarrow> wired nm from_str cl P p (observe env key v n)"
  by (erule wired_cong) (simp_all add: observe_def Let_def)

lemma wiredD:
  assumes "wired nm from_str cl P p n"
  shows "dp_cluster_id (ct_phases (cn_controller n)) = cl" "dp_local_peer_id (ct_phases (cn_controller n)) = p"
    and "good_peers P p (cn_peers_intact n) (dp_known_peers (ct_phases (cn_controller n)))"
    and "chan_ok nm p (sent_lists (cn_controller n)) (cn_node n)" and "node_ok nm from_str P p (cn_node n)"
    and "ctl_ok (cn_controller n)" and "channel_up (ct_phases (cn_controller n))"
    and "\<And>l. l \<in> set (sent_lists (cn_controller n)) \<Longrightarrow> good_peers P p (cn_peers_intact n) (set l)"
  using assms by (simp_all add: wired_def Let_def)

lemma peers_followI:
  assumes "ct_pc (cn_controller n) \<in> {At_Initialize, At_Register, At_Converge} \<Longrightarrow>
      dp_known_peers (ct_phases (cn_controller n)) = {p}"
    and "\<And>es. cn_peer_watch n = Some es \<Longrightarrow> list_all (peer_event_ok env cl P) es"
    and "cn_peers_intact n \<Longrightarrow> ct_pc (cn_controller n) = At_Enter \<Longrightarrow>
      dp_known_peers (ct_phases (cn_controller n)) = insert p (registered env cl st)"
    and "cn_peers_intact n \<Longrightarrow> ct_pc (cn_controller n) = At_Loop \<Longrightarrow>
      \<exists>es. cn_peer_watch n = Some es \<and> Leave p \<notin> decode_event env cl p ` set es \<and>
        fold member_change (map (decode_event env cl p) es) (dp_known_peers (ct_phases (cn_controller n))) =
          insert p (registered env cl st)"
  shows "peers_follow env cl P p st n"
  using assms unfolding peers_follow_def Let_def by blast

lemma peers_followD:
  assumes "peers_follow env cl P p st n"
  shows "ct_pc (cn_controller n) \<in> {At_Initialize, At_Register, At_Converge} \<Longrightarrow>
      dp_known_peers (ct_phases (cn_controller n)) = {p}"
    and "cn_peer_watch n = Some es \<Longrightarrow> list_all (peer_event_ok env cl P) es"
    and "cn_peers_intact n \<Longrightarrow> ct_pc (cn_controller n) = At_Enter \<Longrightarrow>
      dp_known_peers (ct_phases (cn_controller n)) = insert p (registered env cl st)"
    and "cn_peers_intact n \<Longrightarrow> ct_pc (cn_controller n) = At_Loop \<Longrightarrow>
      \<exists>es. cn_peer_watch n = Some es \<and> Leave p \<notin> decode_event env cl p ` set es \<and>
        fold member_change (map (decode_event env cl p) es) (dp_known_peers (ct_phases (cn_controller n))) =
          insert p (registered env cl st)"
  using assms unfolding peers_follow_def Let_def by blast+

lemma peers_follow_observe:
  assumes "parsers_ok env" and "wired nm from_str cl P p n" and "peers_follow env cl P p st n"
    and "has_prefix (peers_prefix cl) key \<Longrightarrow>
      \<exists>q\<in>P. key = peer_key env cl q \<and> (\<forall>w. v = Some w \<longrightarrow> joins_as env cl q w)"
  shows "peers_follow env cl P p (st(key := v)) (observe env key v n)"
proof (cases "has_prefix (peers_prefix cl) key")
  case False
  then have "key \<noteq> peer_key env cl p" by auto
  with False assms(3) wiredD(1,2) [OF assms(2)] show ?thesis
    by (simp add: peers_follow_def observe_def registered_other Let_def)
next
  case True
  then obtain q where q: "q \<in> P" "key = peer_key env cl q" "\<And>w. v = Some w \<Longrightarrow> joins_as env cl q w"
    using assms(4) by blast
  have ev: "peer_event_ok env cl P (change_event key v)" using q by (auto simp: peer_event_ok_def)
  let ?n = "observe env key v n"
  have same: "cn_controller ?n = cn_controller n"
    "cn_peer_watch ?n = map_option (\<lambda>es. es @ [change_event key v]) (cn_peer_watch n)"
    "cn_peers_intact ?n \<longleftrightarrow> cn_peers_intact n \<and> ct_pc (cn_controller n) \<noteq> At_Enter \<and>
       \<not> (q = p \<and> v = None \<and> ct_pc (cn_controller n) = At_Loop)"
    using True wiredD(1,2) [OF assms(2)]
    by (auto simp: observe_def Let_def q(2) peer_key_inj [OF assms(1)])
  have leave: "decode_event env cl p (change_event key v) \<noteq> Leave p" if "v = None \<Longrightarrow> q \<noteq> p"
    using decode_change [OF assms(1), of v cl q p] q(2,3) that by auto
  have reg: "member_change (decode_event env cl p (change_event key v)) (insert p (registered env cl st)) =
      insert p (registered env cl (st(key := v)))" if "v = None \<Longrightarrow> q \<noteq> p"
    using member_change_registered [OF assms(1), of v cl q p st] q(2,3) that by blast
  have loop: "\<exists>es. cn_peer_watch ?n = Some es \<and> Leave p \<notin> decode_event env cl p ` set es \<and>
      fold member_change (map (decode_event env cl p) es) (dp_known_peers (ct_phases (cn_controller n))) =
        insert p (registered env cl (st(key := v)))"
    if "cn_peers_intact ?n" "ct_pc (cn_controller n) = At_Loop"
  proof -
    from that peers_followD(4) [OF assms(3)] obtain es where es: "cn_peer_watch n = Some es"
      "Leave p \<notin> decode_event env cl p ` set es"
      "fold member_change (map (decode_event env cl p) es) (dp_known_peers (ct_phases (cn_controller n))) =
        insert p (registered env cl st)"
      using same(3) by auto
    with leave reg that show ?thesis
      by (intro exI [of _ "es @ [change_event key v]"]) (auto simp: same)
  qed
  show ?thesis
  proof (rule peers_followI)
    show "list_all (peer_event_ok env cl P) es" if "cn_peer_watch ?n = Some es" for es
      using that ev peers_followD(2) [OF assms(3)] by (auto simp: same(2))
  qed (use peers_followD(1) [OF assms(3)] loop same(1,3) in auto)
qed

lemma observe_node [simp]:
  "cn_node (observe env key v n) = cn_node n" "cn_manager_up (observe env key v n) = cn_manager_up n"
  by (simp_all add: observe_def Let_def)

lemma node_inv_observe:
  assumes "libraries_ok nm env P" and "node_inv nm from_str env cl P st p n"
    and "has_prefix (peers_prefix cl) key \<Longrightarrow>
      \<exists>q\<in>P. key = peer_key env cl q \<and> (\<forall>w. v = Some w \<longrightarrow> joins_as env cl q w)"
  shows "node_inv nm from_str env cl P (st(key := v)) p (observe env key v n)"
  using assms(1,2) unfolding node_inv_def libraries_ok_def
  by (intro conjI wired_observe machines_follow_observe peers_follow_observe [OF _ _ _ assms(3)]) auto

section \<open>Steps of a node\<close>

lemma peer_event_changes:
  assumes "parsers_ok env" and "list_all (peer_event_ok env cl P) es"
  shows "Malformed \<notin> set (map (decode_event env cl p) es)"
    and "intact \<longrightarrow> Leave p \<notin> decode_event env cl p ` set es \<Longrightarrow>
      list_all (good_change P p intact) (map (decode_event env cl p) es)"
proof -
  have "decode_event env cl p e \<noteq> Malformed \<and>
      ((intact \<longrightarrow> decode_event env cl p e \<noteq> Leave p) \<longrightarrow> good_change P p intact (decode_event env cl p e))"
    if "e \<in> set es" for e
  proof -
    from assms(2) that obtain q v where "q \<in> P" "e = change_event (peer_key env cl q) v"
      "\<And>w. v = Some w \<Longrightarrow> joins_as env cl q w"
      by (auto simp: list_all_iff peer_event_ok_def)
    with decode_change [OF assms(1), of v cl q p] show ?thesis by auto
  qed
  then show "Malformed \<notin> set (map (decode_event env cl p) es)"
    "intact \<longrightarrow> Leave p \<notin> decode_event env cl p ` set es \<Longrightarrow>
      list_all (good_change P p intact) (map (decode_event env cl p) es)"
    by (auto simp: list_all_iff) (metis image_eqI)+
qed

text \<open>Reading events of the discovery watch.\<close>

lemma ctl_step_events:
  assumes "ctl_step env (In_Watch (Watch_Response False es) r) c = Some c'"
    and "Malformed \<notin> set (map (decode_event env (dp_cluster_id (ct_phases c)) (dp_local_peer_id (ct_phases c))) es)"
  shows "ct_pc c = At_Loop" "ct_pc c' = At_Loop" "ct_converged c' = ct_converged c"
    and "dp_known_peers (ct_phases c') = fold member_change
      (map (decode_event env (dp_cluster_id (ct_phases c)) (dp_local_peer_id (ct_phases c))) es)
      (dp_known_peers (ct_phases c))"
proof -
  let ?cs = "map (decode_event env (dp_cluster_id (ct_phases c)) (dp_local_peer_id (ct_phases c))) es"
  have all: "wellformed ?cs = ?cs" using assms(2) by (simp only: takeWhile_eq_all_conv) blast
  have pw: "process_watch_event env (Watch_Response False es) (ct_phases c) =
      (fold (apply_change env) ?cs (ct_phases c), Inr ())"
    using assms(2) by (simp only: process_watch_event.simps if_False process_events_alt Let_def all)
  from assms(1) show pc: "ct_pc c = At_Loop" by (simp del: process_watch_event.simps split: if_splits)
  with assms(1) pw have c': "c' = c\<lparr>ct_phases := fold (apply_change env) ?cs (ct_phases c)\<rparr>"
    by (simp del: process_watch_event.simps)
  with pc show "ct_pc c' = At_Loop" "ct_converged c' = ct_converged c"
    "dp_known_peers (ct_phases c') = fold member_change ?cs (dp_known_peers (ct_phases c))"
    by simp_all
qed

lemma advance_simps [simp]:
  "cn_controller (advance c' n) = c'" "cn_peer_watch (advance c' n) = cn_peer_watch n"
  "cn_peers_intact (advance c' n) = cn_peers_intact n"
  "cn_machine_watch (advance c' n) = cn_machine_watch n" "cn_mailbox (advance c' n) = cn_mailbox n"
  "cn_sync_pending (advance c' n) = cn_sync_pending n" "cn_loaded (advance c' n) = cn_loaded n"
  "cn_machines_intact (advance c' n) = cn_machines_intact n" "cn_manager_up (advance c' n) = cn_manager_up n"
  "nd_manager (cn_node (advance c' n)) = nd_manager (cn_node n)"
  "nd_coordinator (cn_node (advance c' n)) = nd_coordinator (cn_node n)"
  "nd_topology_rx (cn_node (advance c' n)) = nd_topology_rx (cn_node n)"
  by (simp_all add: advance_def)

lemma advance_empty [simp]: "manager_empty (cn_node (advance c' n)) = manager_empty (cn_node n)"
  by (simp add: manager_empty_def)

lemma bridge_empty [simp]: "manager_empty (bridge_step nm nd) = manager_empty nd"
  by (simp add: manager_empty_def)

lemma manager_gone_step:
  assumes "work_step nm from_str env st n n' \<or> life_step nm from_str env st n n'"
    and "\<not> cn_manager_up n \<longrightarrow> manager_empty (cn_node n)"
  shows "\<not> cn_manager_up n' \<longrightarrow> manager_empty (cn_node n')"
  using assms
  by (elim disjE work_step.cases life_step.cases) (auto simp: manager_empty_def dest: manager_panicked(1))

lemma peers_step_events:
  assumes "libraries_ok nm env P" and "wired nm from_str cl P p n" and "peers_follow env cl P p st n"
    and "cn_peer_watch n = Some (es @ rest)"
    and "ctl_step env (In_Watch (Watch_Response False es) r) (cn_controller n) = Some c'"
  shows "wired nm from_str cl P p ((advance c' n)\<lparr>cn_peer_watch := Some rest\<rparr>)"
    and "peers_follow env cl P p st ((advance c' n)\<lparr>cn_peer_watch := Some rest\<rparr>)"
proof -
  let ?c = "cn_controller n"
  have lib: "parsers_ok env" "iteration_order (de_keys env)" using assms(1) by (simp_all add: libraries_ok_def)
  have evs: "list_all (peer_event_ok env cl P) (es @ rest)"
    using peers_followD(2) [OF assms(3,4)] .
  then have es: "list_all (peer_event_ok env cl P) es" by simp
  note mal = peer_event_changes(1) [OF lib(1) es, of p]
  note step = ctl_step_events [OF assms(5), unfolded wiredD(1,2) [OF assms(2)], OF mal]
  have intact: "Leave p \<notin> decode_event env cl p ` set (es @ rest) \<and>
      fold member_change (map (decode_event env cl p) (es @ rest)) (dp_known_peers (ct_phases ?c)) =
        insert p (registered env cl st)" if "cn_peers_intact n"
    using peers_followD(4) [OF assms(3) that step(1)] assms(4) by auto
  have good: "list_all (good_change P p (cn_peers_intact n))
      (input_changes env cl p (In_Watch (Watch_Response False es) r))"
    using peer_event_changes(2) [OF lib(1) es, of "cn_peers_intact n" p] intact by auto
  from wired_advance [OF assms(5,2) lib(2) good]
  show "wired nm from_str cl P p ((advance c' n)\<lparr>cn_peer_watch := Some rest\<rparr>)"
    by (rule wired_cong) simp_all
  show "peers_follow env cl P p st ((advance c' n)\<lparr>cn_peer_watch := Some rest\<rparr>)"
    using evs intact step by (intro peers_followI) auto
qed

lemma node_inv_work:
  assumes "libraries_ok nm env P" and "work_step nm from_str env st n n'"
    and "node_inv nm from_str env cl P st p n"
  shows "node_inv nm from_str env cl P st p n'"
proof -
  have inv: "wired nm from_str cl P p n" "peers_follow env cl P p st n" "machines_follow st n"
    "\<not> cn_manager_up n \<longrightarrow> manager_empty (cn_node n)"
    using assms(3) by (simp_all add: node_inv_def)
  have slice: "\<And>p. p \<in> P \<Longrightarrow> sliceable nm p" using assms(1) by (simp add: libraries_ok_def)
  note chan = wiredD(4) [OF inv(1)] and node = wiredD(5) [OF inv(1)]
  have panics: "wired nm from_str cl P p (n\<lparr>cn_node := nd\<rparr>)" if "manager_panics nm from_str msg (cn_node n) nd"
    for msg nd
    by (intro wired_node inv(1) manager_panicked(2) [OF that node] chan_ok_panics [OF that chan])
  have peers: "wired nm from_str cl P p n' \<and> peers_follow env cl P p st n'"
    using assms(2)
  proof (cases rule: work_step.cases)
    case (peer_events es rest r c')
    with peers_step_events [OF assms(1) inv(1,2)] show ?thesis by simp
  next
    case bridge
    have "node_ok nm from_str P p (bridge_step nm (cn_node n))"
      using node_ok_step [OF node_step.bridge [OF bridge(2)] node slice] .
    with wired_node [OF inv(1) _ chan_ok_bridge [OF chan]] bridge(1) inv(2) show ?thesis
      by (simp add: peers_follow_def)
  next
    case (rebalance nd)
    have "chan_ok nm p (sent_lists (cn_controller n)) nd"
      by (rule chan_ok_manager [OF rebalance(4)]) (use chan in \<open>simp add: chan_ok_def\<close>)
    with node_ok_rebalance [OF rebalance(4) node slice rebalance(3)] rebalance(1) inv(2)
      wired_node [OF inv(1)] show ?thesis by (simp add: peers_follow_def)
  next
    case rebalance_dropped
    have "wired nm from_str cl P p n'"
      unfolding rebalance_dropped(1) using rebalance_dropped(2) inv(4) chan
      by (intro wired_node inv(1) node_ok_empty [OF node]) (simp_all add: chan_ok_def)
    then show ?thesis using rebalance_dropped(1) inv(2) by (simp add: peers_follow_def)
  next
    case (forward e es)
    with inv(2) show ?thesis
      by (auto intro: wired_cong [OF inv(1)] simp: peers_follow_def)
  next
    case (event m ms nd)
    have "wired nm from_str cl P p (n\<lparr>cn_node := nd\<rparr>)"
      by (intro wired_node inv(1) node_ok_manager [OF event(4) node slice] chan_ok_manager [OF event(4) chan]) simp_all
    then show ?thesis using event(1) inv(2) by (auto elim: wired_cong simp: peers_follow_def)
  next
    case (sync kvs nd)
    have "wired nm from_str cl P p (n\<lparr>cn_node := nd\<rparr>)"
      by (intro wired_node inv(1) node_ok_manager [OF sync(6) node slice] chan_ok_manager [OF sync(6) chan]) simp_all
    then show ?thesis using sync(1) inv(2) by (auto elim: wired_cong simp: peers_follow_def)
  next
    case (event_panic m ms nd)
    then show ?thesis using panics [OF event_panic(4)] inv(2) by (auto elim: wired_cong simp: peers_follow_def)
  next
    case (sync_panic kvs nd)
    then show ?thesis using panics [OF sync_panic(6)] inv(2) by (auto elim: wired_cong simp: peers_follow_def)
  qed (use inv(2) in \<open>auto intro: wired_cong [OF inv(1)] simp: peers_follow_def\<close>)
  then show ?thesis
    using machines_follow_work [OF assms(2) inv(3)] manager_gone_step [OF disjI1 [OF assms(2)] inv(4)]
    by (simp add: node_inv_def)
qed

lemma registry_okD:
  "registry_ok env cl P st \<Longrightarrow> st k = Some v \<Longrightarrow> has_prefix (peers_prefix cl) k \<Longrightarrow>
     \<exists>q\<in>P. k = peer_key env cl q \<and> joins_as env cl q v"
  by (simp add: registry_ok_def)

text \<open>The range request of the convergence phase.\<close>

lemma range_answer_peers:
  assumes "parsers_ok env" and "registry_ok env cl P st" and "range_answer st (peers_prefix cl) kvs"
  shows "Malformed \<notin> set (map (decode_put env cl p) kvs)"
    and "list_all (good_change P p intact) (map (decode_put env cl p) kvs)"
    and "{q. \<exists>a. Join q a \<in> set (map (decode_put env cl p) kvs)} = registered env cl st - {p}"
proof -
  have entry: "\<exists>q\<in>P. \<exists>v. kv = (Some (peer_key env cl q), Some v) \<and> st (peer_key env cl q) = Some v \<and>
      (decode_put env cl p kv = Ignore \<and> q = p \<or> (\<exists>a. decode_put env cl p kv = Join q a) \<and> q \<noteq> p)"
    if "kv \<in> set kvs" for kv
  proof -
    from that assms(3) obtain k v where kv: "kv = (Some k, Some v)" "st k = Some v" "has_prefix (peers_prefix cl) k"
      by (auto simp: range_answer_def)
    with assms(2) obtain q where "q \<in> P" "k = peer_key env cl q" "joins_as env cl q v"
      by (auto simp: registry_ok_def)
    with kv decode_own_put [OF assms(1), of cl q "Some v"] show ?thesis
      by (cases "q = p") (auto simp: joins_as_def)
  qed
  show "Malformed \<notin> set (map (decode_put env cl p) kvs)"
    and "list_all (good_change P p intact) (map (decode_put env cl p) kvs)"
    using entry by (fastforce simp: list_all_iff)+
  have "\<exists>a. Join q a \<in> set (map (decode_put env cl p) kvs)" if q: "q \<in> registered env cl st" "q \<noteq> p" for q
  proof -
    from q(1) obtain v where v: "st (peer_key env cl q) = Some v" by (auto simp: registered_def)
    then have "(Some (peer_key env cl q), Some v) \<in> set kvs"
      using assms(3) by (auto simp: range_answer_def)
    from entry [OF this] this q(2) show ?thesis by (force simp: peer_key_inj [OF assms(1)])
  qed
  moreover have "q \<in> registered env cl st - {p}" if "Join q a \<in> set (map (decode_put env cl p) kvs)" for q a
    using that entry by (fastforce simp: registered_def)
  ultimately show "{q. \<exists>a. Join q a \<in> set (map (decode_put env cl p) kvs)} = registered env cl st - {p}"
    by blast
qed

lemma ctl_step_converged:
  assumes "ctl_step env (In_Peers (Inr kvs)) c = Some c'"
    and "cs = map (decode_put env (dp_cluster_id (ct_phases c)) (dp_local_peer_id (ct_phases c))) kvs"
    and "Malformed \<notin> set cs"
  shows "ct_pc c = At_Converge" "ct_pc c' = At_Enter"
    and "dp_known_peers (ct_phases c') = dp_known_peers (ct_phases c) \<union> {q. \<exists>a. Join q a \<in> set cs}"
    and "ct_converged c' \<longleftrightarrow> ct_converged c \<or> ct_convergence_tx c"
proof -
  have all: "wellformed cs = cs" using assms(3) by (simp only: takeWhile_eq_all_conv) blast
  from assms(1) show pc: "ct_pc c = At_Converge" by (simp split: if_splits)
  have conv: "converge env (Inr kvs) (ct_phases c) =
      ((notify_sharding env (fold admit cs (ct_phases c)))\<lparr>dp_readiness := True\<rparr>, Inr ())"
    using assms(3) by (simp only: converge_alt Let_def assms(2) [symmetric] all if_False)
  from assms(1) pc conv show "ct_pc c' = At_Enter"
    "dp_known_peers (ct_phases c') = dp_known_peers (ct_phases c) \<union> {q. \<exists>a. Join q a \<in> set cs}"
    "ct_converged c' \<longleftrightarrow> ct_converged c \<or> ct_convergence_tx c"
    by (auto simp: Let_def fold_admit_known split: if_splits)
qed

lemma ctl_step_quiet:
  assumes "ctl_step env i (cn_controller n) = Some c'" and "wired nm from_str cl P p n"
    and "input_changes env cl p i = []"
  shows "dp_known_peers (ct_phases c') = dp_known_peers (ct_phases (cn_controller n))"
  using ctl_step_lists [OF assms(1), of "\<lambda>K. K = dp_known_peers (ct_phases (cn_controller n))"]
    assms(3) wiredD(1,2,7) [OF assms(2)] by auto

lemma peers_follow_quiet:
  assumes "ctl_step env i (cn_controller n) = Some c'" and "wired nm from_str cl P p n"
    and "input_changes env cl p i = []" and "peers_follow env cl P p st n"
    and "cn_controller n' = c'" and "\<And>es. cn_peer_watch n' = Some es \<Longrightarrow> list_all (peer_event_ok env cl P) es"
    and "cn_peers_intact n' \<Longrightarrow> ct_pc c' \<notin> {At_Enter, At_Loop}"
    and "ct_pc c' \<in> {At_Initialize, At_Register, At_Converge} \<Longrightarrow>
      ct_pc (cn_controller n) \<in> {At_Initialize, At_Register, At_Converge}"
  shows "peers_follow env cl P p st n'"
  using assms(5-8) peers_followD(1) [OF assms(4)] ctl_step_quiet [OF assms(1-3)]
  by (intro peers_followI) auto

lemma wired_quiet:
  assumes "libraries_ok nm env P" and "wired nm from_str cl P p n"
    and "ctl_step env i (cn_controller n) = Some c'" and "input_changes env cl p i = []"
  shows "wired nm from_str cl P p (advance c' n)"
  using assms(1) by (intro wired_advance [OF assms(3,2)]) (simp_all add: assms(4) libraries_ok_def)

text \<open>The membership and the wiring, for the steps that touch them.\<close>

lemma peers_life_converge:
  assumes "libraries_ok nm env P" and "registry_ok env cl P st"
    and "wired nm from_str cl P p n" and "peers_follow env cl P p st n"
    and "range_answer st (peers_prefix cl) kvs" and "ctl_step env (In_Peers (Inr kvs)) (cn_controller n) = Some c'"
  shows "wired nm from_str cl P p (advance c' n) \<and> peers_follow env cl P p st (advance c' n)"
proof
  have lib: "parsers_ok env" "iteration_order (de_keys env)" using assms(1) by (simp_all add: libraries_ok_def)
  note cs = range_answer_peers [OF lib(1) assms(2,5), of p]
  note conv = ctl_step_converged [OF assms(6) refl, unfolded wiredD(1,2) [OF assms(3)], OF cs(1)]
  have known: "dp_known_peers (ct_phases c') = insert p (registered env cl st)"
    using conv(1,3) peers_followD(1) [OF assms(4)] cs(3) by auto
  show "wired nm from_str cl P p (advance c' n)"
    using cs(2) by (intro wired_advance [OF assms(6,3) lib(2)]) simp
  show "peers_follow env cl P p st (advance c' n)"
    using peers_followD(2) [OF assms(4)] conv(2) known by (intro peers_followI) auto
qed

lemma peers_life_enter:
  assumes "libraries_ok nm env P" and "wired nm from_str cl P p n" and "peers_follow env cl P p st n"
    and "ctl_step env (In_Watch_Open w) (cn_controller n) = Some c'"
    and "n' = (advance c' n)\<lparr>cn_peer_watch := (if w = Inr () then Some [] else None)\<rparr>"
  shows "wired nm from_str cl P p n' \<and> peers_follow env cl P p st n'"
proof
  have pc: "ct_pc (cn_controller n) = At_Enter" using assms(4) by (simp split: if_splits)
  have known: "dp_known_peers (ct_phases c') = insert p (registered env cl st)" if "cn_peers_intact n"
    using ctl_step_quiet [OF assms(4,2)] peers_followD(3) [OF assms(3) that pc] by simp
  have pc': "ct_pc c' \<notin> {At_Initialize, At_Register, At_Converge, At_Enter}" "ct_pc c' = At_Loop \<Longrightarrow> w = Inr ()"
    using assms(4) pc by (auto simp: enter_maintenance_def split: sum.splits)
  show "wired nm from_str cl P p n'"
    unfolding assms(5) by (rule wired_cong [OF wired_quiet [OF assms(1,2,4)]]) simp_all
  show "peers_follow env cl P p st n'"
    unfolding assms(5) using pc' known by (intro peers_followI) (auto split: if_splits)
qed

lemma peers_life_broken:
  assumes "libraries_ok nm env P" and "wired nm from_str cl P p n" and "peers_follow env cl P p st n"
    and "(\<exists>e. msg = Watch_Error e) \<or> (\<exists>es. msg = Watch_Response True es) \<or> msg = Watch_End"
    and "ctl_step env (In_Watch msg r) (cn_controller n) = Some c'" and "w = None \<or> w = Some []"
    and "n' = (advance c' n)\<lparr>cn_peer_watch := w, cn_peers_intact := False\<rparr>"
  shows "wired nm from_str cl P p n' \<and> peers_follow env cl P p st n'"
proof
  have no: "input_changes env cl p (In_Watch msg r) = []" using assms(4) by auto
  have "ct_pc (cn_controller n) = At_Loop" using assms(5) by (simp split: if_splits)
  then have pc: "ct_pc c' \<notin> {At_Initialize, At_Register, At_Converge}"
    using assms(5) by (auto split: sum.splits prod.splits)
  show "wired nm from_str cl P p n'"
    unfolding assms(7) by (rule wired_cong [OF wired_quiet [OF assms(1,2,5) no]]) simp_all
  show "peers_follow env cl P p st n'"
    unfolding assms(7) using assms(6) pc by (intro peers_follow_quiet [OF assms(5,2) no assms(3)]) auto
qed

lemma wired_manager:
  assumes "libraries_ok nm env P" and "wired nm from_str cl P p n"
    and "manager_does nm from_str msg (cn_node n) nd" and "msg \<noteq> Rebalance_Actors"
  shows "wired nm from_str cl P p (n\<lparr>cn_node := nd\<rparr>)"
proof -
  have slice: "\<And>p. p \<in> P \<Longrightarrow> sliceable nm p" using assms(1) by (simp add: libraries_ok_def)
  show ?thesis
    using assms(4) by (intro wired_node assms(2) node_ok_manager [OF assms(3) wiredD(5) [OF assms(2)] slice]
        chan_ok_manager [OF assms(3) wiredD(4) [OF assms(2)]]) simp_all
qed

lemma node_inv_life:
  assumes "libraries_ok nm env P" and "registry_ok env cl P st" and "life_step nm from_str env st n n'"
    and "node_inv nm from_str env cl P st p n"
  shows "node_inv nm from_str env cl P st p n'"
proof -
  have inv: "wired nm from_str cl P p n" "peers_follow env cl P p st n" "machines_follow st n"
    "\<not> cn_manager_up n \<longrightarrow> manager_empty (cn_node n)"
    using assms(4) by (simp_all add: node_inv_def)
  note events = peers_followD(2) [OF inv(2)] and quiet = wired_quiet [OF assms(1) inv(1)]
  have "wired nm from_str cl P p n' \<and> peers_follow env cl P p st n'"
    using assms(3)
  proof (cases rule: life_step.cases)
    case (initialize s c')
    then show ?thesis
      by (intro conjI peers_follow_quiet [OF initialize(2) inv(1) _ inv(2)])
        (use quiet [OF initialize(2)] events in \<open>auto simp: initialize_phase_def Let_def split: if_splits sum.splits\<close>)
  next
    case (register_failed g ka put c' e)
    then show ?thesis
      by (intro conjI peers_follow_quiet [OF register_failed(2) inv(1) _ inv(2)])
        (use quiet [OF register_failed(2)] events in auto)
  next
    case (converge kvs c')
    then show ?thesis
      using peers_life_converge [OF assms(1,2) inv(1,2) _ converge(3)] wiredD(1) [OF inv(1)] by simp
  next
    case (converge_failed e c')
    then show ?thesis
      by (intro conjI peers_follow_quiet [OF converge_failed(2) inv(1) _ inv(2)])
        (use quiet [OF converge_failed(2)] events in \<open>auto simp: converge_def split: if_splits\<close>)
  next
    case (enter w c')
    show ?thesis by (rule peers_life_enter [OF assms(1) inv(1,2) enter(2,1)])
  next
    case (peers_broken msg r c')
    then show ?thesis by (intro peers_life_broken [OF assms(1) inv(1,2) _ peers_broken(3) _ peers_broken(1)]) auto
  next
    case (peers_ended r c')
    then show ?thesis by (intro peers_life_broken [OF assms(1) inv(1,2) _ peers_ended(2) _ peers_ended(1)]) auto
  next
    case (shutdown i rv c')
    have no: "input_changes env cl p i = []" using shutdown(2) by auto
    have "\<exists>r. ct_pc c' = Returned r" using shutdown(2,3) by (auto split: if_splits sum.splits prod.splits)
    then show ?thesis
      unfolding shutdown(1)
      by (intro conjI quiet [OF shutdown(3) no] peers_follow_quiet [OF shutdown(3) inv(1) no inv(2)])
        (use events in auto)
  next
    case (sync_failed e nd)
    then show ?thesis
      using wired_manager [OF assms(1) inv(1) sync_failed(5)] inv(2) by (auto elim: wired_cong simp: peers_follow_def)
  next
    case (query nd)
    then show ?thesis using wired_manager [OF assms(1) inv(1) query(3)] inv(2) by (simp add: peers_follow_def)
  qed (use inv(2) in \<open>auto intro: wired_cong [OF inv(1)] simp: peers_follow_def\<close>)
  then show ?thesis
    using machines_follow_life [OF assms(3) inv(3)] manager_gone_step [OF disjI2 [OF assms(3)] inv(4)]
    by (simp add: node_inv_def)
qed

section \<open>The cluster\<close>

definition cluster_inv ::
  "'p naming \<Rightarrow> spec_parser \<Rightarrow> ('p, 'a) disc_env \<Rightarrow> string \<Rightarrow> 'p set \<Rightarrow> ('p, 'a) cluster \<Rightarrow> bool" where
  "cluster_inv nm from_str env cl P c \<longleftrightarrow>
     registry_ok env cl P (cl_store c) \<and> finite (dom (cl_store c)) \<and>
     (\<forall>p\<in>P. node_inv nm from_str env cl P (cl_store c) p (cl_nodes c p))"

lemma manager_up_init [simp]: "cn_manager_up (cnode_init nm cl cfg p a name)"
  by (simp add: cnode_init_def)

lemma cluster_inv_init: "cluster_inv nm from_str env cl P (cluster_init nm cl cfg addr name)"
  by (simp add: cluster_inv_def cluster_init_def registry_ok_def node_inv_def wired_init peers_follow_init
      machines_follow_init)

lemma registered_entry:
  assumes "ctl_step env (In_Register g ka put) (cn_controller n) = Some c'" and "ct_pc c' = At_Converge"
    and "ct_registered c' = Some (key, v)" and "parsers_ok env" and "wired nm from_str cl P p n"
  shows "key = peer_key env cl p" and "joins_as env cl p v" and "ct_pc (cn_controller n) = At_Register"
proof -
  from assms(1-3) obtain lease where
    reg: "register_phase env g ka put (ct_phases (cn_controller n)) = Inr (lease, key, v)"
    and "ct_pc (cn_controller n) = At_Register"
    by (auto split: if_splits sum.splits prod.splits)
  then show "ct_pc (cn_controller n) = At_Register" by simp
  show key: "key = peer_key env cl p"
    using reg wiredD(1,2) [OF assms(5)] by (auto simp: register_phase_def Let_def split: sum.splits)
  show "joins_as env cl p v"
    using decode_registered [OF assms(4) reg] wiredD(1,2) [OF assms(5)] key
    by (auto simp: joins_as_def)
qed

lemma cluster_inv_change:
  assumes "libraries_ok nm env P" and "cluster_inv nm from_str env cl P c"
    and "has_prefix (peers_prefix cl) key \<Longrightarrow>
      \<exists>q\<in>P. key = peer_key env cl q \<and> (\<forall>w. v = Some w \<longrightarrow> joins_as env cl q w)"
  shows "cluster_inv nm from_str env cl P (etcd_change env key v c)"
proof -
  have "registry_ok env cl P ((cl_store c)(key := v))"
    using assms(2,3) by (auto simp: cluster_inv_def registry_ok_def)
  moreover have "finite (dom ((cl_store c)(key := v)))" using assms(2) by (simp add: cluster_inv_def)
  moreover have "node_inv nm from_str env cl P ((cl_store c)(key := v)) p (observe env key v (cl_nodes c p))"
    if "p \<in> P" for p
    using node_inv_observe [OF assms(1) _ assms(3)] assms(2) that by (simp add: cluster_inv_def)
  ultimately show ?thesis by (simp add: cluster_inv_def etcd_change_def)
qed

lemma cluster_inv_node:
  assumes "cluster_inv nm from_str env cl P c" and "node_inv nm from_str env cl P (cl_store c) p n"
  shows "cluster_inv nm from_str env cl P (update_node p n c)"
  using assms by (simp add: cluster_inv_def update_node_def)

lemma cluster_inv_step:
  assumes "libraries_ok nm env P" and "cluster_step nm from_str env cl P c c'"
    and "cluster_inv nm from_str env cl P c"
  shows "cluster_inv nm from_str env cl P c'"
  using assms(2)
proof (cases rule: cluster_step.cases)
  case (register p g ka put c1 key v)
  let ?n = "cl_nodes c p"
  have lib: "parsers_ok env" "iteration_order (de_keys env)" using assms(1) by (simp_all add: libraries_ok_def)
  have inv: "wired nm from_str cl P p ?n" "peers_follow env cl P p (cl_store c) ?n" "machines_follow (cl_store c) ?n"
    "\<not> cn_manager_up ?n \<longrightarrow> manager_empty (cn_node ?n)"
    using assms(3) register(2) by (simp_all add: cluster_inv_def node_inv_def)
  note entry = registered_entry [OF register(3-5) lib(1) inv(1)]
  have "wired nm from_str cl P p (advance c1 ?n)"
    by (rule wired_advance [OF register(3) inv(1) lib(2)]) simp
  moreover have "peers_follow env cl P p (cl_store c) (advance c1 ?n)"
    by (rule peers_follow_quiet [OF register(3) inv(1) _ inv(2)])
      (use register(4) entry(3) peers_followD(2) [OF inv(2)] in auto)
  moreover have "machines_follow (cl_store c) (advance c1 ?n)" by (rule machines_follow_advance [OF inv(3)])
  ultimately have "cluster_inv nm from_str env cl P (update_node p (advance c1 ?n) c)"
    using inv(4) by (intro cluster_inv_node assms(3)) (simp add: node_inv_def)
  from cluster_inv_change [OF assms(1) this] entry(1,2) register(1,2) show ?thesis by blast
next
  case (expire q)
  then obtain v where v: "cl_store c (peer_key env cl q) = Some v" by auto
  have "registry_ok env cl P (cl_store c)" using assms(3) by (simp add: cluster_inv_def)
  from registry_okD [OF this v peer_key_prefix]
  obtain q' where "q' \<in> P" "peer_key env cl q = peer_key env cl q'" by blast
  then have "cluster_inv nm from_str env cl P (etcd_change env (peer_key env cl q) None c)"
    by (intro cluster_inv_change [OF assms(1,3)]) blast
  with expire(1) show ?thesis by simp
next
  case (machine v i)
  show ?thesis unfolding machine(1)
    by (rule cluster_inv_change [OF assms(1,3)]) (simp only: machine_key_not_peer)
next
  case (other key v)
  show ?thesis unfolding other(1)
    by (rule cluster_inv_change [OF assms(1,3)]) (use other(2) in simp)
next
  case (work p n')
  with assms(3) node_inv_work [OF assms(1) work(3)] show ?thesis
    by (auto intro!: cluster_inv_node simp: cluster_inv_def [of _ _ _ _ _ c])
next
  case (life p n')
  with assms(3) node_inv_life [OF assms(1) _ life(3)] show ?thesis
    by (auto intro!: cluster_inv_node simp: cluster_inv_def [of _ _ _ _ _ c])
qed

lemma cluster_reach_inv:
  "cluster_reach nm from_str env cl P (cluster_init nm cl cfg addr name) c \<Longrightarrow> libraries_ok nm env P \<Longrightarrow>
     cluster_inv nm from_str env cl P c"
  by (induction rule: cluster_reach.induct) (auto intro: cluster_inv_init cluster_inv_step)

text \<open>A manager keeps the identity it was created with.\<close>

lemma put_local_id: "handle_machine_put env i j m = Inr m' \<Longrightarrow> mg_local_peer_id m' = mg_local_peer_id m"
  by (auto simp: handle_machine_put_def Let_def and_then_eq_Inr split: option.splits if_splits)

lemma puts_local_id: "handle_puts env ps m = Inr m' \<Longrightarrow> mg_local_peer_id m' = mg_local_peer_id m"
  by (induction env ps m rule: handle_puts.induct) (auto simp: and_then_eq_Inr dest: put_local_id)

lemma statuses_local_id: "mg_local_peer_id (fst (collect_statuses env ids m)) = mg_local_peer_id m"
proof (induction ids arbitrary: m)
  case (Cons i ids)
  then show ?case by (auto simp: Let_def case_prod_beta split: option.split)
qed simp

lemma manager_does_local_id:
  assumes "manager_does nm from_str msg nd nd'"
  shows "mg_local_peer_id (nd_manager nd') = mg_local_peer_id (nd_manager nd)"
proof -
  from assms obtain k env m' where h: "mgr_handle msg env (nd_manager nd) = Inr m'"
    and nd': "nd' = (bridge_step nm ^^ k) (nd\<lparr>nd_manager := m'\<rparr>)" by (auto simp: manager_does_def)
  have "mg_local_peer_id m' = mg_local_peer_id (nd_manager nd)"
  proof (cases msg)
    case (Etcd_Event e)
    with h show ?thesis
      by (auto simp: handle_etcd_machine_event_def handle_machine_delete_alt dest: put_local_id
          split: etcd_event_type.splits option.splits)
  next
    case (Sync_All_Machines resp)
    with h show ?thesis
      by (auto simp: handle_sync_all_machines_def sync_all_machines_def and_then_eq_Inr dest: puts_local_id
          split: sum.splits)
  qed (use h in \<open>auto simp: rebalance_actors_frame handle_get_all_machine_statuses_def statuses_local_id\<close>)
  with nd' show ?thesis by (simp add: bridge_steps)
qed

lemma node_local_id:
  "work_step nm from_str env st n n' \<or> life_step nm from_str env st n n' \<Longrightarrow>
     mg_local_peer_id (nd_manager (cn_node n')) = mg_local_peer_id (nd_manager (cn_node n))"
  by (elim disjE work_step.cases life_step.cases) (auto dest: manager_does_local_id manager_panicked(3))

lemma cluster_reach_local_id:
  "cluster_reach nm from_str env cl P (cluster_init nm cl cfg addr name) c \<Longrightarrow>
     mg_local_peer_id (nd_manager (cn_node (cl_nodes c q))) = q"
proof (induction rule: cluster_reach.induct)
  case start
  then show ?case by (simp add: cluster_init_def cnode_init_def node_init_def manager_new_def)
next
  case (step c c')
  from step(2,3) show ?case
    by (cases rule: cluster_step.cases)
      (auto simp: etcd_change_def update_node_def dest: node_local_id [OF disjI1] node_local_id [OF disjI2])
qed

end
