(* ===== verification/Cluster_Convergence.thy ===== *)
theory Cluster_Convergence
  imports Cluster_Invariant
begin

text \<open>
  Convergence of the cluster: once the environment is quiet, the nodes work off what is pending in a
  bounded number of steps, never get stuck before, and end with exactly one actor for every machine in
  etcd.
\<close>

section \<open>Quiescent nodes\<close>

definition quiescent :: "('p, 'a) cnode \<Rightarrow> bool" where
  "quiescent n \<longleftrightarrow>
     cn_peer_watch n = Some [] \<and> nd_sharding_rx (cn_node n) = [] \<and> nd_topology_rx (cn_node n) = 0 \<and>
     cn_machine_watch n = Some [] \<and> cn_mailbox n = [] \<and> \<not> cn_sync_pending n"

text \<open>
  A node in the loop of its controller whose watches have been complete, and whose initial sync has
  succeeded or is still to come.
\<close>

definition healthy :: "('p, 'a) cnode \<Rightarrow> bool" where
  "healthy n \<longleftrightarrow>
     ct_pc (cn_controller n) = At_Loop \<and> ct_converged (cn_controller n) \<and>
     cn_peers_intact n \<and> cn_machines_intact n \<and> cn_machine_watch n \<noteq> None \<and>
     (cn_loaded n \<or> cn_sync_pending n)"

lemma quiescent_view:
  assumes "node_inv nm from_str env cl P st p n" and "healthy n" and "quiescent n"
  shows "\<exists>peers. nd_coordinator (cn_node n) = sharding_new nm p peers \<and>
    set peers = insert p (registered env cl st) \<and> set peers \<subseteq> P"
proof -
  let ?c = "cn_controller n"
  have inv: "wired nm from_str cl P p n" "peers_follow env cl P p st n"
    using assms(1) by (simp_all add: node_inv_def)
  have st: "cn_peers_intact n" "ct_pc ?c = At_Loop" "cn_peer_watch n = Some []"
    using assms(2,3) by (simp_all add: healthy_def quiescent_def)
  have known: "dp_known_peers (ct_phases ?c) = insert p (registered env cl st)"
    using peers_followD(4) [OF inv(2) st(1,2)] st(3) by simp
  have "sharding_synced (ct_phases ?c)" "sharding_notified (ct_phases ?c)" "channel_up (ct_phases ?c)"
    using wiredD(6,7) [OF inv(1)] assms(2) by (auto simp: ctl_ok_def healthy_def)
  then have "sent_lists ?c \<noteq> [] \<and> set (last (sent_lists ?c)) = dp_known_peers (ct_phases ?c)"
    by (cases "dp_sharding_tx (ct_phases ?c)")
      (simp_all add: sharding_synced_def sharding_notified_def channel_up_def sent_lists_def)
  then have sent: "sent_lists ?c \<noteq> []" "set (last (sent_lists ?c)) = insert p (registered env cl st)"
    unfolding known by simp_all
  then have "nd_coordinator (cn_node n) = sharding_new nm p (last (sent_lists ?c))"
    using wiredD(4) [OF inv(1)] assms(3) by (auto simp: chan_ok_def quiescent_def)
  moreover have "insert p (registered env cl st) \<subseteq> P"
    using wiredD(3) [OF inv(1)] known by (simp add: good_peers_def)
  ultimately show ?thesis using sent by blast
qed

lemma quiescent_cache:
  assumes "machines_follow st n" and "healthy n" and "quiescent n"
  shows "specs_of (cn_node n) = (\<lambda>i. st (MACHINES_PREFIX @ i))"
  using assms
  by (auto simp: machines_follow_def healthy_def quiescent_def pending_events_def map_filter_simps fun_eq_iff)

lemma quiescent_node_actors:
  assumes "libraries_ok nm env P" and "node_inv nm from_str env cl P st p n" and "healthy n" and "quiescent n"
    and "distinct_names nm P" and "set view = insert p (registered env cl st)"
    and "\<And>i j. st (MACHINES_PREFIX @ i) = Some j \<Longrightarrow> spec_ok from_str j"
  shows "mg_actors (nd_manager (cn_node n)) i \<noteq> None \<longleftrightarrow>
    st (MACHINES_PREFIX @ i) \<noteq> None \<and> hrw_owner nm view i = Some p"
proof -
  have slice: "\<And>p. p \<in> P \<Longrightarrow> sliceable nm p" using assms(1) by (simp add: libraries_ok_def)
  have inv: "wired nm from_str cl P p n" "machines_follow st n" using assms(2) by (simp_all add: node_inv_def)
  obtain peers where peers: "nd_coordinator (cn_node n) = sharding_new nm p peers"
    "set peers = insert p (registered env cl st)" "set peers \<subseteq> P"
    using quiescent_view [OF assms(2-4)] by blast
  have "distinct_names nm (set peers)"
    using assms(5) peers(3) unfolding distinct_names_def by (rule inj_on_subset)
  then have "hrw_owner nm peers i = hrw_owner nm view i"
    by (rule hrw.owner_set_determined) (simp add: peers(2) assms(6))
  moreover note quiescent_actors [OF wiredD(5) [OF inv(1)] slice _ peers(1,3), of i]
  moreover have "dom (mg_actors (nd_manager (cn_node n))) \<subseteq> dom (specs_of (cn_node n))"
    using wiredD(5) [OF inv(1)] by (simp add: node_ok_def mgr_ok_def)
  ultimately show ?thesis
    using quiescent_cache [OF inv(2) assms(3,4)] assms(4,7) by (auto simp: quiescent_def dom_def)
qed

section \<open>Bounded work\<close>

definition node_work :: "('p, 'a) cnode \<Rightarrow> nat" where
  "node_work n =
     3 * length (case cn_peer_watch n of Some es \<Rightarrow> es | None \<Rightarrow> []) +
     2 * length (nd_sharding_rx (cn_node n)) + nd_topology_rx (cn_node n) +
     2 * length (case cn_machine_watch n of Some es \<Rightarrow> es | None \<Rightarrow> []) + length (cn_mailbox n) +
     (if cn_sync_pending n then 1 else 0)"

lemma bridge_step_work:
  "nd_sharding_rx nd \<noteq> [] \<Longrightarrow>
     2 * length (nd_sharding_rx (bridge_step nm nd)) + nd_topology_rx (bridge_step nm nd) <
     2 * length (nd_sharding_rx nd) + nd_topology_rx nd"
  by (auto simp: bridge_step_def neq_Nil_conv)

lemma bridge_steps_work:
  "2 * length (nd_sharding_rx ((bridge_step nm ^^ k) n)) + nd_topology_rx ((bridge_step nm ^^ k) n) \<le>
     2 * length (nd_sharding_rx n) + nd_topology_rx n"
proof (induction k)
  case (Suc k)
  have "2 * length (nd_sharding_rx (bridge_step nm m)) + nd_topology_rx (bridge_step nm m) \<le>
      2 * length (nd_sharding_rx m) + nd_topology_rx m" for m
    using bridge_step_work [of m nm] by (cases "nd_sharding_rx m = []") (simp_all add: bridge_step_def)
  from this [of "(bridge_step nm ^^ k) n"] Suc show ?case by simp
qed simp

lemma manager_does_work:
  assumes "manager_does nm from_str msg nd nd' \<or> manager_panics nm from_str msg nd nd'"
  shows "2 * length (nd_sharding_rx nd') + nd_topology_rx nd' \<le>
    2 * length (nd_sharding_rx nd) + nd_topology_rx nd"
  using bridge_steps_work [where nm = nm and n = "nd\<lparr>nd_manager := m\<rparr>" for m] assms
  by (auto simp: manager_does_def manager_panics_def)

lemma changes_tx_length:
  "length (tx_of (fold (apply_change env) cs s)) \<le> length (tx_of s) + length cs"
proof (induction cs arbitrary: s)
  case Nil
  then show ?case by simp
next
  case (Cons c cs)
  have "length (tx_of (notify_sharding env t)) \<le> length (tx_of t) + 1" for t :: "('a, 'b) phases"
    by (auto simp: tx_of_def notify_sharding_def Let_def split: option.split)
  moreover have "tx_of ((send_swarm cmd s)\<lparr>dp_known_peers := K\<rparr>) = tx_of s" for cmd K
    by (simp add: tx_of_def)
  ultimately have "length (tx_of (apply_change env c s)) \<le> length (tx_of s) + 1"
    by (cases c) (simp_all, metis+)
  with Cons [of "apply_change env c s"] show ?case by (simp del: fold_apply_change)
qed

lemma events_sent_length:
  assumes "ctl_step env (In_Watch (Watch_Response False es) r) c = Some c'"
  shows "length (sent_lists c') \<le> length (sent_lists c) + length es"
proof -
  let ?cs = "wellformed (map (decode_event env (dp_cluster_id (ct_phases c)) (dp_local_peer_id (ct_phases c))) es)"
  have "ct_phases c' = fold (apply_change env) ?cs (ct_phases c)"
    using assms by (auto simp: process_events_alt Let_def simp del: fold_apply_change split: if_splits sum.splits)
  moreover have "length ?cs \<le> length es" by (metis length_map length_takeWhile_le)
  ultimately show ?thesis
    using changes_tx_length [of env ?cs "ct_phases c"] by (simp add: sent_lists_tx del: fold_apply_change)
qed

lemma work_step_decreases: "work_step nm from_str env st n n' \<Longrightarrow> node_work n' < node_work n"
proof (induction rule: work_step.induct)
  case (peer_events n es rest r c')
  have "length (nd_sharding_rx (cn_node (advance c' n))) \<le> length (nd_sharding_rx (cn_node n)) + length es"
    using events_sent_length [OF peer_events(3)] by (simp add: advance_def)
  moreover have "0 < length es" using peer_events(2) by simp
  ultimately have "2 * length (nd_sharding_rx (cn_node (advance c' n))) <
      3 * length es + 2 * length (nd_sharding_rx (cn_node n))" by linarith
  then show ?case using peer_events(1) by (simp add: node_work_def)
next
  case (bridge n)
  then show ?case using bridge_step_work [of "cn_node n" nm] by (simp add: node_work_def)
next
  case (rebalance n nd)
  then show ?case using manager_does_work [OF disjI1 [OF rebalance(3)]] by (simp add: node_work_def)
next
  case (forward n e es)
  then show ?case by (simp add: node_work_def split: option.split)
next
  case (event n m ms nd)
  then show ?case using manager_does_work [OF disjI1 [OF event(3)]] by (simp add: node_work_def)
next
  case (sync n kvs nd)
  then show ?case using manager_does_work [OF disjI1 [OF sync(5)]] by (simp add: node_work_def)
next
  case (event_panic n m ms nd)
  then show ?case using manager_does_work [OF disjI2 [OF event_panic(3)]] by (simp add: node_work_def)
next
  case (sync_panic n kvs nd)
  then show ?case using manager_does_work [OF disjI2 [OF sync_panic(5)]] by (simp add: node_work_def)
qed (simp_all add: node_work_def)

section \<open>Progress\<close>

text \<open>The environment of a handler that no bridge step overtakes.\<close>

definition calm_env :: "'p naming \<Rightarrow> spec_parser \<Rightarrow> 'p node \<Rightarrow> 'p mgr_env" where
  "calm_env nm from_str nd =
     \<lparr>me_naming = nm, me_from_str = from_str, me_ask_sharding = ask_coordinator nm (nd_coordinator nd),
      me_ask_actor = (\<lambda>_. True), me_clock = (\<lambda>_. 0), me_keys = sorted_list_of_set\<rparr>"

lemma calm_handler_env: "handler_env nm from_str 0 nd (calm_env nm from_str nd)"
  by (simp add: handler_env_def calm_env_def iteration_order_sorted)

lemma manager_can:
  assumes "mgr_handle msg (calm_env nm from_str nd) (nd_manager nd) = Inr m'"
  shows "manager_does nm from_str msg nd (nd\<lparr>nd_manager := m'\<rparr>)"
  unfolding manager_does_def
  using assms calm_handler_env by (intro exI [of _ 0] exI [of _ "calm_env nm from_str nd"] exI [of _ m']) simp

text \<open>
  Answers from tables that are not empty, at most a different table for each machine. With such answers
  no handler of the manager panics.
\<close>

definition answered :: "'p naming \<Rightarrow> 'p set \<Rightarrow> 'p \<Rightarrow> 'p mgr_env \<Rightarrow> bool" where
  "answered nm P p env \<longleftrightarrow>
     me_naming env = nm \<and>
     (\<forall>i. \<exists>peers. set peers \<subseteq> P \<and> peers \<noteq> [] \<and>
        me_ask_sharding env i = ask_coordinator nm (sharding_new nm p peers) i)"

lemma put_returns:
  assumes "\<And>p. p \<in> P \<Longrightarrow> sliceable nm p" and "answered nm P p env" and "mg_local_peer_id m \<in> P"
  shows "\<exists>m'. handle_machine_put env i j m = Inr m'"
proof -
  obtain peers where peers: "set peers \<subseteq> P" "peers \<noteq> []"
    "me_ask_sharding env i = ask_coordinator nm (sharding_new nm p peers) i" and nm: "me_naming env = nm"
    using assms(2) by (auto simp: answered_def)
  obtain q where q: "hrw_owner nm peers i = Some q" using hrw.owner_exists [OF peers(2)] by blast
  then have "q \<in> P" using hrw_owner_in peers(1) by fastforce
  then have "\<exists>s. slice_from (nm_to_base58 nm q) 46 = Inr s"
    "\<exists>s. slice_from (nm_to_base58 nm (mg_local_peer_id m)) 46 = Inr s"
    using assms(1) [OF \<open>q \<in> P\<close>] assms(1) [OF assms(3)] by (simp_all add: sliceable_def slice_from_def)
  then show ?thesis
    using ask_coordinator_new [OF assms(1) peers(1), of p i] q
    by (auto simp: handle_machine_put_def peers(3) nm Let_def split: option.split)
qed

lemma puts_return:
  assumes "\<And>p. p \<in> P \<Longrightarrow> sliceable nm p" and "answered nm P p env"
  shows "mg_local_peer_id m \<in> P \<Longrightarrow> \<exists>m'. handle_puts env ps m = Inr m'"
proof (induction ps arbitrary: m)
  case (Cons ij ps)
  obtain i j where ij: "ij = (i, j)" by (cases ij)
  obtain m1 where m1: "handle_machine_put env i j m = Inr m1"
    using put_returns [OF assms Cons.prems] by blast
  have "mg_local_peer_id m1 \<in> P" using put_local_id [OF m1] Cons.prems by simp
  from Cons.IH [OF this] m1 ij show ?case by simp
qed simp

lemma range_answer_exists:
  assumes "finite (dom st)"
  shows "\<exists>kvs. range_answer st pre kvs"
proof -
  let ?A = "{(Some k, Some v) | k v. st k = Some v \<and> has_prefix pre k}"
  have "?A \<subseteq> (\<lambda>k. (Some k, st k)) ` dom st" by force
  then have "finite ?A" using assms finite_surj by blast
  then show ?thesis unfolding range_answer_def by (rule finite_distinct_list)
qed

lemma chan_table:
  assumes "chan_ok nm p tx nd" and "\<And>l. l \<in> set tx \<Longrightarrow> good_peers P p True (set l)" and "p \<in> P"
  shows "\<exists>peers. nd_coordinator nd = sharding_new nm p peers \<and> set peers \<subseteq> P \<and> peers \<noteq> []"
proof -
  obtain taken where t: "tx = taken @ nd_sharding_rx nd" "nd_coordinator nd = sharding_new nm p (last ([p] # taken))"
    using assms(1) by (auto simp: chan_ok_def)
  have "good_peers P p True (set (last ([p] # taken)))"
    using assms(2) [of "last taken"] assms(3) last_in_set [of taken] t(1)
    by (cases "taken = []") (simp_all add: good_peers_def)
  then have "set (last ([p] # taken)) \<subseteq> P" "last ([p] # taken) \<noteq> []"
    unfolding good_peers_def by (blast, metis empty_iff list.set(1))
  with t(2) show ?thesis by blast
qed

text \<open>The tables of a node with an intact membership, as the bridge task goes on.\<close>

lemma table_known:
  assumes "wired nm from_str cl P p n" and "cn_peers_intact n" and "p \<in> P"
  shows "\<exists>peers. nd_coordinator ((bridge_step nm ^^ j) (cn_node n)) = sharding_new nm p peers \<and>
    set peers \<subseteq> P \<and> peers \<noteq> []"
proof -
  have "chan_ok nm p (sent_lists (cn_controller n)) ((bridge_step nm ^^ j) (cn_node n))"
    using chan_ok_bridges [OF wiredD(4) [OF assms(1)], of j "nd_manager (cn_node n)"] by simp
  from chan_table [OF this _ assms(3)] wiredD(8) [OF assms(1)] assms(2) show ?thesis by simp
qed

lemma calm_answered:
  assumes "wired nm from_str cl P p n" and "cn_peers_intact n" and "p \<in> P"
  shows "answered nm P p (calm_env nm from_str (cn_node n))"
  using table_known [OF assms, of 0] by (auto simp: answered_def calm_env_def)

lemma answered_returns:
  assumes "\<And>p. p \<in> P \<Longrightarrow> sliceable nm p" and "answered nm P p env" and "mg_local_peer_id m \<in> P"
  shows "\<exists>m'. mgr_handle (Etcd_Event e) env m = Inr m'"
    and "range_answer st MACHINES_PREFIX kvs \<Longrightarrow> \<exists>m'. mgr_handle (Sync_All_Machines (Inr kvs)) env m = Inr m'"
proof -
  show "\<exists>m'. mgr_handle (Etcd_Event e) env m = Inr m'"
    using put_returns [OF assms]
    by (cases "ee_event_type e"; cases "ee_spec_json e") (auto simp: handle_etcd_machine_event_def)
  assume "range_answer st MACHINES_PREFIX kvs"
  then obtain ps where "collect_machines kvs = Inr ps" by (rule range_answer_machines)
  with puts_return [OF assms, of ps] show "\<exists>m'. mgr_handle (Sync_All_Machines (Inr kvs)) env m = Inr m'"
    by (auto simp: handle_sync_all_machines_def sync_all_machines_def)
qed

lemma healthy_no_panic:
  assumes "libraries_ok nm env P" and "wired nm from_str cl P p n" and "cn_peers_intact n" and "p \<in> P"
    and "mg_local_peer_id (nd_manager (cn_node n)) = p"
  shows "\<not> manager_panics nm from_str (Etcd_Event e) (cn_node n) nd"
    and "range_answer st MACHINES_PREFIX kvs \<Longrightarrow>
      \<not> manager_panics nm from_str (Sync_All_Machines (Inr kvs)) (cn_node n) nd"
proof -
  have slice: "\<And>p. p \<in> P \<Longrightarrow> sliceable nm p" using assms(1) by (simp add: libraries_ok_def)
  have ans: "answered nm P p e" if naming: "me_naming e = nm" and tables: "\<forall>i. \<exists>j\<le>k. me_ask_sharding e i =
      ask_coordinator nm (nd_coordinator ((bridge_step nm ^^ j) (cn_node n))) i" for e k
    unfolding answered_def
  proof (intro conjI allI)
    fix i
    obtain j where "me_ask_sharding e i = ask_coordinator nm (nd_coordinator ((bridge_step nm ^^ j) (cn_node n))) i"
      using tables by blast
    with table_known [OF assms(2-4), of j]
    show "\<exists>peers. set peers \<subseteq> P \<and> peers \<noteq> [] \<and>
        me_ask_sharding e i = ask_coordinator nm (sharding_new nm p peers) i" by metis
  qed (rule naming)
  have id: "mg_local_peer_id (nd_manager (cn_node n)) \<in> P" using assms(4,5) by simp
  show "\<not> manager_panics nm from_str (Etcd_Event e) (cn_node n) nd"
  proof
    assume "manager_panics nm from_str (Etcd_Event e) (cn_node n) nd"
    then obtain k me x where "me_naming me = nm" "\<forall>i. \<exists>j\<le>k. me_ask_sharding me i =
        ask_coordinator nm (nd_coordinator ((bridge_step nm ^^ j) (cn_node n))) i"
      "mgr_handle (Etcd_Event e) me (nd_manager (cn_node n)) = Inl x" unfolding manager_panics_def by blast
    with answered_returns(1) [OF slice ans id] show False by (metis sum.distinct(1))
  qed
  assume kvs: "range_answer st MACHINES_PREFIX kvs"
  show "\<not> manager_panics nm from_str (Sync_All_Machines (Inr kvs)) (cn_node n) nd"
  proof
    assume "manager_panics nm from_str (Sync_All_Machines (Inr kvs)) (cn_node n) nd"
    then obtain k me x where "me_naming me = nm" "\<forall>i. \<exists>j\<le>k. me_ask_sharding me i =
        ask_coordinator nm (nd_coordinator ((bridge_step nm ^^ j) (cn_node n))) i"
      "mgr_handle (Sync_All_Machines (Inr kvs)) me (nd_manager (cn_node n)) = Inl x"
      unfolding manager_panics_def by blast
    with answered_returns(2) [OF slice ans id kvs] show False by (metis sum.distinct(1))
  qed
qed

lemma loop_takes_events:
  assumes "ct_pc c = At_Loop"
  shows "\<exists>c'. ctl_step env (In_Watch (Watch_Response False es) (Inr ())) c = Some c'"
  using assms by (cases "process_watch_event env (Watch_Response False es) (ct_phases c)";
      cases "snd (process_watch_event env (Watch_Response False es) (ct_phases c))")
    (auto simp: enter_maintenance_def simp del: process_watch_event.simps)

lemma healthy_progress:
  assumes "libraries_ok nm env P" and "node_inv nm from_str env cl P st p n" and "finite (dom st)"
    and "p \<in> P" and "mg_local_peer_id (nd_manager (cn_node n)) = p" and "healthy n" and "\<not> quiescent n"
  shows "\<exists>n'. work_step nm from_str env st n n'"
proof -
  let ?nd = "cn_node n"
  have inv: "wired nm from_str cl P p n" "peers_follow env cl P p st n"
    using assms(2) by (simp_all add: node_inv_def)
  have slice: "\<And>p. p \<in> P \<Longrightarrow> sliceable nm p" using assms(1) by (simp add: libraries_ok_def)
  have h: "ct_pc (cn_controller n) = At_Loop" "ct_converged (cn_controller n)" "cn_peers_intact n"
    "cn_machine_watch n \<noteq> None" "cn_machines_intact n" using assms(6) by (simp_all add: healthy_def)
  have up: "cn_manager_up n" using assms(2) h(5) by (simp add: node_inv_def machines_follow_def)
  note ans = calm_answered [OF inv(1) h(3) assms(4)]
  have id: "mg_local_peer_id (nd_manager ?nd) \<in> P" using assms(4,5) by simp
  obtain es where es: "cn_peer_watch n = Some es" using peers_followD(4) [OF inv(2) h(3,1)] by blast
  obtain ms where ms: "cn_machine_watch n = Some ms" using h(4) by auto
  from assms(7) es ms consider (peers) "es \<noteq> []" | (bridge) "nd_sharding_rx ?nd \<noteq> []"
    | (topology) "0 < nd_topology_rx ?nd" | (watch) e es' where "ms = e # es'"
    | (mail) m ms' where "cn_mailbox n = m # ms'" | (sync) "cn_sync_pending n"
    by (auto simp: quiescent_def neq_Nil_conv)
  then show ?thesis
  proof cases
    case peers
    with work_step.peer_events [of n es "[]"] es loop_takes_events [OF h(1)] show ?thesis by (metis append_Nil2)
  next
    case topology
    let ?n = "?nd\<lparr>nd_topology_rx := nd_topology_rx ?nd - 1\<rparr>"
    have "manager_does nm from_str Rebalance_Actors ?n
        (?n\<lparr>nd_manager := rebalance_actors (calm_env nm from_str ?n) (nd_manager ?n)\<rparr>)"
      by (rule manager_can) simp
    with topology up show ?thesis by (blast intro: work_step.rebalance)
  next
    case (mail m ms')
    with answered_returns(1) [OF slice ans id, of m] up show ?thesis by (blast intro: work_step.event manager_can)
  next
    case sync
    obtain kvs where kvs: "range_answer st MACHINES_PREFIX kvs" using range_answer_exists [OF assms(3)] by blast
    with answered_returns(2) [OF slice ans id kvs] sync h(2) up show ?thesis
      by (blast intro: work_step.sync manager_can)
  qed (use ms in \<open>blast intro: work_step.bridge work_step.forward\<close>)+
qed

lemma healthy_work:
  assumes "libraries_ok nm env P" and "node_inv nm from_str env cl P st p n" and "healthy n"
    and "work_step nm from_str env st n n'" and "p \<in> P" and "mg_local_peer_id (nd_manager (cn_node n)) = p"
  shows "healthy n'"
  using assms(4)
proof (cases rule: work_step.cases)
  case (peer_events es rest r c')
  have inv: "wired nm from_str cl P p n" "peers_follow env cl P p st n"
    using assms(2) by (simp_all add: node_inv_def)
  have "list_all (peer_event_ok env cl P) es" using peers_followD(2) [OF inv(2) peer_events(2)] by simp
  moreover have "parsers_ok env" using assms(1) by (simp add: libraries_ok_def)
  ultimately have "Malformed \<notin> set (map (decode_event env cl p) es)" by (intro peer_event_changes(1))
  from ctl_step_events [OF peer_events(4), unfolded wiredD(1,2) [OF inv(1)], OF this]
  show ?thesis using peer_events(1) assms(3) by (simp add: healthy_def)
next
  case (event_panic m ms nd)
  with healthy_no_panic(1) [OF assms(1) _ _ assms(5,6)] assms(2,3)
  show ?thesis unfolding node_inv_def healthy_def by blast
next
  case (sync_panic kvs nd)
  with healthy_no_panic(2) [OF assms(1) _ _ assms(5,6) sync_panic(5)] assms(2,3)
  show ?thesis unfolding node_inv_def healthy_def by blast
next
  case sync_dropped
  with assms(2,3) show ?thesis by (simp add: node_inv_def machines_follow_def healthy_def)
qed (use assms(3) in \<open>auto simp: healthy_def\<close>)

section \<open>The cluster works off what is pending\<close>

definition drain ::
  "'p naming \<Rightarrow> spec_parser \<Rightarrow> ('p, 'a) disc_env \<Rightarrow> 'p set \<Rightarrow> ('p, 'a) cluster \<Rightarrow> ('p, 'a) cluster \<Rightarrow> bool" where
  "drain nm from_str env S c c' \<longleftrightarrow>
     (\<exists>p\<in>S. \<exists>n'. work_step nm from_str env (cl_store c) (cl_nodes c p) n' \<and> c' = update_node p n' c)"

definition cluster_work :: "'p set \<Rightarrow> ('p, 'a) cluster \<Rightarrow> nat" where
  "cluster_work S c = (\<Sum>p\<in>S. node_work (cl_nodes c p))"

definition one_actor_each :: "'p set \<Rightarrow> ('p, 'a) cluster \<Rightarrow> bool" where
  "one_actor_each S c \<longleftrightarrow>
     (\<forall>i. if cl_store c (MACHINES_PREFIX @ i) = None
          then \<forall>p\<in>S. mg_actors (nd_manager (cn_node (cl_nodes c p))) i = None
          else \<exists>!p. p \<in> S \<and> mg_actors (nd_manager (cn_node (cl_nodes c p))) i \<noteq> None)"

lemma drain_store: "drain nm from_str env S c c' \<Longrightarrow> cl_store c' = cl_store c"
  by (auto simp: drain_def update_node_def)

lemma drains_store: "(drain nm from_str env S)\<^sup>*\<^sup>* c c' \<Longrightarrow> cl_store c' = cl_store c"
  by (induction rule: rtranclp_induct) (simp_all add: drain_store)

lemma drain_decreases:
  assumes "finite S" and "drain nm from_str env S c c'"
  shows "cluster_work S c' < cluster_work S c"
proof -
  from assms(2) obtain p n' where p: "p \<in> S" "work_step nm from_str env (cl_store c) (cl_nodes c p) n'"
    "c' = update_node p n' c" by (auto simp: drain_def)
  have "(\<Sum>q\<in>S. node_work (cl_nodes c' q)) < (\<Sum>q\<in>S. node_work (cl_nodes c q))"
    using assms(1) p work_step_decreases [OF p(2)]
    by (intro sum_strict_mono_ex1) (auto simp: update_node_def)
  then show ?thesis by (simp add: cluster_work_def)
qed

lemma drain_bounded:
  "finite S \<Longrightarrow> (drain nm from_str env S ^^ k) c c' \<Longrightarrow> k + cluster_work S c' \<le> cluster_work S c"
proof (induction k arbitrary: c')
  case (Suc k)
  then obtain c1 where "(drain nm from_str env S ^^ k) c c1" "drain nm from_str env S c1 c'" by auto
  with Suc drain_decreases [of S nm from_str env c1 c'] show ?case by force
qed simp

lemma drain_ends:
  assumes "finite S"
  shows "\<exists>c'. (drain nm from_str env S)\<^sup>*\<^sup>* c c' \<and> \<not> (\<exists>c''. drain nm from_str env S c' c'')"
proof (induction "cluster_work S c" arbitrary: c rule: less_induct)
  case less
  show ?case
  proof (cases "\<exists>c'. drain nm from_str env S c c'")
    case True
    then obtain c1 where "drain nm from_str env S c c1" by blast
    with less [OF drain_decreases [OF assms]] show ?thesis by (blast intro: converse_rtranclp_into_rtranclp)
  qed blast
qed

lemma drain_keeps:
  assumes "libraries_ok nm env P" and "S \<subseteq> P" and "drain nm from_str env S c c'"
    and "cluster_reach nm from_str env cl P (cluster_init nm cl cfg addr name) c"
    and "\<forall>p\<in>S. healthy (cl_nodes c p)"
  shows "cluster_reach nm from_str env cl P (cluster_init nm cl cfg addr name) c'"
    and "\<forall>p\<in>S. healthy (cl_nodes c' p)"
proof -
  from assms(3) obtain p n' where p: "p \<in> S" "work_step nm from_str env (cl_store c) (cl_nodes c p) n'"
    "c' = update_node p n' c" by (auto simp: drain_def)
  then show "cluster_reach nm from_str env cl P (cluster_init nm cl cfg addr name) c'"
    using assms(2,4) by (auto intro: cluster_reach.step cluster_step.work)
  have "node_inv nm from_str env cl P (cl_store c) p (cl_nodes c p)"
    using cluster_reach_inv [OF assms(4,1)] p(1) assms(2) by (auto simp: cluster_inv_def)
  from healthy_work [OF assms(1) this _ p(2) _ cluster_reach_local_id [OF assms(4)]] assms(2,5) p show "\<forall>p\<in>S. healthy (cl_nodes c' p)"
    by (auto simp: update_node_def)
qed

lemma drains_keep:
  assumes "libraries_ok nm env P" and "S \<subseteq> P"
    and "cluster_reach nm from_str env cl P (cluster_init nm cl cfg addr name) c"
    and "\<forall>p\<in>S. healthy (cl_nodes c p)" and "(drain nm from_str env S)\<^sup>*\<^sup>* c c'"
  shows "cluster_reach nm from_str env cl P (cluster_init nm cl cfg addr name) c' \<and>
    (\<forall>p\<in>S. healthy (cl_nodes c' p))"
  using assms(5)
proof (induction rule: rtranclp_induct)
  case (step c1 c2)
  with drain_keeps [OF assms(1,2) step(2)] show ?case by blast
qed (use assms(3,4) in simp)

text \<open>Where nothing is left to do, the healthy nodes are quiescent, and every machine has its actor.\<close>

lemma drained_quiescent:
  assumes "libraries_ok nm env P"
    and "cluster_reach nm from_str env cl P (cluster_init nm cl cfg addr name) c"
    and "S \<subseteq> P" and "p \<in> S" and "healthy (cl_nodes c p)" and "\<not> (\<exists>c'. drain nm from_str env S c c')"
  shows "quiescent (cl_nodes c p)"
proof (rule ccontr)
  have inv: "cluster_inv nm from_str env cl P c" by (rule cluster_reach_inv [OF assms(2,1)])
  have "p \<in> P" using assms(3,4) by blast
  then have node: "node_inv nm from_str env cl P (cl_store c) p (cl_nodes c p)" "finite (dom (cl_store c))"
    using inv by (auto simp: cluster_inv_def)
  assume "\<not> quiescent (cl_nodes c p)"
  from healthy_progress [OF assms(1) node \<open>p \<in> P\<close> cluster_reach_local_id [OF assms(2)] assms(5) this]
  show False using assms(4,6) by (auto simp: drain_def)
qed

lemma drained_one_actor:
  assumes "libraries_ok nm env P" and "distinct_names nm P"
    and "cluster_reach nm from_str env cl P (cluster_init nm cl cfg addr name) c"
    and "S = registered env cl (cl_store c)" and "S \<subseteq> P" and "finite S" and "S \<noteq> {}"
    and "\<forall>p\<in>S. healthy (cl_nodes c p)" and "\<not> (\<exists>c'. drain nm from_str env S c c')"
    and "\<And>i j. cl_store c (MACHINES_PREFIX @ i) = Some j \<Longrightarrow> spec_ok from_str j"
  shows "one_actor_each S c"
proof -
  obtain view where view: "set view = S" using assms(6) finite_list by blast
  have inv: "cluster_inv nm from_str env cl P c" by (rule cluster_reach_inv [OF assms(3,1)])
  have node: "node_inv nm from_str env cl P (cl_store c) p (cl_nodes c p)" if "p \<in> S" for p
    using inv that assms(5) by (auto simp: cluster_inv_def)
  have quiet: "quiescent (cl_nodes c p)" if "p \<in> S" for p
    using drained_quiescent [OF assms(1,3,5) that _ assms(9)] assms(8) that by blast
  have actors: "mg_actors (nd_manager (cn_node (cl_nodes c p))) i \<noteq> None \<longleftrightarrow>
      cl_store c (MACHINES_PREFIX @ i) \<noteq> None \<and> hrw_owner nm view i = Some p" if "p \<in> S" for p i
    using that assms(4,8) view
    by (intro quiescent_node_actors [OF assms(1) node [OF that] _ quiet [OF that] assms(2) _ assms(10)]) auto
  have owner: "\<exists>w\<in>S. hrw_owner nm view i = Some w" for i
    using hrw.owner_exists [of view nm i] hrw_owner_in [of nm view i] view assms(7) by fastforce
  show ?thesis
    unfolding one_actor_each_def
  proof (intro allI)
    fix i
    obtain w where w: "w \<in> S" "hrw_owner nm view i = Some w" using owner by blast
    let ?st = "cl_store c (MACHINES_PREFIX @ i)"
    have "?st \<noteq> None \<Longrightarrow> p \<in> S \<and> mg_actors (nd_manager (cn_node (cl_nodes c p))) i \<noteq> None \<longleftrightarrow> p = w" for p
      using actors [of p i] w by (cases "p \<in> S") auto
    then show "if cl_store c (MACHINES_PREFIX @ i) = None
          then \<forall>p\<in>S. mg_actors (nd_manager (cn_node (cl_nodes c p))) i = None
          else \<exists>!p. p \<in> S \<and> mg_actors (nd_manager (cn_node (cl_nodes c p))) i \<noteq> None"
      using actors [of _ i] by (cases "?st = None") auto
  qed
qed

section \<open>Runs without a change in etcd\<close>

text \<open>
  Every other step of a node adds nothing to its work, if the list that convergence is going to send is
  counted in advance.
\<close>

definition node_potential :: "('p, 'a) cnode \<Rightarrow> nat" where
  "node_potential n =
     node_work n + (if ct_pc (cn_controller n) \<in> {At_Initialize, At_Register, At_Converge} then 2 else 0)"

lemma life_input_lists:
  assumes "ctl_step env i c = Some c'" and "\<forall>es r. i \<noteq> In_Watch (Watch_Response False es) r"
  shows "length (sent_lists c') \<le> length (sent_lists c) + (if ct_pc c = At_Converge then 1 else 0)"
proof (cases i)
  case (In_Peers resp)
  have "length (tx_of (notify_sharding env s)) \<le> length (tx_of s) + 1" for s :: "('a, 'b) phases"
    by (auto simp: tx_of_def notify_sharding_def Let_def split: option.split)
  moreover have "tx_of (fold admit cs s) = tx_of s" "tx_of (s\<lparr>dp_readiness := b\<rparr>) = tx_of s"
    for cs and s :: "('a, 'b) phases" and b by (simp_all add: tx_of_def)
  ultimately have "length (tx_of (fst (converge env resp s))) \<le> length (tx_of s) + 1" for s
    by (cases resp) (simp_all add: converge_def [of _ "Inl _"] converge_alt Let_def, metis+)
  from this [of "ct_phases c"] assms(1) show ?thesis
    by (auto simp: In_Peers sent_lists_tx Let_def split: if_splits sum.splits prod.splits)
next
  case (In_Watch msg r)
  with assms(2) have "fst (process_watch_event env msg (ct_phases c)) = ct_phases c"
    by (cases msg) auto
  with assms(1) show ?thesis
    by (auto simp: In_Watch sent_lists_tx split: if_splits sum.splits prod.splits)
qed (use assms(1) in \<open>auto simp: shutdown_def sent_lists_tx tx_of_def Let_def
      split: if_splits sum.splits option.splits prod.splits\<close>)

lemma advance_potential:
  assumes "ctl_step env i (cn_controller n) = Some c'" and "\<forall>es r. i \<noteq> In_Watch (Watch_Response False es) r"
  shows "node_potential (advance c' n) \<le> node_potential n"
proof -
  have "length (nd_sharding_rx (cn_node (advance c' n))) \<le>
      length (nd_sharding_rx (cn_node n)) + (if ct_pc (cn_controller n) = At_Converge then 1 else 0)"
    using life_input_lists [OF assms] by (simp add: advance_def)
  moreover have "ct_pc c' \<in> {At_Initialize, At_Register, At_Converge} \<Longrightarrow>
      ct_pc (cn_controller n) \<in> {At_Initialize, At_Register}"
    and "ct_pc (cn_controller n) = At_Converge \<Longrightarrow> ct_pc c' \<notin> {At_Initialize, At_Register, At_Converge}"
    using assms(1)
    by (cases i; auto simp: initialize_phase_def Let_def split: if_splits sum.splits prod.splits)+
  ultimately show ?thesis by (auto simp: node_potential_def node_work_def)
qed

lemma life_step_potential: "life_step nm from_str env st n n' \<Longrightarrow> node_potential n' \<le> node_potential n"
proof (induction rule: life_step.induct)
  case (enter w n c')
  then show ?case using advance_potential [OF enter] by (auto simp: node_potential_def node_work_def)
next
  case (peers_broken msg r n c')
  then show ?case using advance_potential [OF peers_broken(2)] by (auto simp: node_potential_def node_work_def)
next
  case (peers_ended r n c')
  then show ?case using advance_potential [OF peers_ended] by (auto simp: node_potential_def node_work_def)
next
  case (sync_failed n e nd)
  then show ?case using manager_does_work [OF disjI1 [OF sync_failed(4)]] by (simp add: node_potential_def node_work_def)
next
  case (query n nd)
  then show ?case using manager_does_work [OF disjI1 [OF query(2)]] by (simp add: node_potential_def node_work_def)
next
  case (shutdown i rv n c')
  then show ?case using advance_potential [OF shutdown(2)] by auto
next
  case (initialize s n c')
  then show ?case using advance_potential by blast
next
  case (register_failed g ka put n c' e)
  then show ?case using advance_potential by blast
next
  case (converge n kvs c')
  then show ?case using advance_potential by blast
next
  case (converge_failed e n c')
  then show ?case using advance_potential by blast
qed (simp_all add: node_potential_def node_work_def)

lemma work_step_pc:
  assumes "work_step nm from_str env st n n'"
  shows "ct_pc (cn_controller n') \<in> {At_Initialize, At_Register, At_Converge} \<longleftrightarrow>
    ct_pc (cn_controller n) \<in> {At_Initialize, At_Register, At_Converge}"
  using assms by (cases rule: work_step.cases) (auto split: if_splits sum.splits prod.splits)

lemma work_step_potential: "work_step nm from_str env st n n' \<Longrightarrow> node_potential n' < node_potential n"
  using work_step_decreases work_step_pc by (fastforce simp: node_potential_def)

text \<open>
  A run in which etcd does not change: any steps of the nodes, \<open>k\<close> of which work off something that is
  pending.
\<close>

inductive quiet_run ::
  "'p naming \<Rightarrow> spec_parser \<Rightarrow> ('p, 'a) disc_env \<Rightarrow> 'p set \<Rightarrow> ('p, 'a) cluster \<Rightarrow> nat \<Rightarrow> ('p, 'a) cluster \<Rightarrow> bool"
  for nm from_str env P c0 where
  start: "quiet_run nm from_str env P c0 0 c0"
| work: "quiet_run nm from_str env P c0 k c \<Longrightarrow> p \<in> P \<Longrightarrow>
    work_step nm from_str env (cl_store c) (cl_nodes c p) n' \<Longrightarrow>
    quiet_run nm from_str env P c0 (Suc k) (update_node p n' c)"
| life: "quiet_run nm from_str env P c0 k c \<Longrightarrow> p \<in> P \<Longrightarrow>
    life_step nm from_str env (cl_store c) (cl_nodes c p) n' \<Longrightarrow>
    quiet_run nm from_str env P c0 k (update_node p n' c)"

definition cluster_potential :: "'p set \<Rightarrow> ('p, 'a) cluster \<Rightarrow> nat" where
  "cluster_potential P c = (\<Sum>p\<in>P. node_potential (cl_nodes c p))"

lemma potential_update:
  assumes "finite P" and "p \<in> P"
  shows "cluster_potential P (update_node p n c) + node_potential (cl_nodes c p) =
    cluster_potential P c + node_potential n"
  using assms by (simp add: cluster_potential_def update_node_def sum.remove [of P p] algebra_simps)

lemma quiet_run_bounded:
  "quiet_run nm from_str env P c k c' \<Longrightarrow> finite P \<Longrightarrow> k + cluster_potential P c' \<le> cluster_potential P c"
proof (induction rule: quiet_run.induct)
  case (work k c p n')
  then show ?case using potential_update [OF work(5,2), of n' c] work_step_potential [OF work(3)] by linarith
next
  case (life k c p n')
  then show ?case using potential_update [OF life(5,2), of n' c] life_step_potential [OF life(3)] by linarith
qed simp

lemma drains_quiet_run:
  "(drain nm from_str env S ^^ k) c c' \<Longrightarrow> S \<subseteq> P \<Longrightarrow> quiet_run nm from_str env P c k c'"
  by (induction k arbitrary: c') (auto 0 3 simp: drain_def intro: quiet_run.start quiet_run.work)

end
