(* ===== verification/Cluster_Properties.thy ===== *)
theory Cluster_Properties
  imports Cluster_Convergence
begin

text \<open>
  Properties of the whole system over all its runs, and the runs that show where the code falls short
  of them: registrations and machine changes that fall into the gap between a range request and the
  opening of the watch, or between two watches, are never learnt.
\<close>

section \<open>The start-up of a node\<close>

lemma advance_same:
  "ct_phases c' = ct_phases (cn_controller n) \<Longrightarrow> advance c' n = n\<lparr>cn_controller := c'\<rparr>"
  by (simp add: advance_def sent_lists_def)

lemma observe_unborn:
  assumes "cn_peer_watch n = None" and "cn_machine_watch n = None"
    and "ct_pc (cn_controller n) \<notin> {At_Enter, At_Loop}"
  shows "observe env key v n = n"
  using assms by (simp add: observe_def Let_def)

text \<open>A node that has not started registers.\<close>

lemma node_registers:
  assumes "cluster_reach nm from_str env cl P c0 c" and "p \<in> P"
    and "cl_nodes c p = cnode_init nm cl cfg p a name"
    and "de_to_json env \<lparr>md_multiaddr = de_show_addr env a, md_meta = Map.empty, md_shard = 0\<rparr> = Inr v"
  shows "\<exists>k. cluster_reach nm from_str env cl P c0
      (etcd_change env (peer_key env cl p) (Some v) (update_node p ((cl_nodes c p)\<lparr>cn_controller := k\<rparr>) c)) \<and>
    ct_pc k = At_Converge \<and> ct_phases k = ct_phases (cn_controller (cl_nodes c p)) \<and> ct_convergence_tx k"
proof -
  let ?n = "cl_nodes c p" and ?key = "peer_key env cl p"
  let ?k = "cn_controller ?n"
  let ?kr = "?k\<lparr>ct_state := Registration, ct_pc := At_Register\<rparr>"
  let ?kc = "?k\<lparr>ct_lease_id := Some 7, ct_registered := Some (?key, v), ct_state := Convergence, ct_pc := At_Converge\<rparr>"
  have init: "ct_pc ?k = At_Initialize" "dp_cluster_id (ct_phases ?k) = cl" "dp_local_peer_id (ct_phases ?k) = p"
    "dp_local_addr (ct_phases ?k) = a" "ct_convergence_tx ?k"
    by (simp_all add: assms(3) cnode_init_def controller_new_def phases_new_def)
  let ?cr = "update_node p (?n\<lparr>cn_controller := ?kr\<rparr>) c"
  have "ctl_step env (In_Status (Inr [])) ?k = Some ?kr" by (simp add: init(1) initialize_phase_def)
  from life_step.initialize [OF this]
  have "life_step nm from_str env (cl_store c) ?n (?n\<lparr>cn_controller := ?kr\<rparr>)" by (simp add: advance_same)
  with assms(1,2) have r1: "cluster_reach nm from_str env cl P c0 ?cr"
    by (blast intro: cluster_reach.step cluster_step.life)
  have np: "cl_nodes ?cr p = ?n\<lparr>cn_controller := ?kr\<rparr>" by (simp add: update_node_def)
  have "ctl_step env (In_Register (Inr 7) (Inr ()) (\<lambda>_ _. Inr ())) (cn_controller (cl_nodes ?cr p)) = Some ?kc"
    by (simp add: np register_phase_def init assms(4))
  then have "cluster_reach nm from_str env cl P c0
      (etcd_change env ?key (Some v) (update_node p (advance ?kc (cl_nodes ?cr p)) ?cr))"
    by (intro cluster_reach.step [OF r1] cluster_step.register [OF assms(2)]) simp_all
  moreover have "update_node p (advance ?kc (cl_nodes ?cr p)) ?cr = update_node p (?n\<lparr>cn_controller := ?kc\<rparr>) c"
    by (simp add: np advance_same) (simp add: update_node_def)
  ultimately show ?thesis using init(5) by (intro exI [of _ ?kc]) simp
qed

text \<open>A registered node makes its range request and knows the registered peers.\<close>

lemma node_converges:
  assumes "libraries_ok nm env P"
    and "cluster_reach nm from_str env cl P (cluster_init nm cl cfg addr name) c" and "p \<in> P"
    and "ct_pc (cn_controller (cl_nodes c p)) = At_Converge"
  shows "\<exists>k. cluster_reach nm from_str env cl P (cluster_init nm cl cfg addr name)
      (update_node p (advance k (cl_nodes c p)) c) \<and> ct_pc k = At_Enter \<and>
    (ct_converged k \<longleftrightarrow> ct_converged (cn_controller (cl_nodes c p)) \<or> ct_convergence_tx (cn_controller (cl_nodes c p))) \<and>
    dp_known_peers (ct_phases k) = insert p (registered env cl (cl_store c))"
proof -
  let ?k = "cn_controller (cl_nodes c p)"
  have lib: "parsers_ok env" using assms(1) by (simp add: libraries_ok_def)
  have inv: "registry_ok env cl P (cl_store c)" "finite (dom (cl_store c))"
    "wired nm from_str cl P p (cl_nodes c p)" "peers_follow env cl P p (cl_store c) (cl_nodes c p)"
    using cluster_reach_inv [OF assms(2,1)] assms(3) by (simp_all add: cluster_inv_def node_inv_def)
  note ids = wiredD(1,2) [OF inv(3)]
  obtain kvs where kvs: "range_answer (cl_store c) (peers_prefix cl) kvs" using range_answer_exists [OF inv(2)] ..
  obtain k where k: "ctl_step env (In_Peers (Inr kvs)) ?k = Some k"
    using assms(4) by (cases "converge env (Inr kvs) (ct_phases ?k)"; cases "snd (converge env (Inr kvs) (ct_phases ?k))")
      (auto simp: Let_def)
  note ans = range_answer_peers [OF lib inv(1) kvs, of p]
  note conv = ctl_step_converged [OF k refl, unfolded ids, OF ans(1)]
  have "life_step nm from_str env (cl_store c) (cl_nodes c p) (advance k (cl_nodes c p))"
    using kvs k by (intro life_step.converge [where kvs = kvs]) (simp_all add: ids)
  then have "cluster_reach nm from_str env cl P (cluster_init nm cl cfg addr name)
      (update_node p (advance k (cl_nodes c p)) c)"
    by (rule cluster_reach.step [OF assms(2) cluster_step.life [OF assms(3)]])
  moreover have "dp_known_peers (ct_phases k) = insert p (registered env cl (cl_store c))"
    using conv(3) ans(3) peers_followD(1) [OF inv(4)] assms(4) by auto
  ultimately show ?thesis using conv(2,4) by blast
qed

text \<open>In a new cluster a node registers and converges, while the others have not started.\<close>

lemma boot_converged:
  assumes "libraries_ok nm env P" and "p \<in> P"
    and "de_to_json env \<lparr>md_multiaddr = de_show_addr env (addr p), md_meta = Map.empty, md_shard = 0\<rparr> = Inr v"
  shows "\<exists>c k. cluster_reach nm from_str env cl P (cluster_init nm cl cfg addr name) c \<and>
    cl_store c = [peer_key env cl p \<mapsto> v] \<and>
    (\<forall>q. q \<noteq> p \<longrightarrow> cl_nodes c q = cnode_init nm cl cfg q (addr q) (name q)) \<and>
    cl_nodes c p = advance k (cnode_init nm cl cfg p (addr p) (name p)) \<and>
    ct_pc k = At_Enter \<and> ct_converged k \<and> dp_known_peers (ct_phases k) = {p}"
proof -
  let ?init = "cluster_init nm cl cfg addr name" and ?n = "\<lambda>q. cnode_init nm cl cfg q (addr q) (name q)"
  let ?key = "peer_key env cl p" and ?R = "cluster_reach nm from_str env cl P (cluster_init nm cl cfg addr name)"
  have lib: "parsers_ok env" using assms(1) by (simp add: libraries_ok_def)
  have nodes: "cl_nodes ?init q = ?n q" for q by (simp add: cluster_init_def)
  obtain kc where r2: "?R (etcd_change env ?key (Some v) (update_node p ((?n p)\<lparr>cn_controller := kc\<rparr>) ?init))"
    and kc: "ct_pc kc = At_Converge" "ct_phases kc = ct_phases (cn_controller (?n p))" "ct_convergence_tx kc"
    using node_registers [OF cluster_reach.start assms(2) nodes assms(3)] unfolding nodes by blast
  let ?cc = "etcd_change env ?key (Some v) (update_node p ((?n p)\<lparr>cn_controller := kc\<rparr>) ?init)"
  have unborn: "observe env ?key w (?n q) = ?n q" for w q
    by (rule observe_unborn) (simp_all add: cnode_init_def controller_new_def)
  have "observe env ?key (Some v) ((?n p)\<lparr>cn_controller := kc\<rparr>) = (?n p)\<lparr>cn_controller := kc\<rparr>"
    by (rule observe_unborn) (simp_all add: kc(1) cnode_init_def)
  then have ccp: "cl_nodes ?cc p = (?n p)\<lparr>cn_controller := kc\<rparr>" by (simp add: etcd_change_def update_node_def)
  then have cck: "cn_controller (cl_nodes ?cc p) = kc" by simp
  have ccq: "cl_nodes ?cc q = ?n q" if "q \<noteq> p" for q
    using that unborn by (simp add: etcd_change_def update_node_def nodes)
  have ccs: "cl_store ?cc = [?key \<mapsto> v]" by (simp add: etcd_change_def update_node_def cluster_init_def)
  have reg: "registered env cl (cl_store ?cc) = {p}" by (auto simp: ccs registered_def peer_key_inj [OF lib])
  have "ct_pc (cn_controller (cl_nodes ?cc p)) = At_Converge" by (simp only: cck kc(1))
  from node_converges [OF assms(1) r2 assms(2) this]
  obtain k where k: "?R (update_node p (advance k (cl_nodes ?cc p)) ?cc)" "ct_pc k = At_Enter"
    "ct_converged k \<longleftrightarrow> ct_converged kc \<or> ct_convergence_tx kc"
    "dp_known_peers (ct_phases k) = insert p (registered env cl (cl_store ?cc))"
    unfolding cck by blast
  let ?ce = "update_node p (advance k (cl_nodes ?cc p)) ?cc"
  have "advance k ((?n p)\<lparr>cn_controller := kc\<rparr>) = advance k (?n p)"
    using kc(2) by (simp add: advance_def sent_lists_def)
  then have "cl_nodes ?ce p = advance k (?n p)" unfolding update_node_def [of _ _ ?cc] ccp by simp
  moreover have "cl_nodes ?ce q = ?n q" if "q \<noteq> p" for q using that ccq by (simp add: update_node_def)
  moreover have "cl_store ?ce = [?key \<mapsto> v]" using ccs by (simp add: update_node_def)
  ultimately show ?thesis using k kc(3) reg by (intro exI [of _ ?ce] exI [of _ k]) simp
qed

text \<open>It then opens its watches and is healthy, with a machine that was put meanwhile.\<close>

lemma boot_healthy:
  assumes "libraries_ok nm env P" and "p \<in> P"
    and "de_to_json env \<lparr>md_multiaddr = de_show_addr env (addr p), md_meta = Map.empty, md_shard = 0\<rparr> = Inr v"
  shows "\<exists>c. cluster_reach nm from_str env cl P (cluster_init nm cl cfg addr name) c \<and>
    cl_store c = [peer_key env cl p \<mapsto> v, MACHINES_PREFIX @ i \<mapsto> j] \<and> healthy (cl_nodes c p) \<and>
    cn_sync_pending (cl_nodes c p) \<and> dp_known_peers (ct_phases (cn_controller (cl_nodes c p))) = {p} \<and>
    (\<forall>q. q \<noteq> p \<longrightarrow> cl_nodes c q = cnode_init nm cl cfg q (addr q) (name q))"
proof -
  let ?R = "cluster_reach nm from_str env cl P (cluster_init nm cl cfg addr name)"
  obtain c k where c: "?R c" "cl_store c = [peer_key env cl p \<mapsto> v]"
    "cl_nodes c p = advance k (cnode_init nm cl cfg p (addr p) (name p))" "ct_pc k = At_Enter" "ct_converged k"
    "dp_known_peers (ct_phases k) = {p}" "\<forall>q. q \<noteq> p \<longrightarrow> cl_nodes c q = cnode_init nm cl cfg q (addr q) (name q)"
    using boot_converged [of nm env P p addr, OF assms] by blast
  let ?k = "k\<lparr>ct_pc := At_Loop\<rparr>"
  let ?n = "(advance ?k (cl_nodes c p))\<lparr>cn_peer_watch := Some []\<rparr>"
  let ?m = "?n\<lparr>cn_machine_watch := Some []\<rparr>"
  have "ctl_step env (In_Watch_Open (Inr ())) (cn_controller (cl_nodes c p)) = Some ?k"
    by (simp add: c(3,4) enter_maintenance_def)
  from life_step.enter [OF this] have "life_step nm from_str env (cl_store c) (cl_nodes c p) ?n" by simp
  then have r1: "?R (update_node p ?n c)" by (rule cluster_reach.step [OF c(1) cluster_step.life [OF assms(2)]])
  have "cn_machine_watch ?n = None" by (simp add: c(3) cnode_init_def)
  then have "life_step nm from_str env (cl_store c) ?n ?m" by (rule life_step.machines_opened)
  then have "cluster_step nm from_str env cl P (update_node p ?n c) (update_node p ?m (update_node p ?n c))"
    by (intro cluster_step.life [OF assms(2)]) (simp add: update_node_def)
  then have r2: "?R (update_node p ?m c)" using r1 by (simp add: update_node_def cluster_reach.step)
  let ?c = "etcd_change env (MACHINES_PREFIX @ i) (Some j) (update_node p ?m c)"
  have "?R ?c" by (rule cluster_reach.step [OF r2 cluster_step.machine]) simp
  moreover have "cl_store ?c = [peer_key env cl p \<mapsto> v, MACHINES_PREFIX @ i \<mapsto> j]"
    by (simp add: etcd_change_def update_node_def c(2))
  moreover have "healthy ?m" by (simp add: healthy_def c(3,5)) (simp add: cnode_init_def)
  then have "healthy (cl_nodes ?c p)"
    by (auto simp: etcd_change_def update_node_def healthy_def observe_def Let_def)
  moreover have "cn_sync_pending (cl_nodes ?c p)" "cn_controller (cl_nodes ?c p) = ?k"
    by (simp_all add: etcd_change_def update_node_def observe_def Let_def c(3)) (simp add: cnode_init_def)
  moreover have "cl_nodes ?c q = cnode_init nm cl cfg q (addr q) (name q)" if "q \<noteq> p" for q
    using that c(7) observe_unborn [of "cnode_init nm cl cfg q (addr q) (name q)"]
    by (simp add: etcd_change_def update_node_def) (simp add: cnode_init_def controller_new_def)
  ultimately show ?thesis using c(6) by (intro exI [of _ ?c]) simp
qed

subsection \<open>A concrete cluster\<close>

lemma sample_libraries: "libraries_ok sample_naming sample_disc_env {sample_peer CHR ''a''}"
  by (simp add: libraries_ok_def parsers_ok_sample iteration_order_sample_disc sliceable_sample_peer)

lemma sample_json:
  "de_to_json sample_disc_env
     \<lparr>md_multiaddr = de_show_addr sample_disc_env (id p), md_meta = Map.empty, md_shard = 0\<rparr> = Inr p"
  by (simp add: sample_disc_env_def)

lemma sample_boot:
  "\<exists>c. cluster_reach sample_naming sample_parser sample_disc_env ''c'' {sample_peer CHR ''a''}
      (cluster_init sample_naming ''c'' network_config_default id id) c \<and>
    cl_store c = [peer_key sample_disc_env ''c'' (sample_peer CHR ''a'') \<mapsto> sample_peer CHR ''a'',
      MACHINES_PREFIX @ ''m1'' \<mapsto> ''{}''] \<and>
    registered sample_disc_env ''c'' (cl_store c) = {sample_peer CHR ''a''} \<and>
    (\<forall>p\<in>{sample_peer CHR ''a''}. healthy (cl_nodes c p)) \<and>
    (\<forall>i j. cl_store c (MACHINES_PREFIX @ i) = Some j \<longrightarrow> spec_ok sample_parser j) \<and>
    cn_sync_pending (cl_nodes c (sample_peer CHR ''a''))"
proof -
  let ?p = "sample_peer CHR ''a''"
  obtain c where c: "cluster_reach sample_naming sample_parser sample_disc_env ''c'' {?p}
      (cluster_init sample_naming ''c'' network_config_default id id) c"
    "cl_store c = [peer_key sample_disc_env ''c'' ?p \<mapsto> ?p, MACHINES_PREFIX @ ''m1'' \<mapsto> ''{}'']"
    "healthy (cl_nodes c ?p)" "cn_sync_pending (cl_nodes c ?p)"
    using boot_healthy [of sample_naming sample_disc_env "{?p}" ?p id, OF sample_libraries _ sample_json] by blast
  have "registered sample_disc_env ''c'' (cl_store c) = {?p}"
    by (simp add: c(2) registered_other registered_update [OF parsers_ok_sample]) (simp add: registered_def)
  moreover have "\<forall>i j. cl_store c (MACHINES_PREFIX @ i) = Some j \<longrightarrow> spec_ok sample_parser j"
    using c(2) by (auto simp: spec_ok_def sample_parser_def peer_key_def MACHINES_PREFIX_def peers_prefix_def
        split: if_splits)
  ultimately show ?thesis using c by blast
qed

section \<open>Properties\<close>

lemma registered_within:
  assumes "cluster_inv nm from_str env cl P c" and "parsers_ok env"
  shows "registered env cl (cl_store c) \<subseteq> P" and "finite (registered env cl (cl_store c))"
proof -
  have reg: "registry_ok env cl P (cl_store c)" and fin: "finite (dom (cl_store c))"
    using assms(1) by (simp_all add: cluster_inv_def)
  show "registered env cl (cl_store c) \<subseteq> P"
    using registry_okD [OF reg] by (fastforce simp: registered_def peer_key_inj [OF assms(2)])
  have "peer_key env cl ` registered env cl (cl_store c) \<subseteq> dom (cl_store c)" by (auto simp: registered_def)
  then have "finite (peer_key env cl ` registered env cl (cl_store c))" using fin finite_subset by blast
  then show "finite (registered env cl (cl_store c))"
    by (rule finite_imageD) (simp add: inj_on_def peer_key_inj [OF assms(2)])
qed

lemma cluster_drains:
  assumes "libraries_ok nm env P" and "distinct_names nm P"
    and "cluster_reach nm from_str env cl P (cluster_init nm cl cfg addr name) c"
    and "S = registered env cl (cl_store c)" and "S \<noteq> {}" and "\<forall>p\<in>S. healthy (cl_nodes c p)"
    and "\<forall>i j. cl_store c (MACHINES_PREFIX @ i) = Some j \<longrightarrow> spec_ok from_str j"
  shows "(\<exists>c'. (drain nm from_str env S)\<^sup>*\<^sup>* c c' \<and> \<not> (\<exists>c''. drain nm from_str env S c' c'')) \<and>
    (\<forall>c'. (drain nm from_str env S)\<^sup>*\<^sup>* c c' \<and> \<not> (\<exists>c''. drain nm from_str env S c' c'') \<longrightarrow>
       cl_store c' = cl_store c \<and> one_actor_each S c')"
proof -
  have lib: "parsers_ok env" using assms(1) by (simp add: libraries_ok_def)
  note S = registered_within [OF cluster_reach_inv [OF assms(3,1)] lib, folded assms(4)]
  have "cl_store c' = cl_store c \<and> one_actor_each S c'"
    if "(drain nm from_str env S)\<^sup>*\<^sup>* c c'" "\<not> (\<exists>c''. drain nm from_str env S c' c'')" for c'
  proof
    show st: "cl_store c' = cl_store c" by (rule drains_store [OF that(1)])
    note keep = drains_keep [OF assms(1) S(1) assms(3,6) that(1)]
    show "one_actor_each S c'"
      using drained_one_actor [OF assms(1,2) conjunct1 [OF keep] _ S(1,2) assms(5) conjunct2 [OF keep] that(2)]
        assms(4,7) unfolding st by blast
  qed
  with drain_ends [OF S(2)] show ?thesis by blast
qed


text \<open>
  C1. Convergence of the cluster: from any reachable state, with any nodes joined, left, restarted
  watches, panicked managers and machine changes behind it, in which at least one peer is registered,
  every registered peer is healthy (in the loop of its controller, its watches complete so far) and every
  stored specification parses, suppose etcd no longer changes. Then the registered nodes
  can work off what is pending in their channels, in whatever order they are scheduled; and in every
  state in which no node has anything left to do, each machine in etcd has a running actor on exactly
  one registered node, and no node runs an actor for a machine that is not in etcd.
\<close>

theorem cluster_converges:
  assumes "libraries_ok nm env P" and "distinct_names nm P"
    and "cluster_reach nm from_str env cl P (cluster_init nm cl cfg addr name) c"
    and "S = registered env cl (cl_store c)" and "S \<noteq> {}" and "\<forall>p\<in>S. healthy (cl_nodes c p)"
    and "\<forall>i j. cl_store c (MACHINES_PREFIX @ i) = Some j \<longrightarrow> spec_ok from_str j"
  shows "(\<exists>c'. (drain nm from_str env S)\<^sup>*\<^sup>* c c' \<and> \<not> (\<exists>c''. drain nm from_str env S c' c'')) \<and>
    (\<forall>c'. (drain nm from_str env S)\<^sup>*\<^sup>* c c' \<and> \<not> (\<exists>c''. drain nm from_str env S c' c'') \<longrightarrow>
       cl_store c' = cl_store c \<and> one_actor_each S c')"
  using assms by (rule cluster_drains)

theorem cluster_converges_witness:
  "\<exists>c c'. cluster_reach sample_naming sample_parser sample_disc_env ''c'' {sample_peer CHR ''a''}
      (cluster_init sample_naming ''c'' network_config_default id id) c \<and>
    (drain sample_naming sample_parser sample_disc_env {sample_peer CHR ''a''})\<^sup>*\<^sup>* c c' \<and>
    mg_actors (nd_manager (cn_node (cl_nodes c' (sample_peer CHR ''a'')))) ''m1'' \<noteq> None"
proof -
  let ?p = "sample_peer CHR ''a''"
  obtain c where c: "cluster_reach sample_naming sample_parser sample_disc_env ''c'' {?p}
      (cluster_init sample_naming ''c'' network_config_default id id) c"
    "cl_store c = [peer_key sample_disc_env ''c'' ?p \<mapsto> ?p, MACHINES_PREFIX @ ''m1'' \<mapsto> ''{}'']"
    "registered sample_disc_env ''c'' (cl_store c) = {?p}" "\<forall>p\<in>{?p}. healthy (cl_nodes c p)"
    "\<forall>i j. cl_store c (MACHINES_PREFIX @ i) = Some j \<longrightarrow> spec_ok sample_parser j"
    using sample_boot by blast
  obtain c' where c': "(drain sample_naming sample_parser sample_disc_env {?p})\<^sup>*\<^sup>* c c'"
    "cl_store c' = cl_store c" "one_actor_each {?p} c'"
    using cluster_converges [OF sample_libraries sample_naming_simps(2) c(1) c(3) [symmetric] insert_not_empty
        c(4,5)] by blast
  have "cl_store c' (MACHINES_PREFIX @ ''m1'') \<noteq> None" by (simp add: c'(2) c(2))
  then have "mg_actors (nd_manager (cn_node (cl_nodes c' ?p))) ''m1'' \<noteq> None"
    using c'(3) unfolding one_actor_each_def by (metis singletonD)
  with c(1) c'(1) show ?thesis by blast
qed

text \<open>
  C4. Pending work is bounded: in every run in which etcd does not change, whatever the nodes' tasks do and
  in whatever order (losing and reopening watches, answering queries, starting up and shutting down as
  often as they like), the steps that work off something pending are bounded by what was pending at the
  beginning, less what is pending at the end. The work is counted as three for an unread discovery event,
  two for a list of peers and for an unread event of the machine watch, one for a notification, a message
  in the mailbox and the initial sync, and two for the list that a node which has not yet converged is
  going to send. In particular no such run contains infinitely many of these steps.
\<close>

theorem drain_terminates:
  assumes "finite P" and "quiet_run nm from_str env P c k c'"
  shows "k + cluster_potential P c' \<le> cluster_potential P c"
  by (rule quiet_run_bounded [OF assms(2,1)])

theorem drain_terminates_witness:
  "\<exists>(c :: (string, string) cluster) k c'.
    cluster_reach sample_naming sample_parser sample_disc_env ''c'' {sample_peer CHR ''a''}
      (cluster_init sample_naming ''c'' network_config_default id id) c \<and>
    0 < k \<and> quiet_run sample_naming sample_parser sample_disc_env {sample_peer CHR ''a''} c k c' \<and>
    quiescent (cl_nodes c' (sample_peer CHR ''a'')) \<and>
    k + cluster_potential {sample_peer CHR ''a''} c' \<le> cluster_potential {sample_peer CHR ''a''} c"
proof -
  let ?p = "sample_peer CHR ''a''"
  let ?D = "drain sample_naming sample_parser sample_disc_env {?p}"
  obtain c where c: "cluster_reach sample_naming sample_parser sample_disc_env ''c'' {?p}
      (cluster_init sample_naming ''c'' network_config_default id id) c"
    "\<forall>p\<in>{?p}. healthy (cl_nodes c p)" "cn_sync_pending (cl_nodes c ?p)"
    using sample_boot by blast
  obtain c' where d: "?D\<^sup>*\<^sup>* c c'" "\<not> (\<exists>c''. ?D c' c'')"
    using drain_ends [of "{?p}" sample_naming sample_parser sample_disc_env c] by auto
  then obtain k where k: "(?D ^^ k) c c'" by (auto dest: rtranclp_imp_relpowp)
  note keep = drains_keep [OF sample_libraries subset_refl c(1,2) d(1)]
  have quiet: "quiescent (cl_nodes c' ?p)"
    using drained_quiescent [OF sample_libraries conjunct1 [OF keep] subset_refl _ _ d(2)] keep by simp
  with c(3) have "c' \<noteq> c" by (auto simp: quiescent_def)
  with k have "0 < k" by (cases k) auto
  moreover have run: "quiet_run sample_naming sample_parser sample_disc_env {?p} c k c'"
    by (rule drains_quiet_run [OF k subset_refl])
  moreover have "k + cluster_potential {?p} c' \<le> cluster_potential {?p} c"
    by (rule drain_terminates [OF _ run]) simp
  ultimately show ?thesis using c(1) quiet by blast
qed

text \<open>
  C3. A node follows etcd as long as its watches are complete: in every reachable state, for a node in the
  loop of its controller whose registry was not changed before its discovery watch was open, whose watch
  has not broken and whose own entry was not deleted since, the membership it knows, with the unread
  events of that watch applied, is the set of registered peers and the node itself; and for a node whose
  machine watch was open at its initial sync and has not broken since, and whose manager has not panicked,
  the specs its manager has cached, with the messages in its mailbox and the unread events of its machine
  watch applied, are exactly the machine entries. Of other nodes nothing is said: the properties on lost
  registrations and lost machines below show runs in which such nodes do not follow etcd.
\<close>

theorem nodes_follow_etcd:
  assumes "libraries_ok nm env P" and "cluster_reach nm from_str env cl P (cluster_init nm cl cfg addr name) c"
    and "p \<in> P" and "n = cl_nodes c p"
  shows "(cn_peers_intact n \<and> ct_pc (cn_controller n) = At_Loop \<longrightarrow>
      (\<exists>es. cn_peer_watch n = Some es \<and>
        fold member_change (map (decode_event env cl p) es) (dp_known_peers (ct_phases (cn_controller n))) =
          insert p (registered env cl (cl_store c)))) \<and>
    (cn_machines_intact n \<and> cn_loaded n \<longrightarrow>
      fold apply_machine_event (pending_events n) (mg_machine_specs (nd_manager (cn_node n))) =
        (\<lambda>i. cl_store c (MACHINES_PREFIX @ i)))"
proof -
  have "node_inv nm from_str env cl P (cl_store c) p n"
    using cluster_reach_inv [OF assms(2,1)] assms(3,4) by (simp add: cluster_inv_def)
  then have "peers_follow env cl P p (cl_store c) n" "machines_follow (cl_store c) n"
    by (simp_all add: node_inv_def)
  then show ?thesis
    using peers_followD(4) [of env cl P p "cl_store c" n] by (auto simp: machines_follow_def)
qed

theorem nodes_follow_etcd_witness:
  "\<exists>c :: (string, string) cluster. cl_store c (MACHINES_PREFIX @ ''m1'') = Some ''{}'' \<and>
    (\<exists>es. cn_peer_watch (cl_nodes c (sample_peer CHR ''a'')) = Some es \<and>
      fold member_change (map (decode_event sample_disc_env ''c'' (sample_peer CHR ''a'')) es)
        (dp_known_peers (ct_phases (cn_controller (cl_nodes c (sample_peer CHR ''a''))))) = {sample_peer CHR ''a''})"
proof -
  let ?p = "sample_peer CHR ''a''"
  obtain c where c: "cluster_reach sample_naming sample_parser sample_disc_env ''c'' {?p}
      (cluster_init sample_naming ''c'' network_config_default id id) c"
    "cl_store c = [peer_key sample_disc_env ''c'' ?p \<mapsto> ?p, MACHINES_PREFIX @ ''m1'' \<mapsto> ''{}'']"
    "registered sample_disc_env ''c'' (cl_store c) = {?p}" "healthy (cl_nodes c ?p)"
    using sample_boot by blast
  from nodes_follow_etcd [OF sample_libraries c(1), of ?p] c(4)
  have "\<exists>es. cn_peer_watch (cl_nodes c ?p) = Some es \<and>
      fold member_change (map (decode_event sample_disc_env ''c'' ?p) es)
        (dp_known_peers (ct_phases (cn_controller (cl_nodes c ?p)))) = {?p}"
    by (simp add: healthy_def c(3))
  moreover have "cl_store c (MACHINES_PREFIX @ ''m1'') = Some ''{}''" by (simp add: c(2))
  ultimately show ?thesis by blast
qed

section \<open>Changes that are never learnt\<close>

lemma drains_elsewhere:
  assumes "(drain nm from_str env S)\<^sup>*\<^sup>* c c'" and "Q (cl_nodes c p)"
    and "\<And>n n' st. work_step nm from_str env st n n' \<Longrightarrow> Q n \<Longrightarrow> Q n'"
  shows "Q (cl_nodes c' p)"
  using assms(1)
proof (induction rule: rtranclp_induct)
  case (step c1 c2)
  then show ?case using assms(3) by (auto simp: drain_def update_node_def)
qed (rule assms(2))

lemma drains_reach:
  assumes "(drain nm from_str env S)\<^sup>*\<^sup>* c c'" and "S \<subseteq> P" and "cluster_reach nm from_str env cl P c0 c"
  shows "cluster_reach nm from_str env cl P c0 c'"
  using assms(1)
proof (induction rule: rtranclp_induct)
  case (step c1 c2)
  then show ?case using assms(2) by (auto simp: drain_def intro: cluster_reach.step cluster_step.work)
qed (rule assms(3))

text \<open>Without messages, watch events and a pending sync, the cache does not change.\<close>

definition settled_cache :: "('p, 'a) cnode \<Rightarrow> bool" where
  "settled_cache n \<longleftrightarrow> cn_machine_watch n = Some [] \<and> cn_mailbox n = [] \<and> \<not> cn_sync_pending n"

lemma settled_cache_work:
  assumes "work_step nm from_str env st n n'" and "settled_cache n"
  shows "settled_cache n' \<and> specs_of (cn_node n') = specs_of (cn_node n)"
  using assms
proof (cases rule: work_step.cases)
  case bridge
  with assms(2) show ?thesis using bridge_steps_specs [of 1 nm] by (simp add: settled_cache_def)
next
  case (rebalance n')
  then show ?thesis using manager_does_quiet [OF rebalance(4)] assms(2) by (simp add: settled_cache_def)
qed (auto simp: settled_cache_def)

text \<open>
  C32. A registration in the gap before the watch is never learnt: when a node has made its range request
  but not yet opened its watch, and another node registers in between, the first node opens its watch
  (from the current revision) and goes on with nothing pending and a membership that lacks the other
  node, although it is registered; and no work of the nodes changes that.
\<close>

theorem registration_gap:
  assumes "cluster_reach nm from_str env cl P (cluster_init nm cl cfg addr name) c"
    and "libraries_ok nm env P" and "p \<in> P" and "q \<in> P" and "q \<noteq> p"
    and "ct_pc (cn_controller (cl_nodes c p)) = At_Enter"
    and "q \<notin> dp_known_peers (ct_phases (cn_controller (cl_nodes c p)))"
    and "cl_nodes c q = cnode_init nm cl cfg q (addr q) (name q)"
    and "de_to_json env \<lparr>md_multiaddr = de_show_addr env (addr q), md_meta = Map.empty, md_shard = 0\<rparr> = Inr v"
  shows "\<exists>c1. cluster_reach nm from_str env cl P c c1 \<and>
    ct_pc (cn_controller (cl_nodes c1 p)) = At_Loop \<and> cn_peer_watch (cl_nodes c1 p) = Some [] \<and>
    (\<forall>c'. (drain nm from_str env S)\<^sup>*\<^sup>* c1 c' \<longrightarrow>
       q \<in> registered env cl (cl_store c') \<and>
       q \<notin> dp_known_peers (ct_phases (cn_controller (cl_nodes c' p))))"
proof -
  let ?key = "peer_key env cl q" and ?k = "(cn_controller (cl_nodes c p))\<lparr>ct_pc := At_Loop\<rparr>"
  have lib: "parsers_ok env" using assms(2) by (simp add: libraries_ok_def)
  obtain kq where r: "cluster_reach nm from_str env cl P c
      (etcd_change env ?key (Some v) (update_node q ((cl_nodes c q)\<lparr>cn_controller := kq\<rparr>) c))"
    using node_registers [OF cluster_reach.start assms(4,8,9)] by blast
  define c0 where "c0 = etcd_change env ?key (Some v) (update_node q ((cl_nodes c q)\<lparr>cn_controller := kq\<rparr>) c)"
  define n where "n = (advance ?k (cl_nodes c0 p))\<lparr>cn_peer_watch := Some []\<rparr>"
  define c1 where "c1 = update_node p n c0"
  have "cn_controller (cl_nodes c0 p) = cn_controller (cl_nodes c p)"
    using assms(5) by (simp add: c0_def etcd_change_def update_node_def observe_def Let_def)
  then have "ctl_step env (In_Watch_Open (Inr ())) (cn_controller (cl_nodes c0 p)) = Some ?k"
    using assms(6) by (simp add: enter_maintenance_def)
  from life_step.enter [OF this, of nm from_str "cl_store c0"]
  have "life_step nm from_str env (cl_store c0) (cl_nodes c0 p) n" by (simp add: n_def)
  then have r1: "cluster_reach nm from_str env cl P c c1"
    unfolding c1_def by (rule cluster_reach.step [OF r [folded c0_def] cluster_step.life [OF assms(3)]])
  have n1: "cn_peer_watch (cl_nodes c1 p) = Some []" "cn_controller (cl_nodes c1 p) = ?k"
    by (simp_all add: c1_def n_def update_node_def)
  have reg: "q \<in> registered env cl (cl_store c1)"
    by (simp add: c1_def c0_def update_node_def etcd_change_def registered_update [OF lib])
  have "q \<in> registered env cl (cl_store c') \<and> q \<notin> dp_known_peers (ct_phases (cn_controller (cl_nodes c' p)))"
    if d: "(drain nm from_str env S)\<^sup>*\<^sup>* c1 c'" for c'
  proof -
    have "cn_peer_watch (cl_nodes c' p) = Some [] \<and> cn_controller (cl_nodes c' p) = ?k"
      by (rule drains_elsewhere [OF d]) (auto simp: n1 elim!: work_step.cases)
    then show ?thesis using assms(7) reg drains_store [OF d] by simp
  qed
  with r1 n1 show ?thesis by (intro exI [of _ c1]) simp
qed

theorem registration_gap_witness:
  "\<exists>c1 :: (string, string) cluster.
    (\<forall>c'. (drain sample_naming sample_parser sample_disc_env {sample_peer CHR ''a''})\<^sup>*\<^sup>* c1 c' \<longrightarrow>
       sample_peer CHR ''b'' \<in> registered sample_disc_env ''c'' (cl_store c') \<and>
       sample_peer CHR ''b'' \<notin> dp_known_peers (ct_phases (cn_controller (cl_nodes c' (sample_peer CHR ''a'')))))"
proof -
  let ?p = "sample_peer CHR ''a''" and ?q = "sample_peer CHR ''b''"
  let ?init = "cluster_init sample_naming ''c'' network_config_default id id"
  have lib: "libraries_ok sample_naming sample_disc_env {?p, ?q}"
    using sample_libraries by (simp add: libraries_ok_def sliceable_sample_peer)
  have pq: "?q \<noteq> ?p" by (simp add: sample_peer_def)
  obtain c k where c: "cluster_reach sample_naming sample_parser sample_disc_env ''c'' {?p, ?q} ?init c"
    "cl_nodes c ?p = advance k (cnode_init sample_naming ''c'' network_config_default ?p (id ?p) (id ?p))"
    "\<forall>q. q \<noteq> ?p \<longrightarrow> cl_nodes c q = cnode_init sample_naming ''c'' network_config_default q (id q) (id q)"
    "ct_pc k = At_Enter" "dp_known_peers (ct_phases k) = {?p}"
    using boot_converged [of sample_naming sample_disc_env "{?p, ?q}" ?p id, OF lib _ sample_json] by blast
  have q: "cl_nodes c ?q = cnode_init sample_naming ''c'' network_config_default ?q (id ?q) (id ?q)"
    using c(3) pq by blast
  have "\<exists>c1. cluster_reach sample_naming sample_parser sample_disc_env ''c'' {?p, ?q} c c1 \<and>
      ct_pc (cn_controller (cl_nodes c1 ?p)) = At_Loop \<and> cn_peer_watch (cl_nodes c1 ?p) = Some [] \<and>
      (\<forall>c'. (drain sample_naming sample_parser sample_disc_env {?p})\<^sup>*\<^sup>* c1 c' \<longrightarrow>
         ?q \<in> registered sample_disc_env ''c'' (cl_store c') \<and>
         ?q \<notin> dp_known_peers (ct_phases (cn_controller (cl_nodes c' ?p))))"
    by (rule registration_gap [OF c(1) lib _ _ pq _ _ q sample_json]) (use pq in \<open>simp_all add: c(2,4,5)\<close>)
  then show ?thesis by blast
qed

text \<open>The watch is lost, a machine is put and the watch is opened again.\<close>

lemma machine_gap_run:
  assumes "p \<in> P" and "quiescent (cl_nodes c p)"
  shows "\<exists>c1. (\<forall>c0. cluster_reach nm from_str env cl P c0 c \<longrightarrow> cluster_reach nm from_str env cl P c0 c1) \<and>
    cl_store c1 = (cl_store c)(MACHINES_PREFIX @ i \<mapsto> j) \<and> quiescent (cl_nodes c1 p) \<and>
    cn_node (cl_nodes c1 p) = cn_node (cl_nodes c p)"
proof -
  let ?lost = "\<lambda>n. n\<lparr>cn_machine_watch := None, cn_machines_intact := False\<rparr>"
  define ca where "ca = update_node p (?lost (cl_nodes c p)) c"
  define cb where "cb = etcd_change env (MACHINES_PREFIX @ i) (Some j) ca"
  define c1 where "c1 = update_node p ((cl_nodes cb p)\<lparr>cn_machine_watch := Some []\<rparr>) cb"
  have "cn_machine_watch (cl_nodes c p) = Some []" using assms(2) by (simp add: quiescent_def)
  then have ra: "cluster_step nm from_str env cl P c ca"
    unfolding ca_def by (rule cluster_step.life [OF assms(1) life_step.machines_lost])
  have rb: "cluster_step nm from_str env cl P ca cb" unfolding cb_def by (rule cluster_step.machine) simp
  have "cn_machine_watch (cl_nodes cb p) = None"
    by (simp add: cb_def ca_def etcd_change_def update_node_def observe_def Let_def)
  then have rc: "cluster_step nm from_str env cl P cb c1"
    unfolding c1_def by (intro cluster_step.life [OF assms(1) life_step.machines_opened])
  have "cluster_reach nm from_str env cl P c0 c1" if "cluster_reach nm from_str env cl P c0 c" for c0
    using that by (blast intro: cluster_reach.step ra rb rc)
  moreover have "cn_node (cl_nodes c1 p) = cn_node (cl_nodes c p)" "quiescent (cl_nodes c1 p)"
    using assms(2)
    by (simp_all add: quiescent_def c1_def cb_def ca_def etcd_change_def update_node_def observe_def Let_def)
  moreover have "cl_store c1 = (cl_store c)(MACHINES_PREFIX @ i \<mapsto> j)"
    by (simp add: c1_def cb_def ca_def update_node_def etcd_change_def)
  ultimately show ?thesis by blast
qed

text \<open>
  C33. A machine put while the watch was down is never learnt: when the machine watch of a settled node
  is lost, a machine is put, and the watch is opened again (from the current revision, with no further
  sync), the node has nothing pending and neither the spec nor an actor of the machine, and no work of
  the nodes changes that, whoever owns the machine.
\<close>

theorem machine_watch_gap:
  assumes "cluster_reach nm from_str env cl P (cluster_init nm cl cfg addr name) c"
    and "libraries_ok nm env P" and "p \<in> P" and "S \<subseteq> P"
    and "healthy (cl_nodes c p)" and "quiescent (cl_nodes c p)" and "cl_store c (MACHINES_PREFIX @ i) = None"
  shows "\<exists>c1. cluster_reach nm from_str env cl P c c1 \<and> quiescent (cl_nodes c1 p) \<and>
    (\<forall>c'. (drain nm from_str env S)\<^sup>*\<^sup>* c1 c' \<longrightarrow>
       cl_store c' (MACHINES_PREFIX @ i) = Some j \<and>
       mg_machine_specs (nd_manager (cn_node (cl_nodes c' p))) i = None \<and>
       mg_actors (nd_manager (cn_node (cl_nodes c' p))) i = None)"
proof -
  obtain c1 where steps: "\<And>c0. cluster_reach nm from_str env cl P c0 c \<Longrightarrow> cluster_reach nm from_str env cl P c0 c1"
    and c1: "cl_store c1 = (cl_store c)(MACHINES_PREFIX @ i \<mapsto> j)" "quiescent (cl_nodes c1 p)"
      "cn_node (cl_nodes c1 p) = cn_node (cl_nodes c p)"
    using machine_gap_run [OF assms(3,6), of nm from_str env cl i j] by blast
  have "machines_follow (cl_store c) (cl_nodes c p)"
    using cluster_reach_inv [OF assms(1,2)] assms(3) by (simp add: cluster_inv_def node_inv_def)
  from quiescent_cache [OF this assms(5,6)] assms(7)
  have none: "specs_of (cn_node (cl_nodes c1 p)) i = None" by (simp add: c1(3))
  have "cl_store c' (MACHINES_PREFIX @ i) = Some j \<and> specs_of (cn_node (cl_nodes c' p)) i = None \<and>
      mg_actors (nd_manager (cn_node (cl_nodes c' p))) i = None"
    if d: "(drain nm from_str env S)\<^sup>*\<^sup>* c1 c'" for c'
  proof -
    have "specs_of (cn_node (cl_nodes c' p)) i = None \<and> settled_cache (cl_nodes c' p)"
      by (rule drains_elsewhere [OF d])
        (use none c1(2) in \<open>auto simp: settled_cache_def quiescent_def dest: settled_cache_work\<close>)
    moreover have "cluster_inv nm from_str env cl P c'"
      by (rule cluster_reach_inv [OF drains_reach [OF d assms(4) steps [OF assms(1)]] assms(2)])
    then have "wired nm from_str cl P p (cl_nodes c' p)" using assms(3) by (simp add: cluster_inv_def node_inv_def)
    from wiredD(5) [OF this] have "mgr_ok (nd_manager (cn_node (cl_nodes c' p)))" by (simp add: node_ok_def)
    ultimately show ?thesis using c1(1) drains_store [OF d] by (auto simp: mgr_ok_def)
  qed
  with steps [OF cluster_reach.start] c1(2) show ?thesis by (intro exI [of _ c1]) simp
qed

theorem machine_watch_gap_witness:
  "\<exists>c1 :: (string, string) cluster.
    (\<forall>c'. (drain sample_naming sample_parser sample_disc_env {sample_peer CHR ''a''})\<^sup>*\<^sup>* c1 c' \<longrightarrow>
       cl_store c' (MACHINES_PREFIX @ ''m2'') = Some ''{}'' \<and>
       mg_actors (nd_manager (cn_node (cl_nodes c' (sample_peer CHR ''a'')))) ''m2'' = None)"
proof -
  let ?p = "sample_peer CHR ''a''"
  let ?R = "cluster_reach sample_naming sample_parser sample_disc_env ''c'' {?p}
    (cluster_init sample_naming ''c'' network_config_default id id)"
  let ?D = "drain sample_naming sample_parser sample_disc_env {?p}"
  obtain c0 where c0: "?R c0"
    "cl_store c0 = [peer_key sample_disc_env ''c'' ?p \<mapsto> ?p, MACHINES_PREFIX @ ''m1'' \<mapsto> ''{}'']"
    "healthy (cl_nodes c0 ?p)"
    using sample_boot by blast
  obtain c where d: "?D\<^sup>*\<^sup>* c0 c" "\<not> (\<exists>c'. ?D c c')"
    using drain_ends [of "{?p}" sample_naming sample_parser sample_disc_env c0] by auto
  have c: "?R c \<and> (\<forall>p\<in>{?p}. healthy (cl_nodes c p))"
    by (rule drains_keep [OF sample_libraries _ c0(1) _ d(1)]) (simp_all add: c0(3))
  have quiet: "quiescent (cl_nodes c ?p)"
    using drained_quiescent [OF sample_libraries conjunct1 [OF c] subset_refl _ _ d(2)] c by simp
  have none: "cl_store c (MACHINES_PREFIX @ ''m2'') = None"
    unfolding drains_store [OF d(1)] c0(2) by (simp add: peer_key_def peers_prefix_def MACHINES_PREFIX_def)
  have "\<exists>c1. cluster_reach sample_naming sample_parser sample_disc_env ''c'' {?p} c c1 \<and>
      quiescent (cl_nodes c1 ?p) \<and>
      (\<forall>c'. ?D\<^sup>*\<^sup>* c1 c' \<longrightarrow> cl_store c' (MACHINES_PREFIX @ ''m2'') = Some ''{}'' \<and>
         mg_machine_specs (nd_manager (cn_node (cl_nodes c' ?p))) ''m2'' = None \<and>
         mg_actors (nd_manager (cn_node (cl_nodes c' ?p))) ''m2'' = None)"
    by (rule machine_watch_gap [OF conjunct1 [OF c] sample_libraries _ subset_refl _ quiet none])
      (use c in simp_all)
  then show ?thesis by blast
qed

end
