(* ===== verification/Cluster_Failures.thy ===== *)
theory Cluster_Failures
  imports Cluster_Properties
begin

text \<open>
  Runs in which a failure of the connection to etcd does lasting damage: the discovery watch of a node
  breaks and the changes it had not delivered are never learnt; the lease of a lone node expires and its
  manager panics for want of an owner. Both say what holds in every continuation of the run.
\<close>

section \<open>Runs of a single node\<close>

lemma reach_work:
  "cluster_reach nm from_str env cl P c0 c \<Longrightarrow> p \<in> P \<Longrightarrow> work_step nm from_str env (cl_store c) (cl_nodes c p) n \<Longrightarrow>
     cluster_reach nm from_str env cl P c0 (update_node p n c)"
  by (blast intro: cluster_reach.step cluster_step.work)

lemma update_node_simps [simp]:
  "cl_nodes (update_node p n c) p = n" "q \<noteq> p \<Longrightarrow> cl_nodes (update_node p n c) q = cl_nodes c q"
  "cl_store (update_node p n c) = cl_store c"
  by (simp_all add: update_node_def)

lemma etcd_change_simps [simp]:
  "cl_nodes (etcd_change env key v c) q = observe env key v (cl_nodes c q)"
  "cl_store (etcd_change env key v c) = (cl_store c)(key := v)"
  by (simp_all add: etcd_change_def)

section \<open>A broken discovery watch\<close>

text \<open>A watch that has broken is opened again without reading what has changed, and stays so.\<close>

definition unaware :: "'p \<Rightarrow> ('p, 'a) cnode \<Rightarrow> bool" where
  "unaware q n \<longleftrightarrow>
     (ct_pc (cn_controller n) = At_Loop \<or> (\<exists>r. ct_pc (cn_controller n) = Returned r)) \<and>
     cn_peer_watch n \<in> {None, Some []} \<and> q \<notin> dp_known_peers (ct_phases (cn_controller n))"

lemma unaware_work: "work_step nm from_str env st n n' \<Longrightarrow> unaware q n \<Longrightarrow> unaware q n'"
  by (erule work_step.cases) (auto simp: unaware_def)

lemma broken_watch_phases:
  "ctl_step env (In_Watch msg r) c = Some c' \<Longrightarrow> \<forall>es. msg \<noteq> Watch_Response False es \<Longrightarrow>
     ct_phases c' = ct_phases c \<and> (ct_pc c' = At_Loop \<or> (\<exists>r. ct_pc c' = Returned r))"
  by (cases msg) (auto split: if_splits sum.splits)

lemma unaware_life: "life_step nm from_str env st n n' \<Longrightarrow> unaware q n \<Longrightarrow> unaware q n'"
proof (induction rule: life_step.induct)
  case (peers_broken msg r n c')
  then show ?case using broken_watch_phases [OF peers_broken(2)] by (auto simp: unaware_def)
next
  case (peers_ended r n c')
  then show ?case using broken_watch_phases [OF peers_ended(1)] by (auto simp: unaware_def)
next
  case (shutdown i rv n c')
  then have "ct_phases c' = ct_phases (cn_controller n) \<or>
      ct_phases c' = send_swarm Cmd_Shutdown (ct_phases (cn_controller n))" and "\<exists>r. ct_pc c' = Returned r"
    by (auto simp: shutdown_def Let_def split: if_splits option.splits prod.splits sum.splits)
  then have "dp_known_peers (ct_phases c') = dp_known_peers (ct_phases (cn_controller n))" and "\<exists>r. ct_pc c' = Returned r" by auto
  with shutdown show ?case by (auto simp: unaware_def)
qed (auto simp: unaware_def split: if_splits)

lemma quiet_run_unaware:
  "quiet_run nm from_str env P c0 k c \<Longrightarrow> unaware q (cl_nodes c0 p) \<Longrightarrow>
     unaware q (cl_nodes c p) \<and> cl_store c = cl_store c0"
proof (induction rule: quiet_run.induct)
  case (work k c p' n')
  then show ?case using unaware_work by (cases "p' = p") auto
next
  case (life k c p' n')
  then show ?case using unaware_life by (cases "p' = p") auto
qed simp

lemma node_registers_elsewhere:
  assumes "p \<noteq> q" and "q \<in> P" and "cl_nodes c q = cnode_init nm cl cfg q a name" and "parsers_ok env"
    and "de_to_json env \<lparr>md_multiaddr = de_show_addr env a, md_meta = Map.empty, md_shard = 0\<rparr> = Inr v"
  shows "\<exists>c0. cluster_reach nm from_str env cl P c c0 \<and> q \<in> registered env cl (cl_store c0) \<and>
    cn_controller (cl_nodes c0 p) = cn_controller (cl_nodes c p)"
proof -
  obtain kq where "cluster_reach nm from_str env cl P c
      (etcd_change env (peer_key env cl q) (Some v) (update_node q ((cl_nodes c q)\<lparr>cn_controller := kq\<rparr>) c))"
    using node_registers [OF cluster_reach.start assms(2,3,5)] by blast
  with assms(1) show ?thesis
    by (intro exI [of _ "etcd_change env (peer_key env cl q) (Some v) (update_node q ((cl_nodes c q)\<lparr>cn_controller := kq\<rparr>) c)"])
      (simp add: registered_update [OF assms(4)] observe_def Let_def)
qed

text \<open>
  C35. No resynchronisation after a broken watch: while the discovery watch of a node in its loop is open,
  another node registers; before the node has read that event its watch ends, fails or is cancelled, and
  where the code reopens it, it is reopened from the current revision. From then on, whatever the nodes do
  as long as etcd does not change, including further reconnections, the other node is registered and the
  first node does not know it: the events of the broken watch are lost and the peers are not fetched again.
  After the end of the stream the watch is not even reopened.
\<close>

theorem broken_watch_not_resynced:
  assumes "libraries_ok nm env P" and "p \<in> P" and "q \<in> P" and "p \<noteq> q"
    and "ct_pc (cn_controller (cl_nodes c p)) = At_Loop"
    and "q \<notin> dp_known_peers (ct_phases (cn_controller (cl_nodes c p)))"
    and "cl_nodes c q = cnode_init nm cl cfg q a name"
    and "de_to_json env \<lparr>md_multiaddr = de_show_addr env a, md_meta = Map.empty, md_shard = 0\<rparr> = Inr v"
    and "msg = Watch_End \<or> msg = Watch_Error e \<or> msg = Watch_Response True es"
  shows "\<exists>c1. cluster_reach nm from_str env cl P c c1 \<and> ct_pc (cn_controller (cl_nodes c1 p)) = At_Loop \<and>
    cn_peer_watch (cl_nodes c1 p) = (if msg = Watch_End then None else Some []) \<and>
    (\<forall>k c'. quiet_run nm from_str env P c1 k c' \<longrightarrow>
       q \<in> registered env cl (cl_store c') \<and> q \<notin> dp_known_peers (ct_phases (cn_controller (cl_nodes c' p))))"
proof -
  have lib: "parsers_ok env" using assms(1) by (simp add: libraries_ok_def)
  obtain c0 where r: "cluster_reach nm from_str env cl P c c0" and reg: "q \<in> registered env cl (cl_store c0)"
    and ctl: "cn_controller (cl_nodes c0 p) = cn_controller (cl_nodes c p)"
    using node_registers_elsewhere [OF assms(4,3,7) lib assms(8)] by blast
  let ?k = "cn_controller (cl_nodes c0 p)" and ?w = "if msg = Watch_End then None else Some []"
  let ?n = "(cl_nodes c0 p)\<lparr>cn_peer_watch := ?w, cn_peers_intact := False\<rparr>"
  let ?c1 = "update_node p ?n c0"
  have "ctl_step env (In_Watch msg (Inr ())) ?k = Some ?k"
    using assms(5,9) ctl by (intro broken_watch_keeps) auto
  then have "life_step nm from_str env (cl_store c0) (cl_nodes c0 p) ?n"
    using life_step.peers_broken [of msg env "Inr ()" "cl_nodes c0 p" ?k nm from_str "cl_store c0"]
      life_step.peers_ended [of env "Inr ()" "cl_nodes c0 p" ?k nm from_str "cl_store c0"] assms(9)
    by (auto simp: advance_same)
  then have "cluster_reach nm from_str env cl P c ?c1"
    by (rule cluster_reach.step [OF r cluster_step.life [OF assms(2)]])
  moreover have un: "unaware q (cl_nodes ?c1 p)" using assms(5,6) ctl by (simp add: unaware_def)
  have "q \<in> registered env cl (cl_store c') \<and> q \<notin> dp_known_peers (ct_phases (cn_controller (cl_nodes c' p)))"
    if "quiet_run nm from_str env P ?c1 k c'" for k c'
    using quiet_run_unaware [OF that un] reg by (simp add: unaware_def)
  ultimately show ?thesis using assms(5) ctl by (intro exI [of _ ?c1]) simp
qed

theorem broken_watch_not_resynced_witness:
  "\<exists>c1 :: (string, string) cluster.
    cluster_reach sample_naming sample_parser sample_disc_env ''c'' {sample_peer CHR ''a'', sample_peer CHR ''b''}
      (cluster_init sample_naming ''c'' network_config_default id id) c1 \<and>
    cn_peer_watch (cl_nodes c1 (sample_peer CHR ''a'')) = Some [] \<and>
    (\<forall>k c'. quiet_run sample_naming sample_parser sample_disc_env {sample_peer CHR ''a'', sample_peer CHR ''b''} c1 k c' \<longrightarrow>
       sample_peer CHR ''b'' \<in> registered sample_disc_env ''c'' (cl_store c') \<and>
       sample_peer CHR ''b'' \<notin> dp_known_peers (ct_phases (cn_controller (cl_nodes c' (sample_peer CHR ''a'')))))"
proof -
  let ?p = "sample_peer CHR ''a''" and ?q = "sample_peer CHR ''b''"
  let ?init = "cluster_init sample_naming ''c'' network_config_default id id"
  have lib: "libraries_ok sample_naming sample_disc_env {?p, ?q}"
    using sample_libraries by (simp add: libraries_ok_def sliceable_sample_peer)
  have pq: "?p \<noteq> ?q" by (simp add: sample_peer_def)
  obtain c where c: "cluster_reach sample_naming sample_parser sample_disc_env ''c'' {?p, ?q} ?init c"
    "healthy (cl_nodes c ?p)" "dp_known_peers (ct_phases (cn_controller (cl_nodes c ?p))) = {?p}"
    "\<forall>q. q \<noteq> ?p \<longrightarrow> cl_nodes c q = cnode_init sample_naming ''c'' network_config_default q (id q) (id q)"
    using boot_healthy [of sample_naming sample_disc_env "{?p, ?q}" ?p id, OF lib _ sample_json] by blast
  have q: "cl_nodes c ?q = cnode_init sample_naming ''c'' network_config_default ?q (id ?q) (id ?q)"
    using c(4) pq by metis
  have "\<exists>c1. cluster_reach sample_naming sample_parser sample_disc_env ''c'' {?p, ?q} c c1 \<and>
      ct_pc (cn_controller (cl_nodes c1 ?p)) = At_Loop \<and>
      cn_peer_watch (cl_nodes c1 ?p) = (if Watch_Error ''reset'' = Watch_End then None else Some []) \<and>
      (\<forall>k c'. quiet_run sample_naming sample_parser sample_disc_env {?p, ?q} c1 k c' \<longrightarrow>
         ?q \<in> registered sample_disc_env ''c'' (cl_store c') \<and>
         ?q \<notin> dp_known_peers (ct_phases (cn_controller (cl_nodes c' ?p))))"
    by (rule broken_watch_not_resynced [where e = "''reset''" and es = "[]", OF lib _ _ pq _ _ q sample_json])
      (use pq c(2,3) in \<open>simp_all add: healthy_def\<close>)
  then show ?thesis using cluster_reach_trans [OF _ c(1)] by auto
qed

section \<open>A lone node whose lease expires\<close>

text \<open>
  The lease of the only registered node expires: it reads the deletion of its own entry, and its
  coordinator's table becomes empty.
\<close>

lemma own_delete_sent:
  assumes "parsers_ok env" and "iteration_order (de_keys env)" and "channel_up (ct_phases c)"
    and "ct_pc c = At_Loop" and "dp_cluster_id (ct_phases c) = cl" and "dp_local_peer_id (ct_phases c) = p"
    and "dp_known_peers (ct_phases c) = {p}"
  shows "\<exists>k. ctl_step env (In_Watch (Watch_Response False [change_event (peer_key env cl p) None]) (Inr ())) c = Some k \<and>
    sent_lists k = sent_lists c @ [[]] \<and> ct_pc k = At_Loop \<and> dp_readiness (ct_phases k) = dp_readiness (ct_phases c)"
proof -
  let ?e = "change_event (peer_key env cl p) None"
  have leave: "decode_event env cl p ?e = Leave p" using decode_change [OF assms(1), of None cl p p] by simp
  have pw: "process_watch_event env (Watch_Response False [?e]) (ct_phases c) =
      (apply_change env (Leave p) (ct_phases c), Inr ())"
    by (simp add: process_events_alt assms(5,6) leave Let_def del: apply_change.simps)
  have keys: "de_keys env {} = []" using iteration_orderD(2) [OF assms(2), of "{}"] by simp
  show ?thesis
    using assms(3,4,7)
    by (simp add: pw del: process_watch_event.simps)
      (simp add: sent_lists_tx tx_of_def notify_sharding_def channel_up_def send_swarm_def keys Let_def
        split: option.splits)
qed

lemma table_emptied:
  assumes "libraries_ok nm env P" and "cluster_reach nm from_str env cl P (cluster_init nm cl cfg addr name) c"
    and "p \<in> P" and "registered env cl (cl_store c) = {p}" and "healthy (cl_nodes c p)" and "quiescent (cl_nodes c p)"
  shows "\<exists>c1. cluster_reach nm from_str env cl P c c1 \<and>
    nd_coordinator (cn_node (cl_nodes c1 p)) = sharding_new nm p [] \<and>
    nd_manager (cn_node (cl_nodes c1 p)) = nd_manager (cn_node (cl_nodes c p)) \<and>
    ct_pc (cn_controller (cl_nodes c1 p)) = At_Loop \<and> dp_readiness (ct_phases (cn_controller (cl_nodes c1 p))) \<and>
    cn_manager_up (cl_nodes c1 p) \<and> cn_machine_watch (cl_nodes c1 p) = Some [] \<and> cn_mailbox (cl_nodes c1 p) = []"
proof -
  let ?n = "cl_nodes c p" and ?key = "peer_key env cl p"
  have lib: "parsers_ok env" "iteration_order (de_keys env)" using assms(1) by (simp_all add: libraries_ok_def)
  have inv: "wired nm from_str cl P p ?n" "peers_follow env cl P p (cl_store c) ?n" "machines_follow (cl_store c) ?n"
    using cluster_reach_inv [OF assms(2,1)] assms(3) by (simp_all add: cluster_inv_def node_inv_def)
  have h: "ct_pc (cn_controller ?n) = At_Loop" "cn_peers_intact ?n" "cn_manager_up ?n"
    using assms(5) inv(3) by (simp_all add: healthy_def machines_follow_def)
  have q: "cn_peer_watch ?n = Some []" "nd_sharding_rx (cn_node ?n) = []" "cn_machine_watch ?n = Some []"
    "cn_mailbox ?n = []" using assms(6) by (simp_all add: quiescent_def)
  have known: "dp_known_peers (ct_phases (cn_controller ?n)) = {p}"
    using peers_followD(4) [OF inv(2) h(2,1)] q(1) assms(4) by simp
  have ready: "dp_readiness (ct_phases (cn_controller ?n))" using wiredD(6) [OF inv(1)] h(1) by (simp add: ctl_ok_def)
  obtain k where k: "ctl_step env (In_Watch (Watch_Response False [change_event ?key None]) (Inr ()))
      (cn_controller ?n) = Some k" "sent_lists k = sent_lists (cn_controller ?n) @ [[]]" "ct_pc k = At_Loop"
    "dp_readiness (ct_phases k) = dp_readiness (ct_phases (cn_controller ?n))"
    using own_delete_sent [OF lib wiredD(7) [OF inv(1)] h(1) wiredD(1,2) [OF inv(1)] known] by blast
  define ca where "ca = etcd_change env ?key None c"
  let ?na = "cl_nodes ca p"
  have na: "cn_controller ?na = cn_controller ?n" "cn_node ?na = cn_node ?n" "cn_manager_up ?na"
    "cn_peer_watch ?na = Some [change_event ?key None]" "cn_machine_watch ?na = Some []" "cn_mailbox ?na = []"
    using wiredD(1,2) [OF inv(1)] q h(3)
    by (simp_all add: ca_def observe_def Let_def peer_key_def MACHINES_PREFIX_def peers_prefix_def has_prefix_def strip_prefix_def)
  have "p \<in> registered env cl (cl_store c)" using assms(4) by simp
  then have ra: "cluster_reach nm from_str env cl P c ca"
    unfolding ca_def by (intro cluster_reach.step [OF cluster_reach.start] cluster_step.expire) (auto simp: registered_def)
  let ?nb = "(advance k ?na)\<lparr>cn_peer_watch := Some []\<rparr>"
  have "work_step nm from_str env (cl_store ca) ?na ?nb"
    using k(1) na(1,4) by (intro work_step.peer_events [of _ "[change_event ?key None]"]) simp_all
  from reach_work [OF ra assms(3) this] have rb: "cluster_reach nm from_str env cl P c (update_node p ?nb ca)" .
  have rx: "nd_sharding_rx (cn_node ?nb) = [[]]" by (simp add: advance_def na(1,2) k(2) q(2))
  let ?nc = "?nb\<lparr>cn_node := bridge_step nm (cn_node ?nb)\<rparr>"
  let ?cc = "update_node p ?nc (update_node p ?nb ca)"
  have "work_step nm from_str env (cl_store (update_node p ?nb ca)) (cl_nodes (update_node p ?nb ca) p) ?nc"
    using work_step.bridge [of ?nb nm from_str env "cl_store ca"] rx by simp
  from reach_work [OF rb assms(3) this] have rc: "cluster_reach nm from_str env cl P c ?cc" .
  obtain peers where "nd_coordinator (cn_node ?n) = sharding_new nm p peers"
    using table_known [OF inv(1) h(2) assms(3), of 0] by auto
  then have "nd_coordinator (bridge_step nm (cn_node ?nb)) = sharding_new nm p []"
    using rx by (simp add: bridge_step_def na(2) topology_changed_new) (simp add: sharding_new_def)
  with rc k ready na(2,3,5,6) show ?thesis by (intro exI [of _ ?cc]) simp
qed

text \<open>A machine with a local actor is then written again.\<close>

lemma empty_table_panics:
  assumes "\<And>p. p \<in> P \<Longrightarrow> sliceable nm p" and "nd_coordinator nd = sharding_new nm p []"
    and "mg_actors (nd_manager nd) i \<noteq> None"
  shows "\<exists>nd'. manager_panics nm from_str
    (Etcd_Event \<lparr>ee_machine_id = i, ee_event_type = Put, ee_spec_json = Some j\<rparr>) nd nd'"
proof -
  let ?env = "calm_env nm from_str nd"
  have "hrw_owner nm [] i = None" using hrw_owner_in [of nm "[]" i] by (cases "hrw_owner nm [] i") auto
  then have "me_ask_sharding ?env i = Some \<lparr>lk_machine_id = i, lk_owner_peer = None, lk_is_local = False\<rparr>"
    using ask_coordinator_new [of P nm "[]" p i, OF assms(1)] by (simp add: calm_env_def assms(2))
  from put_panics_without_owner [OF assms(3) this]
  have "mgr_handle (Etcd_Event \<lparr>ee_machine_id = i, ee_event_type = Put, ee_spec_json = Some j\<rparr>) ?env (nd_manager nd) =
      Inl Slice_Panic" by (simp add: handle_etcd_machine_event_def)
  moreover have "me_naming ?env = nm" "me_ask_sharding ?env = ask_coordinator nm (nd_coordinator nd)"
    by (simp_all add: calm_env_def)
  ultimately show ?thesis
    using calm_handler_env [of nm from_str nd] unfolding manager_panics_def
    by (intro exI [of _ "(bridge_step nm ^^ 0) (nd\<lparr>nd_manager :=
          manager_new (mg_local_peer_id (nd_manager nd)) (mg_node_id (nd_manager nd))\<rparr>)"] exI [of _ 0] exI [of _ ?env]
        exI [of _ Slice_Panic] conjI) auto
qed

lemma put_kills_manager:
  assumes "libraries_ok nm env P" and "p \<in> P" and "nd_coordinator (cn_node (cl_nodes c p)) = sharding_new nm p []"
    and "mg_actors (nd_manager (cn_node (cl_nodes c p))) i \<noteq> None" and "cn_manager_up (cl_nodes c p)"
    and "cn_machine_watch (cl_nodes c p) = Some []" and "cn_mailbox (cl_nodes c p) = []"
  shows "\<exists>c1. cluster_reach nm from_str env cl P c c1 \<and> cl_store c1 = (cl_store c)(MACHINES_PREFIX @ i \<mapsto> j) \<and>
    \<not> cn_manager_up (cl_nodes c1 p) \<and> cn_controller (cl_nodes c1 p) = cn_controller (cl_nodes c p)"
proof -
  let ?m = "\<lparr>ee_machine_id = i, ee_event_type = Put, ee_spec_json = Some j\<rparr>"
  define ca where "ca = etcd_change env (MACHINES_PREFIX @ i) (Some j) c"
  let ?na = "cl_nodes ca p"
  have "has_prefix MACHINES_PREFIX (MACHINES_PREFIX @ i)" by (auto simp: machines_prefix_iff)
  then have na: "cn_machine_watch ?na = Some [change_event (MACHINES_PREFIX @ i) (Some j)]" "cn_mailbox ?na = []"
    "cn_node ?na = cn_node (cl_nodes c p)" "cn_manager_up ?na" "cn_controller ?na = cn_controller (cl_nodes c p)"
    using assms(5-7) by (simp_all add: ca_def observe_def Let_def)
  have ra: "cluster_reach nm from_str env cl P c ca"
    unfolding ca_def by (intro cluster_reach.step [OF cluster_reach.start] cluster_step.machine) simp
  let ?nb = "?na\<lparr>cn_machine_watch := Some [], cn_mailbox := [?m]\<rparr>"
  let ?cb = "update_node p ?nb ca"
  have "work_step nm from_str env (cl_store ca) ?na ?nb"
    using work_step.forward [OF na(1), of nm from_str env "cl_store ca"] na(2) by simp
  from reach_work [OF ra assms(2) this] have rb: "cluster_reach nm from_str env cl P c ?cb" .
  obtain nd where nd: "manager_panics nm from_str (Etcd_Event ?m) (cn_node (cl_nodes c p)) nd"
    using empty_table_panics [of P nm _ p i from_str j, OF _ assms(3,4)] assms(1) by (auto simp: libraries_ok_def)
  let ?nc = "?nb\<lparr>cn_mailbox := [], cn_node := nd, cn_manager_up := False, cn_machines_intact := False\<rparr>"
  have "work_step nm from_str env (cl_store ?cb) (cl_nodes ?cb p) ?nc"
    using work_step.event_panic [of ?nb ?m "[]" nm from_str nd env "cl_store ca"] na(3,4) nd by simp
  from reach_work [OF rb assms(2) this] have "cluster_reach nm from_str env cl P c (update_node p ?nc ?cb)" .
  moreover have "cl_store ca = (cl_store c)(MACHINES_PREFIX @ i \<mapsto> j)" by (simp add: ca_def)
  ultimately show ?thesis using na(5) by (intro exI [of _ "update_node p ?nc ?cb"]) simp
qed

text \<open>A manager that is down stays down.\<close>

lemma manager_stays_down:
  assumes "cluster_reach nm from_str env cl P c c'" and "\<not> cn_manager_up (cl_nodes c p)"
  shows "\<not> cn_manager_up (cl_nodes c' p)"
  using assms
proof (induction rule: cluster_reach.induct)
  case (step c1 c2)
  have "work_step nm from_str env st n n' \<or> life_step nm from_str env st n n' \<Longrightarrow> \<not> cn_manager_up n \<Longrightarrow> \<not> cn_manager_up n'"
    for st n n' by (elim disjE work_step.cases life_step.cases) auto
  with step show ?case
    by (cases rule: cluster_step.cases [OF step(2)]) (auto simp: update_node_def)
qed

text \<open>
  C36. A lone node whose lease expires loses its manager for good: when the only registered node is
  healthy, has nothing pending and runs an actor for a machine, and then its lease expires, it hands an
  empty peer list to its coordinator; if now the machine's entry is written again before the rebalance,
  the manager asks for the owner of a machine it runs, is told there is none, and panics on slicing
  \<^verbatim>\<open>"unknown"\<close>. The node's controller goes on in its loop and the node stays ready; but in every state
  that can ever follow, with any joins, machine changes and watch restarts, its manager is down and it
  runs no actor.
\<close>

theorem lone_node_loses_manager:
  assumes "libraries_ok nm env P" and "cluster_reach nm from_str env cl P (cluster_init nm cl cfg addr name) c"
    and "p \<in> P" and "registered env cl (cl_store c) = {p}" and "healthy (cl_nodes c p)" and "quiescent (cl_nodes c p)"
    and "mg_actors (nd_manager (cn_node (cl_nodes c p))) i \<noteq> None"
  shows "\<exists>c1. cluster_reach nm from_str env cl P c c1 \<and> cl_store c1 (MACHINES_PREFIX @ i) = Some j \<and>
    ct_pc (cn_controller (cl_nodes c1 p)) = At_Loop \<and> dp_readiness (ct_phases (cn_controller (cl_nodes c1 p))) \<and>
    (\<forall>c'. cluster_reach nm from_str env cl P c1 c' \<longrightarrow>
       \<not> cn_manager_up (cl_nodes c' p) \<and> mg_actors (nd_manager (cn_node (cl_nodes c' p))) = Map.empty)"
proof -
  obtain c2 where c2: "cluster_reach nm from_str env cl P c c2"
    "nd_coordinator (cn_node (cl_nodes c2 p)) = sharding_new nm p []"
    "nd_manager (cn_node (cl_nodes c2 p)) = nd_manager (cn_node (cl_nodes c p))"
    "ct_pc (cn_controller (cl_nodes c2 p)) = At_Loop" "dp_readiness (ct_phases (cn_controller (cl_nodes c2 p)))"
    "cn_manager_up (cl_nodes c2 p)" "cn_machine_watch (cl_nodes c2 p) = Some []" "cn_mailbox (cl_nodes c2 p) = []"
    using table_emptied [OF assms(1-6)] by blast
  obtain c1 where c1: "cluster_reach nm from_str env cl P c2 c1"
    "cl_store c1 = (cl_store c2)(MACHINES_PREFIX @ i \<mapsto> j)" "\<not> cn_manager_up (cl_nodes c1 p)"
    "cn_controller (cl_nodes c1 p) = cn_controller (cl_nodes c2 p)"
    using put_kills_manager [OF assms(1,3) c2(2) _ c2(6-8), of i from_str cl j] assms(7) c2(3) by auto
  have "\<not> cn_manager_up (cl_nodes c' p) \<and> mg_actors (nd_manager (cn_node (cl_nodes c' p))) = Map.empty"
    if r: "cluster_reach nm from_str env cl P c1 c'" for c'
  proof
    show down: "\<not> cn_manager_up (cl_nodes c' p)" by (rule manager_stays_down [OF r c1(3)])
    have "cluster_reach nm from_str env cl P (cluster_init nm cl cfg addr name) c'"
      using cluster_reach_trans [OF r cluster_reach_trans [OF c1(1) cluster_reach_trans [OF c2(1) assms(2)]]] .
    from cluster_reach_inv [OF this assms(1)] down assms(3)
    show "mg_actors (nd_manager (cn_node (cl_nodes c' p))) = Map.empty"
      by (simp add: cluster_inv_def node_inv_def manager_empty_def)
  qed
  with cluster_reach_trans [OF c1(1) c2(1)] c1(2,4) c2(4,5) show ?thesis by (intro exI [of _ c1]) simp
qed

theorem lone_node_loses_manager_witness:
  "\<exists>c1 :: (string, string) cluster.
    cluster_reach sample_naming sample_parser sample_disc_env ''c'' {sample_peer CHR ''a''}
      (cluster_init sample_naming ''c'' network_config_default id id) c1 \<and>
    cl_store c1 (MACHINES_PREFIX @ ''m1'') = Some ''{}'' \<and>
    \<not> cn_manager_up (cl_nodes c1 (sample_peer CHR ''a''))"
proof -
  let ?p = "sample_peer CHR ''a''"
  let ?R = "cluster_reach sample_naming sample_parser sample_disc_env ''c'' {?p}"
  let ?D = "drain sample_naming sample_parser sample_disc_env {?p}"
  let ?init = "cluster_init sample_naming ''c'' network_config_default id id"
  obtain c0 where c0: "?R ?init c0"
    "cl_store c0 = [peer_key sample_disc_env ''c'' ?p \<mapsto> ?p, MACHINES_PREFIX @ ''m1'' \<mapsto> ''{}'']"
    "registered sample_disc_env ''c'' (cl_store c0) = {?p}" "\<forall>p\<in>{?p}. healthy (cl_nodes c0 p)"
    "\<forall>i j. cl_store c0 (MACHINES_PREFIX @ i) = Some j \<longrightarrow> spec_ok sample_parser j"
    using sample_boot by blast
  obtain c where d: "?D\<^sup>*\<^sup>* c0 c" "\<not> (\<exists>c'. ?D c c')" "cl_store c = cl_store c0" "one_actor_each {?p} c"
    using cluster_drains [OF sample_libraries sample_naming_simps(2) c0(1) c0(3) [symmetric] insert_not_empty c0(4,5)]
    by blast
  note keep = drains_keep [OF sample_libraries subset_refl c0(1,4) d(1)]
  have quiet: "quiescent (cl_nodes c ?p)"
    using drained_quiescent [OF sample_libraries conjunct1 [OF keep] subset_refl _ _ d(2)] keep by simp
  have "cl_store c (MACHINES_PREFIX @ ''m1'') \<noteq> None" by (simp add: d(3) c0(2))
  then have actor: "mg_actors (nd_manager (cn_node (cl_nodes c ?p))) ''m1'' \<noteq> None"
    using d(4) unfolding one_actor_each_def by (metis singletonD)
  have r: "?R ?init c" and h: "healthy (cl_nodes c ?p)" using keep by simp_all
  obtain c1 where c1: "?R c c1" "cl_store c1 (MACHINES_PREFIX @ ''m1'') = Some ''{}''"
    "\<And>c'. ?R c1 c' \<Longrightarrow> \<not> cn_manager_up (cl_nodes c' ?p)"
    using lone_node_loses_manager [OF sample_libraries r _ _ h quiet actor, of "''{}''"] c0(3) d(3) by auto
  from cluster_reach_trans [OF c1(1) r] c1(2) c1(3) [OF cluster_reach.start] show ?thesis by blast
qed

end
