(* ===== verification/Spec2Isabelle.thy ===== *)
theory Spec2Isabelle
  imports Operator_Run Swarm Hosts Startup Cluster_Failures
begin

text \<open>
  Verification of neolaas, a system that keeps one actor per bare-metal machine on a cluster of server
  nodes. The sources are under \<^verbatim>\<open>crates/neolaas-server/src\<close> (the server; \<^verbatim>\<open>network/\<close>, \<^verbatim>\<open>api/\<close>,
  \<^verbatim>\<open>observability/\<close>) and \<^verbatim>\<open>crates/neolaas-operator/src\<close> (the Kubernetes operator).

  \<^bold>\<open>The program.\<close> The operator mirrors machine, switch and VLAN resources into etcd. Every server node
  runs a discovery controller that registers the node in etcd under a lease, fetches the other nodes,
  watches for changes, commands the libp2p swarm and sends each new peer list to the sharding
  coordinator. The coordinator assigns machines to peers by rendezvous hashing. The machine manager
  follows the machine entries in etcd and runs an actor for every machine the coordinator assigns to
  its node, rebalancing after each topology change; a machine actor accepts bookings. A ping loop
  watches the health of the peers over the shared network state, and an HTTP interface reports.

  \<^bold>\<open>The theories.\<close>
    \<^item> \<open>Rust_Prelude\<close>: what the sources use of Rust's standard library (fixed-width integers, durations,
      string slices and prefixes, parsing and printing of numbers, \<^verbatim>\<open>max_by_key\<close>, panics as the left
      component of a sum, iteration order of hash maps), and the locales \<open>invariant_step\<close> and
      \<open>simulation\<close>, which lift a step lemma to runs.
    \<^item> \<open>Supervision\<close> (\<^verbatim>\<open>observability/supervision.rs\<close>): restart policies and trackers; a sliding window
      of restart times. It refines a limiter that remembers every grant, respects the rate limit in
      every window, and the backoff is computed without wrap-around within stated bounds.
    \<^item> \<open>Observability\<close> (\<^verbatim>\<open>events.rs\<close>, \<^verbatim>\<open>metrics.rs\<close>): the event log and the metrics recorder as a state.
    \<^item> \<open>Rendezvous\<close> (\<^verbatim>\<open>sharding/rendezvous.rs\<close>): the hasher; \<open>hrw_owner\<close> as declarative owner, and the
      locale \<open>placement\<close> with the laws of an ownership function (existence, dependence on the set of
      peers only, minimal disruption), interpreted by the code's lookup as \<open>hrw\<close>.
    \<^item> \<open>Sharding\<close> (\<^verbatim>\<open>sharding/actor.rs\<close>): the coordinator's handlers; exclusive ownership across nodes.
    \<^item> \<open>Machine_Actor\<close> (\<^verbatim>\<open>machines/actor.rs\<close>): the actor with its five handlers and emitted events; a
      refinement of the abstract booking register and a trace invariant of the event log.
    \<^item> \<open>Etcd\<close>: key-value pairs, watch events and messages as the etcd client presents them.
    \<^item> \<open>Machine_Manager\<close> (\<^verbatim>\<open>machines/manager.rs\<close>): every handler of the manager, over an environment that
      holds the coordinator's answers, reachability of the actors, clock and iteration orders. Its
      state invariant, the effect of put, sync and rebalance, and two defects.
    \<^item> \<open>Network_Config\<close> (\<^verbatim>\<open>config.rs\<close>): defaults and reading the environment.
    \<^item> \<open>Network_State\<close> (\<^verbatim>\<open>types/state.rs\<close>, \<^verbatim>\<open>types/peer.rs\<close>): per-peer connection state, backoff, cleanup.
    \<^item> \<open>Health\<close> (\<^verbatim>\<open>health/\<close>): the health actor and the ping loop, with interference by other tasks at
      every await as an input.
    \<^item> \<open>Discovery\<close> (\<^verbatim>\<open>discovery/\<close>): keys and metadata, the four phases and the controller as a state
      machine \<open>ctl_step\<close> whose inputs are the answers of etcd and the signals; \<open>ctl_reach\<close> are its
      reachable states.
    \<^item> \<open>Etcd_Connection\<close> (\<^verbatim>\<open>discovery/etcd.rs\<close>): resolution of the configured endpoints, what the
      channel built from them holds, and the retries of the connection.
    \<^item> \<open>Swarm\<close> (\<^verbatim>\<open>swarm/event_loop.rs\<close>): the event loop and the cleanup loop; calls into libp2p are recorded.
    \<^item> \<open>Api\<close> (\<^verbatim>\<open>api/\<close>, \<^verbatim>\<open>models.rs\<close>, \<^verbatim>\<open>version.rs\<close>, trace contexts): the HTTP handlers as functions of
      the answers they get.
    \<^item> \<open>Node\<close> (\<^verbatim>\<open>init.rs\<close>, \<^verbatim>\<open>spawn_machine_actor_manager_actor\<close>): one node as a step relation over the
      channels between discovery, coordinator and manager.
    \<^item> \<open>Cluster\<close> (the tasks of \<^verbatim>\<open>init.rs\<close>, \<^verbatim>\<open>controller.rs\<close> and \<^verbatim>\<open>manager.rs\<close> on every node, with etcd): the whole
      system as a step relation: registrations and their expiry, machine changes, range requests,
      watches that open, break and reopen, panics of a manager, and every task of every node.
    \<^item> \<open>Cluster_Machines\<close>, \<open>Cluster_Peers\<close>, \<open>Cluster_Invariant\<close>: its invariant. Nothing is lost between
      etcd and a node whose watches have been complete: the cached specs follow the machine entries, the
      membership follows the registrations, the coordinator's table follows the membership.
    \<^item> \<open>Cluster_Convergence\<close>: a measure of the pending work, progress of every healthy node, and what a
      cluster looks like when nothing is pending.
    \<^item> \<open>Cluster_Properties\<close>: convergence to one actor per machine, a bound on the work that is done while
      etcd does not change, and the runs in which a registration or a machine is never learnt.
    \<^item> \<open>Cluster_Failures\<close>: what a broken discovery watch and the expiry of a lone node's lease do for good:
      changes that are never learnt, and a manager that panics and never comes back.
    \<^item> \<open>Startup\<close> (\<^verbatim>\<open>main.rs\<close>, \<^verbatim>\<open>init.rs\<close>, \<^verbatim>\<open>swarm/builder.rs\<close>, \<^verbatim>\<open>behaviour.rs\<close>, \<^verbatim>\<open>tracing.rs\<close>, \<^verbatim>\<open>build.rs\<close>): the
      process from its start to its end as a list of effects in order; what it creates is the initial
      state of a node of \<open>Cluster\<close>, and what its tasks share (actors, readiness flag) is held by reference.
    \<^item> \<open>Hosts\<close> (\<^verbatim>\<open>api/hosts.rs\<close>): the host endpoints, with the points at which requests interleave.
    \<^item> \<open>Operator\<close> (\<^verbatim>\<open>crds/\<close>, \<^verbatim>\<open>etcd/sync.rs\<close>, \<^verbatim>\<open>controllers/\<close>): the resources, the sync to etcd, whose
      requests may fail and yet be carried out, and the three reconcile functions inside of the
      finalizer; the locale \<open>resource_mirror\<close> is proved once and interpreted for machines, switches and
      VLANs.
    \<^item> \<open>Operator_Run\<close> (the operator's \<^verbatim>\<open>main.rs\<close>): start-up and the three controllers side by side.
    \<^item> this theory: what server and operator guarantee together. A machine that the operator applies in a
      running cluster ends up with one actor; the network state follows the membership; operator and
      server agree on entries and bookability.

  \<^bold>\<open>Conventions.\<close> A struct is a record whose fields carry a short prefix, an enum a datatype. Integers
  of the code are words of their width where they are computed with and can wrap (restart and failure
  counters, ping statistics, VLAN identifiers); collection sizes are natural numbers. Durations and
  instants count nanoseconds; each clock reading is an
  argument. A hash map is a partial map, and where the code iterates over one the order is an argument
  constrained only by \<open>iteration_order\<close>. An error returned by \<^verbatim>\<open>?\<close> is the left component of a sum.
  A message handler is a function from the message and the actor's state to the new state and the reply:
  the actor runtime handles one message at a time. Concurrency between tasks is in \<open>node_step\<close> and
  \<open>cluster_step\<close>, in the sequences of \<open>net_step\<close> and \<open>event_loop_step\<close>, and in the interference inputs of the ping loop. The
  bridge task's two actions, updating the coordinator and notifying the manager, are one step: what the
  manager may do between them it may do after both, and a node between them counts as having a
  notification pending. All recursions are total; no fuel is used. The endless loops (ping loop,
  event loops, watch loops) are runs over finite sequences of ticks and inputs of any length.

  \<^bold>\<open>Parameters.\<close> Libraries the sources call are arguments: the 64-bit default hash and the base58 text of
  a peer identifier (\<open>naming\<close>; distinct names and the length of 46 bytes are named hypotheses), JSON
  parsers and printers, the parsers of peer identifiers and multiaddresses (\<open>parsers_ok\<close> says that they
  read what their printers write), the answers of etcd and of remote actors, and what the finalizer
  helper of the kube crate decides and returns.

  \<^bold>\<open>What is relied on of etcd.\<close> \<open>Cluster\<close> rests on three documented guarantees: a range request returns
  the current entries under a prefix; an open watch delivers every later change under its prefix once
  and in order; a watch can end at any time and then delivers nothing more. Peer entries are written by
  registrations and vanish with their lease at any time; everything else in the store changes freely.
  Two history variables of a node record that its view of the registry or of the machines may have
  lost a change (\<open>cn_peers_intact\<close>, \<open>cn_machines_intact\<close>); no step reads them.

  \<^bold>\<open>Not modelled.\<close> Log lines of the \<^verbatim>\<open>tracing\<close> macros, except where evaluating one can panic at start-up;
  what libp2p, kameo, the exporters and the kube runtime do inside: their configuration, answers and
  schedules are values and inputs; the times at which retries and ticks take place; parsing of the
  command line; the unit tests; the command-line tool and the PXE server, which are empty.

  \<^bold>\<open>Limits of what is shown.\<close> One actor per machine is shown for the states in which healthy nodes have
  worked off what was pending; during a change a machine may have no actor or two. A node is healthy
  only as long as its watches have lost nothing and its manager has not panicked; \<open>registration_gap\<close>,
  \<open>machine_watch_gap\<close>, \<open>broken_watch_not_resynced\<close> and \<open>lone_node_loses_manager\<close> show that the code can
  lose changes or its manager and does not recover. A panic of a manager leaves an empty one in the
  model, marked as down; its exported gauge is not followed further. The bound on the work counts steps
  while etcd does not change; it says nothing about time. The operator's mirror is stated by kind and
  name, because resources of one kind and name in two namespaces share an entry. A new actor starts without a booking, so an ownership transfer
  loses the booking. The properties of kind \<^emph>\<open>error\<close> state defects and divergences from the
  documentation as the code has them.
\<close>

section \<open>Membership, network state and the controller\<close>

text \<open>The swarm's commands announce exactly the known peers other than the local one.\<close>

definition swarm_synced :: "('p, 'a) phases \<Rightarrow> bool" where
  "swarm_synced s \<longleftrightarrow>
     dp_swarm_open s \<and>
     (\<forall>q. announced (dp_swarm_tx s) q = {} \<longleftrightarrow> q \<notin> dp_known_peers s \<or> q = dp_local_peer_id s)"

lemma announced_simps [simp]:
  "announced [] = (\<lambda>_. {})" "announced (cs @ [c]) = announce_step c (announced cs)"
  by (simp_all add: announced_def)

lemma decode_event_not_self: "decode_event env cl me e \<noteq> Join me a"
  by (auto simp: decode_event_def decode_put_def split: option.splits event_type.splits prod.splits if_splits)

lemma decode_put_not_self: "decode_put env cl me kv \<noteq> Join me a"
  by (auto simp: decode_put_def split: option.splits prod.splits if_splits)

lemma swarm_synced_notify: "swarm_synced (notify_sharding env s) = swarm_synced s"
  by (simp add: swarm_synced_def)

lemma swarm_synced_shutdown: "swarm_synced s \<Longrightarrow> swarm_synced (send_swarm Cmd_Shutdown s)"
  by (simp add: swarm_synced_def)

lemma swarm_synced_change:
  assumes "swarm_synced s" and "\<And>a. c \<noteq> Join (dp_local_peer_id s) a"
  shows "swarm_synced (apply_change env c s)"
  using assms by (cases c) (auto simp: swarm_synced_def)

lemma swarm_synced_admit:
  assumes "swarm_synced s" and "\<And>a. c \<noteq> Join (dp_local_peer_id s) a"
  shows "swarm_synced (admit c s)"
  using assms by (cases c) (auto simp: swarm_synced_def)

lemma swarm_synced_changes:
  shows "swarm_synced s \<Longrightarrow> (\<And>a. Join (dp_local_peer_id s) a \<notin> set cs) \<Longrightarrow>
    swarm_synced (fold (apply_change env) cs s)"
proof (induction cs arbitrary: s)
  case Nil
  then show ?case by simp
next
  case (Cons c cs)
  have "swarm_synced (apply_change env c s)"
    using Cons.prems by (intro swarm_synced_change) auto
  with Cons.IH [of "apply_change env c s"] Cons.prems(2) show ?case by simp
qed

lemma swarm_synced_admits:
  shows "swarm_synced s \<Longrightarrow> (\<And>a. Join (dp_local_peer_id s) a \<notin> set cs) \<Longrightarrow>
    swarm_synced (fold admit cs s)"
proof (induction cs arbitrary: s)
  case Nil
  then show ?case by simp
next
  case (Cons c cs)
  have "swarm_synced (admit c s)"
    using Cons.prems by (intro swarm_synced_admit) auto
  with Cons.IH [of "admit c s"] Cons.prems(2) show ?case by simp
qed

lemma swarm_synced_watch:
  assumes "swarm_synced s" and "process_watch_event env msg s = (s', r)"
  shows "swarm_synced s'"
proof (cases msg)
  case (Watch_Response canceled events)
  have "Join (dp_local_peer_id s) a \<notin>
      set (wellformed (map (decode_event env (dp_cluster_id s) (dp_local_peer_id s)) events))" for a
    using decode_event_not_self [of env "dp_cluster_id s" "dp_local_peer_id s"]
    by (auto dest!: set_takeWhileD) metis
  from swarm_synced_changes [OF assms(1) this, of env] assms Watch_Response show ?thesis
    by (auto simp: process_events_alt Let_def split: if_splits)
qed (use assms in auto)

lemma swarm_synced_converge:
  assumes "swarm_synced s" and "converge env resp s = (s', r)"
  shows "swarm_synced s'"
proof (cases resp)
  case (Inl e)
  with assms show ?thesis by (simp add: converge_def)
next
  case (Inr kvs)
  let ?cs = "map (decode_put env (dp_cluster_id s) (dp_local_peer_id s)) kvs"
  have "Join (dp_local_peer_id s) a \<notin> set (wellformed ?cs)" for a
    using decode_put_not_self [of env "dp_cluster_id s" "dp_local_peer_id s"]
    by (auto dest!: set_takeWhileD) metis
  note synced = swarm_synced_admits [OF assms(1) this]
  have "swarm_synced (t\<lparr>dp_readiness := True\<rparr>) = swarm_synced t" for t :: "('a, 'b) phases"
    by (simp add: swarm_synced_def)
  with synced assms(2) Inr show ?thesis
    by (auto simp: converge_alt Let_def swarm_synced_notify split: if_splits)
qed

lemma ctl_step_local: "ctl_step env i c = Some c' \<Longrightarrow>
    dp_local_peer_id (ct_phases c') = dp_local_peer_id (ct_phases c)"
proof -
  have "dp_local_peer_id s' = dp_local_peer_id s" if "converge env resp s = (s', r)" for resp s s' r
    using that by (cases resp) (auto simp: converge_def [of _ "Inl _"] converge_alt Let_def split: if_splits)
  moreover have "dp_local_peer_id s' = dp_local_peer_id s" if "process_watch_event env msg s = (s', r)" for msg s s' r
    using that by (cases msg) (auto simp: process_events_alt Let_def split: if_splits)
  ultimately show "ctl_step env i c = Some c' \<Longrightarrow> ?thesis"
    by (cases i) (auto simp: shutdown_def Let_def split: if_splits sum.splits prod.splits option.splits)
qed

lemma swarm_synced_step:
  assumes "ctl_step env i c = Some c'" and "swarm_synced (ct_phases c)"
  shows "swarm_synced (ct_phases c')"
proof (cases i)
  case (In_Peers resp)
  with assms swarm_synced_converge [OF assms(2)] show ?thesis
    by (auto simp: Let_def split: if_splits sum.splits prod.splits)
next
  case (In_Watch msg reopen)
  with assms swarm_synced_watch [OF assms(2)] show ?thesis
    by (auto split: if_splits sum.splits prod.splits)
qed (use assms in \<open>auto simp: shutdown_def Let_def intro: swarm_synced_shutdown
      split: if_splits sum.splits prod.splits option.splits\<close>)


lemma ctl_reach_synced:
  assumes "ctl_reach env c0 c" and "swarm_synced (ct_phases c0)"
  shows "swarm_synced (ct_phases c) \<and> dp_local_peer_id (ct_phases c) = dp_local_peer_id (ct_phases c0)"
  using assms(1)
proof (induction rule: ctl_reach.induct)
  case start
  with assms(2) show ?case by simp
next
  case (step c i c')
  with swarm_synced_step [OF step.hyps(2)] ctl_step_local [OF step.hyps(2)] show ?case by simp
qed

section \<open>From the operator to the actors\<close>

text \<open>A change of a machine entry leaves the nodes healthy.\<close>

lemma healthy_machine_change: "healthy n \<Longrightarrow> healthy (observe env (MACHINES_PREFIX @ i) v n)"
  by (auto simp: healthy_def observe_def Let_def peer_key_def MACHINES_PREFIX_def)

lemma op_machines_prefix: "OP_MACHINES_PREFIX = MACHINES_PREFIX"
  by (simp add: OP_MACHINES_PREFIX_def MACHINES_PREFIX_def)

section \<open>Properties of the whole system\<close>

text \<open>
  C2. From a resource to its actor: let the operator successfully reconcile a machine in a running
  cluster with at least one registered node, all of them healthy, and with stored specifications that
  parse, that is apply a specification the server can parse, or clean up an entry that exists. Then etcd
  holds what the operator wrote, the nodes can work off the
  change, and whenever nothing is left to do, exactly one registered node runs an actor for the machine
  after an apply, and none does after a cleanup.
\<close>

theorem reconciled_machine_has_one_actor:
  assumes "libraries_ok nm env P" and "distinct_names nm P"
    and "cluster_reach nm from_str env cl P (cluster_init nm cl cfg addr name) c"
    and "S = registered env cl (cl_store c)" and "S \<noteq> {}" and "\<forall>p\<in>S. healthy (cl_nodes c p)"
    and "\<forall>i j. cl_store c (MACHINES_PREFIX @ i) = Some j \<longrightarrow> spec_ok from_str j"
    and "oe_client oe = Inr ()" and "oe_answer oe = Request_Ok"
    and "to_json (rs_spec r) = Inr j" and "spec_ok from_str j" and "key = OP_MACHINES_PREFIX @ rs_name r"
    and "ev = Cleanup \<longrightarrow> cl_store c key \<noteq> None"
    and "c1 = etcd_change env key (case ev of Apply \<Rightarrow> Some j | Cleanup \<Rightarrow> None) c"
  shows "cl_store c1 = fst (reconcile_machine to_json oe (Calls ev) r (cl_store c)) \<and>
    cluster_reach nm from_str env cl P (cluster_init nm cl cfg addr name) c1 \<and>
    (\<exists>c'. (drain nm from_str env S)\<^sup>*\<^sup>* c1 c' \<and> \<not> (\<exists>c''. drain nm from_str env S c' c'')) \<and>
    (\<forall>c'. (drain nm from_str env S)\<^sup>*\<^sup>* c1 c' \<and> \<not> (\<exists>c''. drain nm from_str env S c' c'') \<longrightarrow>
       (case ev of
          Apply \<Rightarrow> \<exists>!p. p \<in> S \<and> mg_actors (nd_manager (cn_node (cl_nodes c' p))) (rs_name r) \<noteq> None
        | Cleanup \<Rightarrow> \<forall>p\<in>S. mg_actors (nd_manager (cn_node (cl_nodes c' p))) (rs_name r) = None))"
proof -
  let ?v = "case ev of Apply \<Rightarrow> Some j | Cleanup \<Rightarrow> None"
  have key: "key = MACHINES_PREFIX @ rs_name r" by (simp add: assms(12) op_machines_prefix)
  have st: "cl_store c1 = (cl_store c)(key := ?v)" by (simp add: assms(14) etcd_change_def)
  have "cl_store c1 = fst (reconcile_machine to_json oe (Calls ev) r (cl_store c))"
    using assms(8-10,12) by (cases ev) (simp_all add: st operator_defs split: sum.split)
  moreover have "cluster_step nm from_str env cl P c c1"
    using assms(13) unfolding assms(14) key by (intro cluster_step.machine) (cases ev; simp)
  then have reach: "cluster_reach nm from_str env cl P (cluster_init nm cl cfg addr name) c1"
    by (rule cluster_reach.step [OF assms(3)])
  moreover have S: "S = registered env cl (cl_store c1)" by (simp add: st key registered_other assms(4))
  have healthy: "\<forall>p\<in>S. healthy (cl_nodes c1 p)"
    using assms(6) by (auto simp: assms(14) etcd_change_def key intro: healthy_machine_change)
  have specs: "\<forall>i j. cl_store c1 (MACHINES_PREFIX @ i) = Some j \<longrightarrow> spec_ok from_str j"
    using assms(7,11) by (cases ev) (auto simp: st key)
  note drains = cluster_drains [OF assms(1,2) reach S assms(5) healthy specs]
  have "case ev of
      Apply \<Rightarrow> \<exists>!p. p \<in> S \<and> mg_actors (nd_manager (cn_node (cl_nodes c' p))) (rs_name r) \<noteq> None
    | Cleanup \<Rightarrow> \<forall>p\<in>S. mg_actors (nd_manager (cn_node (cl_nodes c' p))) (rs_name r) = None"
    if "(drain nm from_str env S)\<^sup>*\<^sup>* c1 c'" "\<not> (\<exists>c''. drain nm from_str env S c' c'')" for c'
  proof -
    have one: "one_actor_each S c'" and "cl_store c' (MACHINES_PREFIX @ rs_name r) = ?v"
      using conjunct2 [OF drains] that by (auto simp: st key)
    from one [unfolded one_actor_each_def, rule_format, of "rs_name r"] this(2) show ?thesis by (cases ev) simp_all
  qed
  ultimately show ?thesis using conjunct1 [OF drains] by blast
qed


theorem reconciled_machine_has_one_actor_witness:
  "\<exists>(c :: (string, string) cluster) c'.
    (drain sample_naming sample_parser sample_disc_env {sample_peer CHR ''a''})\<^sup>*\<^sup>*
      (etcd_change sample_disc_env (OP_MACHINES_PREFIX @ ''m2'') (Some ''{}'') c) c' \<and>
    mg_actors (nd_manager (cn_node (cl_nodes c' (sample_peer CHR ''a'')))) ''m2'' \<noteq> None"
proof -
  let ?p = "sample_peer CHR ''a''" and ?oe = "\<lparr>oe_client = Inr (), oe_answer = Request_Ok, oe_return = (\<lambda>_. map_sum Apply_Failed id)\<rparr>"
  let ?r = "\<lparr>rs_namespace = None, rs_name = ''m2'', rs_spec = ''{}''\<rparr> :: string resource"
  let ?drain = "drain sample_naming sample_parser sample_disc_env {?p}"
  obtain c where c: "cluster_reach sample_naming sample_parser sample_disc_env ''c'' {?p}
      (cluster_init sample_naming ''c'' network_config_default id id) c"
    "registered sample_disc_env ''c'' (cl_store c) = {?p}" "\<forall>p\<in>{?p}. healthy (cl_nodes c p)"
    "\<forall>i j. cl_store c (MACHINES_PREFIX @ i) = Some j \<longrightarrow> spec_ok sample_parser j"
    using sample_boot by blast
  have ok: "oe_client ?oe = Inr ()" "oe_answer ?oe = Request_Ok" "Inr (rs_spec ?r) = (Inr ''{}'' :: string + string)"
    "spec_ok sample_parser ''{}''" "Apply = Cleanup \<longrightarrow> cl_store c (OP_MACHINES_PREFIX @ rs_name ?r) \<noteq> None"
    by (simp_all add: spec_ok_def sample_parser_def)
  note one = reconciled_machine_has_one_actor [where to_json = Inr and r = ?r and oe = ?oe and ev = Apply,
      OF sample_libraries sample_naming_simps(2) c(1) c(2) [symmetric]
      insert_not_empty c(3,4) ok(1,2,3,4) refl ok(5) refl]
  then obtain c' where c': "?drain\<^sup>*\<^sup>* (etcd_change sample_disc_env (OP_MACHINES_PREFIX @ ''m2'') (Some ''{}'') c) c'"
    "\<not> (\<exists>c''. ?drain c' c'')" by auto
  with one have "\<exists>!p. p \<in> {?p} \<and> mg_actors (nd_manager (cn_node (cl_nodes c' p))) ''m2'' \<noteq> None" by simp
  then have "mg_actors (nd_manager (cn_node (cl_nodes c' ?p))) ''m2'' \<noteq> None" by (metis singletonD)
  with c'(1) show ?thesis by blast
qed

text \<open>
  C19. The network state follows the membership: in every reachable state of a discovery controller, the
  peers for which its commands have announced an address since they last removed them are exactly the
  known peers other than the local one; and for every interleaving of the swarm's events and the cleanup
  ticks with these commands (in their order), the network state tracks only such peers, and only if one
  of the announced addresses has an IPv4 and a TCP part; it tracks all of these unless a cleanup tick
  takes place. Peers announced with other addresses only are never tracked.
\<close>

theorem network_state_follows_membership:
  assumes "ctl_reach env (controller_new (phases_new cl me a True cfg hs sho) b) c"
    and "commands_of inputs = dp_swarm_tx (ct_phases c)"
    and "tracked = dom (ns_peers (sw_state (fold (event_loop_step b58 pr) inputs
      \<lparr>sw_calls = [], sw_state = network_state_new me cfg\<rparr>)))"
  shows "{q. announced (dp_swarm_tx (ct_phases c)) q \<noteq> {}} = dp_known_peers (ct_phases c) - {me} \<and>
    tracked \<subseteq> {q \<in> dp_known_peers (ct_phases c) - {me}.
      \<exists>a\<in>announced (dp_swarm_tx (ct_phases c)) q. dialable pr a} \<and>
    (no_cleanup inputs \<longrightarrow>
      tracked = {q \<in> dp_known_peers (ct_phases c) - {me}.
        \<exists>a\<in>announced (dp_swarm_tx (ct_phases c)) q. dialable pr a})"
proof -
  have "swarm_synced (ct_phases (controller_new (phases_new cl me a True cfg hs sho) b))"
    by (simp add: swarm_synced_def controller_new_def phases_new_def)
  from ctl_reach_synced [OF assms(1) this]
  have known: "{q. announced (dp_swarm_tx (ct_phases c)) q \<noteq> {}} = dp_known_peers (ct_phases c) - {me}"
    by (auto simp: swarm_synced_def controller_new_def phases_new_def)
  then have "reachable_peers pr (dp_swarm_tx (ct_phases c)) =
      {q \<in> dp_known_peers (ct_phases c) - {me}. \<exists>a\<in>announced (dp_swarm_tx (ct_phases c)) q. dialable pr a}"
    unfolding reachable_peers_def by blast
  with known assms(2,3) event_loop_tracks_discovery(2,3)
      [where b = b58 and pr = pr and inputs = inputs and me = me and cfg = cfg, OF refl]
  show ?thesis by simp
qed

theorem network_state_follows_membership_witness:
  "\<exists>c :: (string, string) controller. dp_known_peers (ct_phases c) = {''p'', ''q''} \<and>
    dom (ns_peers (sw_state (fold (event_loop_step id
        (\<lambda>a :: string. if a = ''addr'' then [Ip4 1, Tcp 9000] else [Other_Protocol ''ip6'', Tcp 9000]))
      [Swarm_Event (0, 0) (Connection_Established ''q''), Discovery_Command 1 (Cmd_Add_Peer ''q'' ''addr'')]
      \<lparr>sw_calls = [], sw_state = network_state_new ''p'' network_config_default\<rparr>))) = {''q''}"
proof -
  let ?pr = "\<lambda>a :: string. if a = ''addr'' then [Ip4 1, Tcp 9000] else [Other_Protocol ''ip6'', Tcp 9000]"
  let ?inputs = "[Swarm_Event (0, 0) (Connection_Established ''q''), Discovery_Command 1 (Cmd_Add_Peer ''q'' ''addr'')]
    :: (string, string) loop_input list"
  obtain c where c: "ctl_reach sample_disc_env
      (controller_new (phases_new ''c'' ''p'' ''addr'' True network_config_default True True) True) c"
    "dp_known_peers (ct_phases c) = {''p'', ''q''}" "dp_swarm_tx (ct_phases c) = [Cmd_Add_Peer ''q'' ''addr'']"
    using sample_controller_converges by blast
  have "commands_of ?inputs = dp_swarm_tx (ct_phases c)" by (simp add: commands_of_def map_filter_simps c(3))
  from conjunct2 [OF conjunct2 [OF network_state_follows_membership [OF c(1) this refl, of id ?pr]]]
  have "dom (ns_peers (sw_state (fold (event_loop_step id ?pr) ?inputs
      \<lparr>sw_calls = [], sw_state = network_state_new ''p'' network_config_default\<rparr>))) =
    {q \<in> dp_known_peers (ct_phases c) - {''p''}. \<exists>a\<in>announced (dp_swarm_tx (ct_phases c)) q. dialable ?pr a}"
    by (simp add: no_cleanup_def)
  also have "\<dots> = {''q''}"
    unfolding c(2,3) by (auto simp: announced_def dialable_def find_ip4_def find_tcp_def)
  finally show ?thesis using c(2) by blast
qed

text \<open>
  C20. Operator and server agree: for a machine resource whose serialised specification the server
  parses to the same administrative state, the watch events and the sync of the server read the entry
  that the operator writes back as the resource's name and specification, a cleanup as a deletion of
  that name, and a newly spawned actor accepts a booking exactly when the operator's
  \<^verbatim>\<open>AdminState::is_bookable\<close> holds.
\<close>

theorem operator_server_agreement:
  assumes "oe_client oe = Inr ()" and "oe_answer oe = Request_Ok" and "to_json (rs_spec r) = Inr j"
    and "from_str j = Inr s" and "ms_admin_state s = show_admin_state (mr_admin_state (rs_spec r))"
    and "key = OP_MACHINES_PREFIX @ rs_name r"
  shows "fst (reconcile_machine to_json oe (Calls Apply) r st) key = Some j \<and>
    watch_message \<lparr>we_event_type = Event_Put, we_kv = Some (Some key, Some j)\<rparr> =
      Some \<lparr>ee_machine_id = rs_name r, ee_event_type = Put, ee_spec_json = Some j\<rparr> \<and>
    collect_machines [(Some key, Some j)] = Inr [(rs_name r, j)] \<and>
    fst (reconcile_machine to_json oe (Calls Cleanup) r st) key = None \<and>
    watch_message \<lparr>we_event_type = Event_Delete, we_kv = Some (Some key, old)\<rparr> =
      Some \<lparr>ee_machine_id = rs_name r, ee_event_type = Delete, ee_spec_json = None\<rparr> \<and>
    (\<exists>a. with_node_id from_str now (rs_name r) j node_id = Inr a \<and>
      (pr_success (snd (snd (handle_provision_machine t booking_id config a))) \<longleftrightarrow>
        is_bookable (mr_admin_state (rs_spec r))))"
proof -
  have prefix: "OP_MACHINES_PREFIX = MACHINES_PREFIX"
    by (simp add: OP_MACHINES_PREFIX_def MACHINES_PREFIX_def)
  have book: "pr_success (snd (snd (handle_provision_machine t booking_id config
      (with_spec_and_node_id now (rs_name r) s node_id)))) \<longleftrightarrow> is_bookable (mr_admin_state (rs_spec r))"
    using assms(5)
    by (cases t; cases "mr_admin_state (rs_spec r)")
      (simp_all add: actor_handler_defs with_spec_and_node_id_def is_bookable_def)
  have "with_node_id from_str now (rs_name r) j node_id =
      Inr (with_spec_and_node_id now (rs_name r) s node_id)"
    using assms(4) by (simp add: with_node_id_Inr)
  with book have "\<exists>a. with_node_id from_str now (rs_name r) j node_id = Inr a \<and>
      (pr_success (snd (snd (handle_provision_machine t booking_id config a))) \<longleftrightarrow>
        is_bookable (mr_admin_state (rs_spec r)))" by blast
  with assms(1-4) show ?thesis
    by (simp add: assms(6) machines.entry mirror_step_def took_effect_def watch_message_def Let_def flip: prefix)
qed


definition sample_resource :: "machine_resource_spec resource" where
  "sample_resource =
     \<lparr>rs_namespace = None, rs_name = ''m1'',
      rs_spec = \<lparr>mr_interfaces = [],
                 mr_bmc = \<lparr>bmc_address = V4 1, bmc_prot = Redfish, bmc_credentials_secret = ''s'',
                           bmc_in_band = False\<rparr>,
                 mr_admin_state = Available, mr_cluster = default_cluster, mr_reserved_for = None,
                 mr_labels = Map.empty\<rparr>\<rparr>"

theorem operator_server_agreement_witness:
  "fst (reconcile_machine (\<lambda>x. Inr (show_admin_state (mr_admin_state x)))
      \<lparr>oe_client = Inr (), oe_answer = Request_Ok, oe_return = (\<lambda>_. map_sum Apply_Failed id)\<rparr> (Calls Apply) sample_resource Map.empty)
      (OP_MACHINES_PREFIX @ ''m1'') = Some ''available'' \<and>
   collect_machines [(Some (OP_MACHINES_PREFIX @ ''m1''), Some ''available'')] = Inr [(''m1'', ''available'')]"
  using operator_server_agreement [where oe = "\<lparr>oe_client = Inr (), oe_answer = Request_Ok, oe_return = (\<lambda>_. map_sum Apply_Failed id)\<rparr>" and r = sample_resource
      and to_json = "\<lambda>x. Inr (show_admin_state (mr_admin_state x))" and j = "''available''"
      and from_str = "\<lambda>x. Inr (sample_spec\<lparr>ms_admin_state := x\<rparr>)"
      and s = "sample_spec\<lparr>ms_admin_state := ''available''\<rparr>" and key = "OP_MACHINES_PREFIX @ ''m1''"
      and st = Map.empty and old = None and now = 0 and node_id = "''n''" and t = "(0, 0, 0)"
      and booking_id = "''b''" and config = sample_config]
  by (simp add: sample_resource_def)

end
